theory Spec2Isabelle
  imports Complex_Main "HOL-Library.Word" "HOL-Library.Multiset" "HOL-Library.Log_Nat"
begin

unbundle bit_operations_syntax

section \<open>extended\_tools: byte-order swaps and the 3-byte type\<close>

type_synonym uint8_t = "8 word"
type_synonym uint16_t = "16 word"
type_synonym uint32_t = "32 word"

text \<open>\<^verbatim>\<open>int16_t\<close> and \<^verbatim>\<open>int32_t\<close> fields hold the same bit patterns as their
  unsigned counterparts; the sign is read with \<^const>\<open>sint\<close> where the source converts
  the value to a number.\<close>

type_synonym int16_t = "16 word"
type_synonym int32_t = "32 word"

text \<open>\<^verbatim>\<open>typedef struct { uint8_t b[3]; } uint24_t;\<close>\<close>

datatype uint24_t = Uint24 (b0: uint8_t) (b1: uint8_t) (b2: uint8_t)

text \<open>\<^verbatim>\<open>return (uint16_t)((value_to_swap >> 8) | (value_to_swap << 8));\<close>
  The operand is promoted to a 32-bit \<^verbatim>\<open>int\<close> before the shifts and the result is
  truncated by the cast.\<close>

definition byte16_swap :: "uint16_t \<Rightarrow> uint16_t" where
  "byte16_swap value_to_swap =
     ucast (drop_bit 8 (ucast value_to_swap :: 32 word) OR
            push_bit 8 (ucast value_to_swap :: 32 word))"

definition byte32_swap :: "uint32_t \<Rightarrow> uint32_t" where
  "byte32_swap value_to_swap =
     push_bit 24 (value_to_swap AND 0x000000FF) OR
     push_bit 8 (value_to_swap AND 0x0000FF00) OR
     drop_bit 8 (value_to_swap AND 0x00FF0000) OR
     drop_bit 24 (value_to_swap AND 0xFF000000)"

section \<open>beacon\_frame\_schema: the raw frame\<close>

definition IS_BIG_ENDIAN :: bool where
  "IS_BIG_ENDIAN = True"

text \<open>The \<^verbatim>\<open>FrameID\<close> enumerators are C \<^verbatim>\<open>int\<close> constants.\<close>

definition PLATFORM_ID :: int where "PLATFORM_ID = 0x0001"
definition MEMORY_ID :: int where "MEMORY_ID = 0x0101"
definition CDH_ID :: int where "CDH_ID = 0x0201"
definition POWER_ID :: int where "POWER_ID = 0x0301"
definition THERMAL_ID :: int where "THERMAL_ID = 0x0401"
definition AOCS_ID :: int where "AOCS_ID = 0x0501"
definition PAYLOAD_ID :: int where "PAYLOAD_ID = 0x0601"

datatype ReadFileReturnType = READ_OK | READ_FAIL | READ_EOF

record BeaconHeader =
  beacon_id :: uint24_t

record PlatformTelemetrySchema =
  platform_telemetry_id :: uint16_t
  uptime_s :: uint32_t
  rtc_s :: uint32_t
  resetCount :: uint24_t
  currentMode :: uint8_t
  lastBootReason :: uint32_t

record MemoryTelemetrySchema =
  memory_telemetry_id :: uint16_t
  heap_free_bytes :: uint32_t

record CDHTelemetrySchema =
  cdh_id :: uint16_t
  lastSeenSequenceNumber :: uint32_t
  antennaDeployStatus :: uint8_t

record PowerTelemetrySchema =
  power_telemetry_id :: uint16_t
  low_voltage_counter :: uint16_t
  nice_battery_mV :: uint16_t
  raw_battery_mV :: uint16_t
  battery_A :: uint16_t
  pcm_3v3_V :: uint16_t
  pcm_3v3_A :: uint16_t
  pcm_5v_V :: uint16_t
  pcm_5v_A :: uint16_t

record ThermalTelemetrySchema =
  thermal_telemetry_id :: uint16_t
  CPU_C :: int16_t
  mirror_cell_C :: int16_t

record AOCSTelemetrySchema =
  aocs_telemetry_id :: uint16_t
  aocs_mode :: uint32_t
  sunvectorX :: int16_t
  sunvectorY :: int16_t
  sunvectorZ :: int16_t
  magnetometerX_mg :: int16_t
  magnetometerY_mg :: int16_t
  magnetometerZ_mg :: int16_t
  gyroX_dps :: int16_t
  gyroY_dps :: int16_t
  gyroZ_dps :: int16_t
  temperature_IMU_C :: int16_t
  fine_gyroX_dps :: int32_t
  fine_gyroY_dps :: int32_t
  fine_gyroZ_dps :: int32_t
  wheel_1_radsec :: int16_t
  wheel_2_radsec :: int16_t
  wheel_3_radsec :: int16_t
  wheel_4_radsec :: int16_t

record PayloadTelemetrySchema =
  payload_telemetry_id :: uint16_t
  experimentsRun :: uint16_t
  experimentsFailed :: uint16_t
  lastExperimentRun :: int16_t
  currentState :: uint8_t

text \<open>The member \<^verbatim>\<open>power\<close> of the frame is named \<open>power_sec\<close>: \<open>power\<close> is the
  exponentiation of HOL.\<close>

record BeaconFrame =
  platform :: PlatformTelemetrySchema
  memory :: MemoryTelemetrySchema
  cdh :: CDHTelemetrySchema
  power_sec :: PowerTelemetrySchema
  thermal :: ThermalTelemetrySchema
  aocs :: AOCSTelemetrySchema
  payload :: PayloadTelemetrySchema

subsection \<open>Objects in memory\<close>

text \<open>The bytes an object occupies in memory, lowest address first, and the value a
  sequence of bytes stands for. The host is little-endian: the decoder swaps the two
  bytes of every identifier before comparing it with its enumerator, whose first wire
  byte is the high one (\<^verbatim>\<open>// Expected: 0x04 0x01\<close> for \<^verbatim>\<open>THERMAL_ID = 0x0401\<close>).\<close>

definition bytes_of_u8 :: "uint8_t \<Rightarrow> uint8_t list" where
  "bytes_of_u8 v = [v]"

definition u8_of_bytes :: "uint8_t list \<Rightarrow> uint8_t" where
  "u8_of_bytes m = m ! 0"

definition bytes_of_u16 :: "uint16_t \<Rightarrow> uint8_t list" where
  "bytes_of_u16 v = [ucast v, ucast (drop_bit 8 v)]"

definition u16_of_bytes :: "uint8_t list \<Rightarrow> uint16_t" where
  "u16_of_bytes m = ucast (m ! 0) OR push_bit 8 (ucast (m ! 1))"

definition bytes_of_u24 :: "uint24_t \<Rightarrow> uint8_t list" where
  "bytes_of_u24 v = [b0 v, b1 v, b2 v]"

definition u24_of_bytes :: "uint8_t list \<Rightarrow> uint24_t" where
  "u24_of_bytes m = Uint24 (m ! 0) (m ! 1) (m ! 2)"

definition bytes_of_u32 :: "uint32_t \<Rightarrow> uint8_t list" where
  "bytes_of_u32 v = [ucast v, ucast (drop_bit 8 v), ucast (drop_bit 16 v), ucast (drop_bit 24 v)]"

definition u32_of_bytes :: "uint8_t list \<Rightarrow> uint32_t" where
  "u32_of_bytes m =
     ucast (m ! 0) OR push_bit 8 (ucast (m ! 1)) OR
     push_bit 16 (ucast (m ! 2)) OR push_bit 24 (ucast (m ! 3))"

subsection \<open>The byte source\<close>

text \<open>A \<^verbatim>\<open>FILE *\<close> open for reading is the list of the bytes not yet consumed; the end
  of the list is the end of the file.\<close>

text \<open>\<^verbatim>\<open>fread(ptr, 1, n, file)\<close> with \<open>n\<close> the size of the object at \<^verbatim>\<open>ptr\<close>, whose
  bytes before the call are \<open>mem\<close>: the bytes available, at most \<open>n\<close>, overwrite the
  first bytes of the object and are consumed; their number is returned.\<close>

definition fread :: "uint8_t list \<Rightarrow> uint8_t list \<Rightarrow> nat \<times> uint8_t list \<times> uint8_t list" where
  "fread mem file =
     (let got = take (length mem) file
      in (length got, got @ drop (length got) mem, drop (length got) file))"

text \<open>The state \<^verbatim>\<open>read_data_frame\<close> works on once both pointers are known to be valid:
  the position \<open>stream\<close> of \<^verbatim>\<open>file\<close> and the frame \<^verbatim>\<open>*out\<close>.\<close>

record rd_state =
  stream :: "uint8_t list"
  out :: BeaconFrame

text \<open>\<^verbatim>\<open>#define READ_FIELD(file, ptr) (fread((ptr), 1, sizeof(*(ptr)), (file)) == sizeof(*(ptr)))\<close>
  The pointer \<^verbatim>\<open>&out->sec.fld\<close> is given by the selectors and the update functions of
  the section and of the field; the first two arguments are the memory representation
  of the field's type.\<close>

definition READ_FIELD ::
  "('a \<Rightarrow> uint8_t list) \<Rightarrow> (uint8_t list \<Rightarrow> 'a) \<Rightarrow>
   (BeaconFrame \<Rightarrow> 's) \<Rightarrow> (('s \<Rightarrow> 's) \<Rightarrow> BeaconFrame \<Rightarrow> BeaconFrame) \<Rightarrow>
   ('s \<Rightarrow> 'a) \<Rightarrow> (('a \<Rightarrow> 'a) \<Rightarrow> 's \<Rightarrow> 's) \<Rightarrow> rd_state \<Rightarrow> bool \<times> rd_state" where
  "READ_FIELD bytes_of of_bytes sec sec_update fld fld_update s =
     (let mem = bytes_of (fld (sec (out s)));
          (n, mem', file') = fread mem (stream s)
      in (n = length mem,
          \<lparr>stream = file', out = sec_update (fld_update (\<lambda>_. of_bytes mem')) (out s)\<rparr>))"

abbreviation "READ_FIELD_u8 \<equiv> READ_FIELD bytes_of_u8 u8_of_bytes"
abbreviation "READ_FIELD_u16 \<equiv> READ_FIELD bytes_of_u16 u16_of_bytes"
abbreviation "READ_FIELD_u24 \<equiv> READ_FIELD bytes_of_u24 u24_of_bytes"
abbreviation "READ_FIELD_u32 \<equiv> READ_FIELD bytes_of_u32 u32_of_bytes"

text \<open>\<^verbatim>\<open>if (ID != (IS_BIG_ENDIAN ? byte16_swap(out->sec.id) : out->sec.id)) { printf(...); return READ_FAIL; }\<close>
  The result is \<open>False\<close> when the statement returns \<^verbatim>\<open>READ_FAIL\<close>. Both operands of
  the comparison are \<^verbatim>\<open>int\<close>. The message printed on the standard output is left out.\<close>

definition CHECK_ID :: "int \<Rightarrow> (BeaconFrame \<Rightarrow> 's) \<Rightarrow> ('s \<Rightarrow> uint16_t) \<Rightarrow> rd_state \<Rightarrow> bool \<times> rd_state" where
  "CHECK_ID ID sec fld s =
     (\<not> (ID \<noteq> uint (if IS_BIG_ENDIAN then byte16_swap (fld (sec (out s))) else fld (sec (out s)))), s)"

text \<open>A sequence of statements of the form \<^verbatim>\<open>if (!stmt) return READ_FAIL;\<close> followed by
  \<^verbatim>\<open>return READ_OK;\<close>.\<close>

fun read_fields :: "(rd_state \<Rightarrow> bool \<times> rd_state) list \<Rightarrow> rd_state \<Rightarrow> ReadFileReturnType \<times> rd_state" where
  "read_fields [] s = (READ_OK, s)"
| "read_fields (stmt # stmts) s =
     (let (ok, s') = stmt s in if \<not> ok then (READ_FAIL, s') else read_fields stmts s')"

text \<open>Lines 63 to 76 of \<^verbatim>\<open>beacon_frame_schema.c\<close>.\<close>

definition PLATFORM_fields :: "(rd_state \<Rightarrow> bool \<times> rd_state) list" where
  "PLATFORM_fields =
    [READ_FIELD_u16 platform platform_update platform_telemetry_id platform_telemetry_id_update,
     CHECK_ID PLATFORM_ID platform platform_telemetry_id,
     READ_FIELD_u32 platform platform_update uptime_s uptime_s_update,
     READ_FIELD_u32 platform platform_update rtc_s rtc_s_update,
     READ_FIELD_u24 platform platform_update resetCount resetCount_update,
     READ_FIELD_u8 platform platform_update currentMode currentMode_update,
     READ_FIELD_u32 platform platform_update lastBootReason lastBootReason_update]"

text \<open>Lines 78 to 87.\<close>

definition MEMORY_fields :: "(rd_state \<Rightarrow> bool \<times> rd_state) list" where
  "MEMORY_fields =
    [READ_FIELD_u16 memory memory_update memory_telemetry_id memory_telemetry_id_update,
     CHECK_ID MEMORY_ID memory memory_telemetry_id,
     READ_FIELD_u32 memory memory_update heap_free_bytes heap_free_bytes_update]"

text \<open>Lines 89 to 99.\<close>

definition CDH_fields :: "(rd_state \<Rightarrow> bool \<times> rd_state) list" where
  "CDH_fields =
    [READ_FIELD_u16 cdh cdh_update cdh_id cdh_id_update,
     CHECK_ID CDH_ID cdh cdh_id,
     READ_FIELD_u32 cdh cdh_update lastSeenSequenceNumber lastSeenSequenceNumber_update,
     READ_FIELD_u8 cdh cdh_update antennaDeployStatus antennaDeployStatus_update]"

text \<open>Lines 101 to 117.\<close>

definition POWER_fields :: "(rd_state \<Rightarrow> bool \<times> rd_state) list" where
  "POWER_fields =
    [READ_FIELD_u16 power_sec power_sec_update power_telemetry_id power_telemetry_id_update,
     CHECK_ID POWER_ID power_sec power_telemetry_id,
     READ_FIELD_u16 power_sec power_sec_update low_voltage_counter low_voltage_counter_update,
     READ_FIELD_u16 power_sec power_sec_update nice_battery_mV nice_battery_mV_update,
     READ_FIELD_u16 power_sec power_sec_update raw_battery_mV raw_battery_mV_update,
     READ_FIELD_u16 power_sec power_sec_update battery_A battery_A_update,
     READ_FIELD_u16 power_sec power_sec_update pcm_3v3_V pcm_3v3_V_update,
     READ_FIELD_u16 power_sec power_sec_update pcm_3v3_A pcm_3v3_A_update,
     READ_FIELD_u16 power_sec power_sec_update pcm_5v_V pcm_5v_V_update,
     READ_FIELD_u16 power_sec power_sec_update pcm_5v_A pcm_5v_A_update]"

text \<open>Lines 119 to 129.\<close>

definition THERMAL_fields :: "(rd_state \<Rightarrow> bool \<times> rd_state) list" where
  "THERMAL_fields =
    [READ_FIELD_u16 thermal thermal_update thermal_telemetry_id thermal_telemetry_id_update,
     CHECK_ID THERMAL_ID thermal thermal_telemetry_id,
     READ_FIELD_u16 thermal thermal_update CPU_C CPU_C_update,
     READ_FIELD_u16 thermal thermal_update mirror_cell_C mirror_cell_C_update]"

text \<open>Lines 131 to 157.\<close>

definition AOCS_fields :: "(rd_state \<Rightarrow> bool \<times> rd_state) list" where
  "AOCS_fields =
    [READ_FIELD_u16 aocs aocs_update aocs_telemetry_id aocs_telemetry_id_update,
     CHECK_ID AOCS_ID aocs aocs_telemetry_id,
     READ_FIELD_u32 aocs aocs_update aocs_mode aocs_mode_update,
     READ_FIELD_u16 aocs aocs_update sunvectorX sunvectorX_update,
     READ_FIELD_u16 aocs aocs_update sunvectorY sunvectorY_update,
     READ_FIELD_u16 aocs aocs_update sunvectorZ sunvectorZ_update,
     READ_FIELD_u16 aocs aocs_update magnetometerX_mg magnetometerX_mg_update,
     READ_FIELD_u16 aocs aocs_update magnetometerY_mg magnetometerY_mg_update,
     READ_FIELD_u16 aocs aocs_update magnetometerZ_mg magnetometerZ_mg_update,
     READ_FIELD_u16 aocs aocs_update gyroX_dps gyroX_dps_update,
     READ_FIELD_u16 aocs aocs_update gyroY_dps gyroY_dps_update,
     READ_FIELD_u16 aocs aocs_update gyroZ_dps gyroZ_dps_update,
     READ_FIELD_u16 aocs aocs_update temperature_IMU_C temperature_IMU_C_update,
     READ_FIELD_u32 aocs aocs_update fine_gyroX_dps fine_gyroX_dps_update,
     READ_FIELD_u32 aocs aocs_update fine_gyroY_dps fine_gyroY_dps_update,
     READ_FIELD_u32 aocs aocs_update fine_gyroZ_dps fine_gyroZ_dps_update,
     READ_FIELD_u16 aocs aocs_update wheel_1_radsec wheel_1_radsec_update,
     READ_FIELD_u16 aocs aocs_update wheel_2_radsec wheel_2_radsec_update,
     READ_FIELD_u16 aocs aocs_update wheel_3_radsec wheel_3_radsec_update,
     READ_FIELD_u16 aocs aocs_update wheel_4_radsec wheel_4_radsec_update]"

text \<open>Lines 159 to 171.\<close>

definition PAYLOAD_fields :: "(rd_state \<Rightarrow> bool \<times> rd_state) list" where
  "PAYLOAD_fields =
    [READ_FIELD_u16 payload payload_update payload_telemetry_id payload_telemetry_id_update,
     CHECK_ID PAYLOAD_ID payload payload_telemetry_id,
     READ_FIELD_u16 payload payload_update experimentsRun experimentsRun_update,
     READ_FIELD_u16 payload payload_update experimentsFailed experimentsFailed_update,
     READ_FIELD_u16 payload payload_update lastExperimentRun lastExperimentRun_update,
     READ_FIELD_u8 payload payload_update currentState currentState_update]"

text \<open>The statements of \<^verbatim>\<open>read_data_frame\<close> after the search (lines 63 to 174), in
  one list.\<close>

definition frame_fields :: "(rd_state \<Rightarrow> bool \<times> rd_state) list" where
  "frame_fields =
     PLATFORM_fields @ MEMORY_fields @ CDH_fields @ POWER_fields @
     THERMAL_fields @ AOCS_fields @ PAYLOAD_fields"

text \<open>The search for the beacon ID (lines 31 to 57). \<open>header_match\<close> is the 3-byte
  window and \<open>header_index\<close> the number of bytes in it while it fills. First the body of
  the loop up to the test: the byte read is stored at \<open>header_index\<close>, or the window is
  shifted by one once it is full.\<close>

definition header_match_insert ::
  "uint8_t \<times> uint8_t \<times> uint8_t \<Rightarrow> nat \<Rightarrow> uint8_t \<Rightarrow> (uint8_t \<times> uint8_t \<times> uint8_t) \<times> nat" where
  "header_match_insert header_match header_index byte_read =
     (case header_match of (m0, m1, m2) \<Rightarrow>
        if header_index < 3
        then ((if header_index = 0 then (byte_read, m1, m2)
               else if header_index = 1 then (m0, byte_read, m2)
               else (m0, m1, byte_read)), header_index + 1)
        else ((m1, m2, byte_read), header_index))"

text \<open>The test that leaves the loop.\<close>

definition header_found :: "BeaconHeader \<Rightarrow> uint8_t \<times> uint8_t \<times> uint8_t \<Rightarrow> nat \<Rightarrow> bool" where
  "header_found header header_match header_index \<longleftrightarrow>
     header_index = 3 \<and>
     fst header_match = b0 (beacon_id header) \<and>
     fst (snd header_match) = b1 (beacon_id header) \<and>
     snd (snd header_match) = b2 (beacon_id header)"

text \<open>The loop: \<^verbatim>\<open>fgetc\<close> takes the first byte of the file, or returns \<^verbatim>\<open>EOF\<close> on the
  empty one. The result is the position after the match, or \<open>None\<close> for \<^verbatim>\<open>EOF\<close>.\<close>

fun search_beacon_id ::
  "BeaconHeader \<Rightarrow> uint8_t \<times> uint8_t \<times> uint8_t \<Rightarrow> nat \<Rightarrow> uint8_t list \<Rightarrow> uint8_t list option" where
  "search_beacon_id header header_match header_index [] = None"
| "search_beacon_id header header_match header_index (byte_read # file') =
     (let w = header_match_insert header_match header_index byte_read
      in if header_found header (fst w) (snd w) then Some file'
         else search_beacon_id header (fst w) (snd w) file')"

text \<open>\<^verbatim>\<open>read_data_frame\<close>: a null pointer is \<open>None\<close>. The result is the return value, the
  position of the file and the frame \<^verbatim>\<open>*out\<close> after the call.\<close>

definition read_data_frame ::
  "uint8_t list option \<Rightarrow> BeaconHeader \<Rightarrow> BeaconFrame option \<Rightarrow>
   ReadFileReturnType \<times> uint8_t list option \<times> BeaconFrame option" where
  "read_data_frame file_ptr header out_ptr =
     (case (file_ptr, out_ptr) of
        (Some f, Some fr) \<Rightarrow>
          (case search_beacon_id header (0, 0, 0) 0 f of
             None \<Rightarrow> (READ_EOF, Some [], Some fr)
           | Some f' \<Rightarrow>
               (let (r, s) = read_fields frame_fields \<lparr>stream = f', out = fr\<rparr>
                in (r, Some (stream s), Some (out s))))
      | _ \<Rightarrow> (READ_FAIL, file_ptr, out_ptr))"

section \<open>The wire image of a frame\<close>

text \<open>The repository has no encoder. The serialisation of the round-trip property is
  the wire image defined here: the fields in schema order, each as the bytes of its object
  in memory, with no padding between them. The functions \<open>\<dots>_of_bytes\<close> read a
  section back from the first bytes of a list, field by field at its offset.\<close>

definition PlatformTelemetrySchema_bytes :: "PlatformTelemetrySchema \<Rightarrow> uint8_t list" where
  "PlatformTelemetrySchema_bytes s =
     bytes_of_u16 (platform_telemetry_id s) @
     bytes_of_u32 (uptime_s s) @
     bytes_of_u32 (rtc_s s) @
     bytes_of_u24 (resetCount s) @
     bytes_of_u8 (currentMode s) @
     bytes_of_u32 (lastBootReason s)"

definition PlatformTelemetrySchema_of_bytes :: "uint8_t list \<Rightarrow> PlatformTelemetrySchema" where
  "PlatformTelemetrySchema_of_bytes f =
     \<lparr>platform_telemetry_id = u16_of_bytes (take 2 f),
      uptime_s = u32_of_bytes (take 4 (drop 2 f)),
      rtc_s = u32_of_bytes (take 4 (drop 6 f)),
      resetCount = u24_of_bytes (take 3 (drop 10 f)),
      currentMode = u8_of_bytes (take 1 (drop 13 f)),
      lastBootReason = u32_of_bytes (take 4 (drop 14 f))\<rparr>"

definition MemoryTelemetrySchema_bytes :: "MemoryTelemetrySchema \<Rightarrow> uint8_t list" where
  "MemoryTelemetrySchema_bytes s =
     bytes_of_u16 (memory_telemetry_id s) @
     bytes_of_u32 (heap_free_bytes s)"

definition MemoryTelemetrySchema_of_bytes :: "uint8_t list \<Rightarrow> MemoryTelemetrySchema" where
  "MemoryTelemetrySchema_of_bytes f =
     \<lparr>memory_telemetry_id = u16_of_bytes (take 2 f),
      heap_free_bytes = u32_of_bytes (take 4 (drop 2 f))\<rparr>"

definition CDHTelemetrySchema_bytes :: "CDHTelemetrySchema \<Rightarrow> uint8_t list" where
  "CDHTelemetrySchema_bytes s =
     bytes_of_u16 (cdh_id s) @
     bytes_of_u32 (lastSeenSequenceNumber s) @
     bytes_of_u8 (antennaDeployStatus s)"

definition CDHTelemetrySchema_of_bytes :: "uint8_t list \<Rightarrow> CDHTelemetrySchema" where
  "CDHTelemetrySchema_of_bytes f =
     \<lparr>cdh_id = u16_of_bytes (take 2 f),
      lastSeenSequenceNumber = u32_of_bytes (take 4 (drop 2 f)),
      antennaDeployStatus = u8_of_bytes (take 1 (drop 6 f))\<rparr>"

definition PowerTelemetrySchema_bytes :: "PowerTelemetrySchema \<Rightarrow> uint8_t list" where
  "PowerTelemetrySchema_bytes s =
     bytes_of_u16 (power_telemetry_id s) @
     bytes_of_u16 (low_voltage_counter s) @
     bytes_of_u16 (nice_battery_mV s) @
     bytes_of_u16 (raw_battery_mV s) @
     bytes_of_u16 (battery_A s) @
     bytes_of_u16 (pcm_3v3_V s) @
     bytes_of_u16 (pcm_3v3_A s) @
     bytes_of_u16 (pcm_5v_V s) @
     bytes_of_u16 (pcm_5v_A s)"

definition PowerTelemetrySchema_of_bytes :: "uint8_t list \<Rightarrow> PowerTelemetrySchema" where
  "PowerTelemetrySchema_of_bytes f =
     \<lparr>power_telemetry_id = u16_of_bytes (take 2 f),
      low_voltage_counter = u16_of_bytes (take 2 (drop 2 f)),
      nice_battery_mV = u16_of_bytes (take 2 (drop 4 f)),
      raw_battery_mV = u16_of_bytes (take 2 (drop 6 f)),
      battery_A = u16_of_bytes (take 2 (drop 8 f)),
      pcm_3v3_V = u16_of_bytes (take 2 (drop 10 f)),
      pcm_3v3_A = u16_of_bytes (take 2 (drop 12 f)),
      pcm_5v_V = u16_of_bytes (take 2 (drop 14 f)),
      pcm_5v_A = u16_of_bytes (take 2 (drop 16 f))\<rparr>"

definition ThermalTelemetrySchema_bytes :: "ThermalTelemetrySchema \<Rightarrow> uint8_t list" where
  "ThermalTelemetrySchema_bytes s =
     bytes_of_u16 (thermal_telemetry_id s) @
     bytes_of_u16 (CPU_C s) @
     bytes_of_u16 (mirror_cell_C s)"

definition ThermalTelemetrySchema_of_bytes :: "uint8_t list \<Rightarrow> ThermalTelemetrySchema" where
  "ThermalTelemetrySchema_of_bytes f =
     \<lparr>thermal_telemetry_id = u16_of_bytes (take 2 f),
      CPU_C = u16_of_bytes (take 2 (drop 2 f)),
      mirror_cell_C = u16_of_bytes (take 2 (drop 4 f))\<rparr>"

definition AOCSTelemetrySchema_bytes :: "AOCSTelemetrySchema \<Rightarrow> uint8_t list" where
  "AOCSTelemetrySchema_bytes s =
     bytes_of_u16 (aocs_telemetry_id s) @
     bytes_of_u32 (aocs_mode s) @
     bytes_of_u16 (sunvectorX s) @
     bytes_of_u16 (sunvectorY s) @
     bytes_of_u16 (sunvectorZ s) @
     bytes_of_u16 (magnetometerX_mg s) @
     bytes_of_u16 (magnetometerY_mg s) @
     bytes_of_u16 (magnetometerZ_mg s) @
     bytes_of_u16 (gyroX_dps s) @
     bytes_of_u16 (gyroY_dps s) @
     bytes_of_u16 (gyroZ_dps s) @
     bytes_of_u16 (temperature_IMU_C s) @
     bytes_of_u32 (fine_gyroX_dps s) @
     bytes_of_u32 (fine_gyroY_dps s) @
     bytes_of_u32 (fine_gyroZ_dps s) @
     bytes_of_u16 (wheel_1_radsec s) @
     bytes_of_u16 (wheel_2_radsec s) @
     bytes_of_u16 (wheel_3_radsec s) @
     bytes_of_u16 (wheel_4_radsec s)"

definition AOCSTelemetrySchema_of_bytes :: "uint8_t list \<Rightarrow> AOCSTelemetrySchema" where
  "AOCSTelemetrySchema_of_bytes f =
     \<lparr>aocs_telemetry_id = u16_of_bytes (take 2 f),
      aocs_mode = u32_of_bytes (take 4 (drop 2 f)),
      sunvectorX = u16_of_bytes (take 2 (drop 6 f)),
      sunvectorY = u16_of_bytes (take 2 (drop 8 f)),
      sunvectorZ = u16_of_bytes (take 2 (drop 10 f)),
      magnetometerX_mg = u16_of_bytes (take 2 (drop 12 f)),
      magnetometerY_mg = u16_of_bytes (take 2 (drop 14 f)),
      magnetometerZ_mg = u16_of_bytes (take 2 (drop 16 f)),
      gyroX_dps = u16_of_bytes (take 2 (drop 18 f)),
      gyroY_dps = u16_of_bytes (take 2 (drop 20 f)),
      gyroZ_dps = u16_of_bytes (take 2 (drop 22 f)),
      temperature_IMU_C = u16_of_bytes (take 2 (drop 24 f)),
      fine_gyroX_dps = u32_of_bytes (take 4 (drop 26 f)),
      fine_gyroY_dps = u32_of_bytes (take 4 (drop 30 f)),
      fine_gyroZ_dps = u32_of_bytes (take 4 (drop 34 f)),
      wheel_1_radsec = u16_of_bytes (take 2 (drop 38 f)),
      wheel_2_radsec = u16_of_bytes (take 2 (drop 40 f)),
      wheel_3_radsec = u16_of_bytes (take 2 (drop 42 f)),
      wheel_4_radsec = u16_of_bytes (take 2 (drop 44 f))\<rparr>"

definition PayloadTelemetrySchema_bytes :: "PayloadTelemetrySchema \<Rightarrow> uint8_t list" where
  "PayloadTelemetrySchema_bytes s =
     bytes_of_u16 (payload_telemetry_id s) @
     bytes_of_u16 (experimentsRun s) @
     bytes_of_u16 (experimentsFailed s) @
     bytes_of_u16 (lastExperimentRun s) @
     bytes_of_u8 (currentState s)"

definition PayloadTelemetrySchema_of_bytes :: "uint8_t list \<Rightarrow> PayloadTelemetrySchema" where
  "PayloadTelemetrySchema_of_bytes f =
     \<lparr>payload_telemetry_id = u16_of_bytes (take 2 f),
      experimentsRun = u16_of_bytes (take 2 (drop 2 f)),
      experimentsFailed = u16_of_bytes (take 2 (drop 4 f)),
      lastExperimentRun = u16_of_bytes (take 2 (drop 6 f)),
      currentState = u8_of_bytes (take 1 (drop 8 f))\<rparr>"

definition BeaconFrame_bytes :: "BeaconFrame \<Rightarrow> uint8_t list" where
  "BeaconFrame_bytes fr =
     PlatformTelemetrySchema_bytes (platform fr) @
     MemoryTelemetrySchema_bytes (memory fr) @
     CDHTelemetrySchema_bytes (cdh fr) @
     PowerTelemetrySchema_bytes (power_sec fr) @
     ThermalTelemetrySchema_bytes (thermal fr) @
     AOCSTelemetrySchema_bytes (aocs fr) @
     PayloadTelemetrySchema_bytes (payload fr)"

definition BeaconFrame_of_bytes :: "uint8_t list \<Rightarrow> BeaconFrame" where
  "BeaconFrame_of_bytes f =
     \<lparr>platform = PlatformTelemetrySchema_of_bytes f,
      memory = MemoryTelemetrySchema_of_bytes (drop 18 f),
      cdh = CDHTelemetrySchema_of_bytes (drop 24 f),
      power_sec = PowerTelemetrySchema_of_bytes (drop 31 f),
      thermal = ThermalTelemetrySchema_of_bytes (drop 49 f),
      aocs = AOCSTelemetrySchema_of_bytes (drop 55 f),
      payload = PayloadTelemetrySchema_of_bytes (drop 101 f)\<rparr>"

text \<open>What the search for the beacon ID is to compute: the rest of a list after the first
  occurrence of the marker \<open>mk\<close> in it, or \<open>None\<close> when the marker does not occur.\<close>

fun after_first :: "uint8_t list \<Rightarrow> uint8_t list \<Rightarrow> uint8_t list option" where
  "after_first mk [] = None"
| "after_first mk (x # xs) =
     (if take (length mk) (x # xs) = mk then Some (drop (length mk) (x # xs))
      else after_first mk xs)"

text \<open>A statement that, when it does not fail, has consumed exactly \<open>w\<close> bytes.\<close>

definition consumes :: "nat \<Rightarrow> (rd_state \<Rightarrow> bool \<times> rd_state) \<Rightarrow> bool" where
  "consumes w stmt \<longleftrightarrow>
     (\<forall>s. fst (stmt s) \<longrightarrow> w \<le> length (stream s) \<and> stream (snd (stmt s)) = drop w (stream s))"

section \<open>Sample data\<close>

text \<open>The header \<^verbatim>\<open>main\<close> searches for.\<close>

definition main_header :: BeaconHeader where
  "main_header = \<lparr>beacon_id = Uint24 0xFF 0xFF 0xF0\<rparr>"

text \<open>A frame on the wire, used to instantiate the statements below: the seven identifiers
  are the expected ones, \<^verbatim>\<open>rtc_s\<close> is 100, \<^verbatim>\<open>CPU_C\<close> is 2500, \<^verbatim>\<open>mirror_cell_C\<close> is
  \<open>-500\<close> and the sun vector is \<open>(16384, -16384, 0)\<close>, all big-endian.\<close>

definition sample_frame_bytes :: "uint8_t list" where
  "sample_frame_bytes =
     [0x00, 0x01, 0x00, 0x00, 0x0E, 0x10, 0x00, 0x00, 0x00, 0x64, 0x00, 0x00,
      0x02, 0x81, 0x00, 0x00, 0x00, 0x01, 0x01, 0x01, 0x00, 0x01, 0x00, 0x00,
      0x02, 0x01, 0x00, 0x00, 0x00, 0x07, 0x01, 0x03, 0x01, 0x00, 0x01, 0x00,
      0x02, 0x00, 0x03, 0x00, 0x04, 0x00, 0x05, 0x00, 0x06, 0x00, 0x07, 0x00,
      0x08, 0x04, 0x01, 0x09, 0xC4, 0xFE, 0x0C, 0x05, 0x01, 0x00, 0x00, 0x00,
      0x03, 0x40, 0x00, 0xC0, 0x00, 0x00, 0x00, 0x00, 0x09, 0x00, 0x0A, 0x00,
      0x0B, 0x00, 0x0C, 0x00, 0x0D, 0x00, 0x0E, 0x00, 0x0F, 0x00, 0x00, 0x00,
      0x10, 0x00, 0x00, 0x00, 0x11, 0x00, 0x00, 0x00, 0x12, 0x00, 0x13, 0x00,
      0x14, 0x00, 0x15, 0x00, 0x16, 0x06, 0x01, 0x00, 0x17, 0x00, 0x18, 0x00,
      0x19, 0x05]"

text \<open>A frame with every byte zero, for the content of \<^verbatim>\<open>*out\<close> before a call.\<close>

definition zero_frame :: BeaconFrame where
  "zero_frame = BeaconFrame_of_bytes (replicate 110 0)"

section \<open>thermal\_calibrated and sun\_sensors\_calibrated\<close>

subsection \<open>\<^verbatim>\<open>float\<close>\<close>

text \<open>A finite \<^verbatim>\<open>float\<close> (IEEE 754 binary32) is the rational number it stands for. An
  arithmetic operation is the exact operation followed by \<open>f32_round\<close>, rounding to the
  nearest number with a 24-bit significand, ties to the even significand. \<open>f32_exponent x\<close>
  is the exponent \<open>e\<close> with \<open>2 ^ e \<le> \<bar>x\<bar> < 2 ^ (e + 1)\<close>. The exponent range of the
  format is not modelled: the calibrations multiply or divide a 16-bit integer by a
  constant, and every result is zero or of magnitude between \<open>2 ^ -14\<close> and \<open>2 ^ 9\<close>, far
  from underflow and overflow.\<close>

type_synonym float = rat

definition round_even :: "rat \<Rightarrow> int" where
  "round_even x =
     (let f = \<lfloor>x\<rfloor>; r = x - of_int f
      in if r < 1 / 2 then f else if 1 / 2 < r then f + 1 else if even f then f else f + 1)"

definition f32_exponent :: "rat \<Rightarrow> int" where
  "f32_exponent x =
     (let (p, q) = quotient_of \<bar>x\<bar>; d = bitlen p - bitlen q
      in if 2 powi d \<le> \<bar>x\<bar> then d else d - 1)"

definition f32_round :: "rat \<Rightarrow> float" where
  "f32_round x =
     (if x = 0 then 0
      else let q = 2 powi (f32_exponent x - 23) in of_int (round_even (x / q)) * q)"

text \<open>\<^verbatim>\<open>(float)(value)\<close> for an \<^verbatim>\<open>int16_t\<close>: exact, the value has at most 16 bits.\<close>

definition float_of_int16 :: "int16_t \<Rightarrow> float" where
  "float_of_int16 v = of_int (sint v)"

text \<open>\<^verbatim>\<open>#define TEMP_C_PHYSICAL_VALUE(value) ((float)(value) * 0.01f)\<close>; the constant
  \<^verbatim>\<open>0.01f\<close> is the \<^verbatim>\<open>float\<close> nearest to one hundredth. The exact product has at most
  40 significant bits, so a compiler that evaluates it in \<^verbatim>\<open>double\<close> before storing it
  in the \<^verbatim>\<open>float\<close> member rounds once as well, to the same value.\<close>

definition TEMP_C_PHYSICAL_VALUE :: "int16_t \<Rightarrow> float" where
  "TEMP_C_PHYSICAL_VALUE v = f32_round (float_of_int16 v * f32_round (1 / 100))"

text \<open>\<^verbatim>\<open>#define SUN_SENSORS_PHYSICAL_VALUE(value) ((float)(value) / 16384.0f)\<close>\<close>

definition SUN_SENSORS_PHYSICAL_VALUE :: "int16_t \<Rightarrow> float" where
  "SUN_SENSORS_PHYSICAL_VALUE v = f32_round (float_of_int16 v / f32_round 16384)"

subsection \<open>The calibrated records\<close>

text \<open>The members \<^verbatim>\<open>CPU_C\<close> and \<^verbatim>\<open>mirror_cell_C\<close> exist in the raw and in the calibrated
  thermal structure; they are told apart by the name of the record.\<close>

record ThermalTelemetryCalibrated =
  thermal_telemetry_timestamp :: uint32_t
  CPU_C :: float
  mirror_cell_C :: float

record SunSensorsTelemetryCalibrated =
  sun_sensors_telemetry_timestamp :: uint32_t
  sun_vector_x :: float
  sun_vector_y :: float
  sun_vector_z :: float

text \<open>\<^verbatim>\<open>thermal_to_calibrated\<close>; the first argument is the structure the pointer points
  to. The assignment \<^verbatim>\<open>cpu_T = byte16_swap(cpu_T)\<close> converts the \<^verbatim>\<open>int16_t\<close> to
  \<^verbatim>\<open>uint16_t\<close> and back; both conversions keep the 16 bits.\<close>

definition thermal_to_calibrated ::
  "ThermalTelemetrySchema \<Rightarrow> uint32_t \<Rightarrow> ThermalTelemetryCalibrated" where
  "thermal_to_calibrated thermal_schema_value timestamp =
     (let cpu_T = ThermalTelemetrySchema.CPU_C thermal_schema_value;
          mirror_T = ThermalTelemetrySchema.mirror_cell_C thermal_schema_value;
          ts = timestamp;
          (cpu_T, mirror_T, ts) =
            (if IS_BIG_ENDIAN then (byte16_swap cpu_T, byte16_swap mirror_T, byte32_swap ts)
             else (cpu_T, mirror_T, ts))
      in \<lparr>thermal_telemetry_timestamp = ts,
          CPU_C = TEMP_C_PHYSICAL_VALUE cpu_T,
          mirror_cell_C = TEMP_C_PHYSICAL_VALUE mirror_T\<rparr>)"

text \<open>\<^verbatim>\<open>sun_sensors_to_calibrated\<close>\<close>

definition sun_sensors_to_calibrated ::
  "AOCSTelemetrySchema \<Rightarrow> uint32_t \<Rightarrow> SunSensorsTelemetryCalibrated" where
  "sun_sensors_to_calibrated aocs_schema_value timestamp =
     (let sun_vector_x = sunvectorX aocs_schema_value;
          sun_vector_y = sunvectorY aocs_schema_value;
          sun_vector_z = sunvectorZ aocs_schema_value;
          ts = timestamp;
          (sun_vector_x, sun_vector_y, sun_vector_z, ts) =
            (if IS_BIG_ENDIAN
             then (byte16_swap sun_vector_x, byte16_swap sun_vector_y, byte16_swap sun_vector_z,
                   byte32_swap ts)
             else (sun_vector_x, sun_vector_y, sun_vector_z, ts))
      in \<lparr>sun_sensors_telemetry_timestamp = ts,
          sun_vector_x = SUN_SENSORS_PHYSICAL_VALUE sun_vector_x,
          sun_vector_y = SUN_SENSORS_PHYSICAL_VALUE sun_vector_y,
          sun_vector_z = SUN_SENSORS_PHYSICAL_VALUE sun_vector_z\<rparr>)"

subsection \<open>The calibrated records in memory\<close>

text \<open>The 32 bits of a finite \<^verbatim>\<open>float\<close> (IEEE 754 binary32): the sign, the exponent
  biased by 127 and the 23 bits of the significand after its leading one; below \<open>2 ^ -126\<close>
  the exponent field is 0 and the significand counts multiples of \<open>2 ^ -149\<close>. Zero is
  \<open>+0\<close>: the calibrations never produce \<open>-0\<close>.\<close>

definition float_bits :: "float \<Rightarrow> uint32_t" where
  "float_bits x =
     (if x = 0 then 0
      else let e = f32_exponent x;
               sign = (if x < 0 then 0x80000000 else 0)
           in if e < - 126 then sign OR word_of_int \<lfloor>\<bar>x\<bar> / 2 powi (- 149)\<rfloor>
              else sign OR push_bit 23 (word_of_int (e + 127)) OR
                   word_of_int (\<lfloor>\<bar>x\<bar> / 2 powi (e - 23)\<rfloor> - 2 ^ 23))"

text \<open>The bytes of a \<^verbatim>\<open>float\<close> in memory, the low byte first as for the integers.\<close>

definition bytes_of_float :: "float \<Rightarrow> uint8_t list" where
  "bytes_of_float x = bytes_of_u32 (float_bits x)"

text \<open>\<^verbatim>\<open>sizeof(ThermalTelemetryCalibrated)\<close>: three members of four bytes, each aligned
  to four bytes, so without padding.\<close>

definition sizeof_ThermalTelemetryCalibrated :: nat where
  "sizeof_ThermalTelemetryCalibrated = 12"

definition ThermalTelemetryCalibrated_bytes :: "ThermalTelemetryCalibrated \<Rightarrow> uint8_t list" where
  "ThermalTelemetryCalibrated_bytes s =
     bytes_of_u32 (thermal_telemetry_timestamp s) @
     bytes_of_float (CPU_C s) @
     bytes_of_float (mirror_cell_C s)"

text \<open>An array of the structures: the elements one after the other.\<close>

definition ThermalTelemetryCalibrated_array :: "ThermalTelemetryCalibrated list \<Rightarrow> uint8_t list" where
  "ThermalTelemetryCalibrated_array xs = concat (map ThermalTelemetryCalibrated_bytes xs)"

text \<open>The two comparators, in the style of \<^verbatim>\<open>qsort\<close>. A pointer argument is the memory
  from the address on. After the cast to a pointer to the structure, \<^verbatim>\<open>x->thermal_telemetry_timestamp\<close>
  reads the first member: the four bytes at offset 0. The same holds for
  \<^verbatim>\<open>x->sun_sensors_telemetry_timestamp\<close>.\<close>

definition timestamp_member :: "uint8_t list \<Rightarrow> uint32_t" where
  "timestamp_member x = u32_of_bytes (take 4 x)"

definition thermal_timestamp_comparator :: "uint8_t list \<Rightarrow> uint8_t list \<Rightarrow> int" where
  "thermal_timestamp_comparator a b =
     (let x = a; y = b
      in if timestamp_member x < timestamp_member y then - 1
         else if timestamp_member x > timestamp_member y then 1
         else 0)"

definition sun_sensors_timestamp_comparator :: "uint8_t list \<Rightarrow> uint8_t list \<Rightarrow> int" where
  "sun_sensors_timestamp_comparator a b =
     (let x = a; y = b
      in if timestamp_member x < timestamp_member y then - 1
         else if timestamp_member x > timestamp_member y then 1
         else 0)"

section \<open>extended\_tools: removal of duplicates\<close>

text \<open>The array is the list of its bytes, as the function sees it through
  \<^verbatim>\<open>unsigned char *p\<close>; a pointer \<^verbatim>\<open>p + k\<close> is the offset \<open>k\<close>, and the memory from it on
  is \<open>drop k p\<close>. Offsets are natural numbers: the products with \<^verbatim>\<open>size\<close> stay inside
  the array and cannot wrap around. \<^verbatim>\<open>memmove(p + dest, p + src, n)\<close>: the \<open>n\<close> bytes at
  \<open>src\<close>, as they are before the call, replace the \<open>n\<close> bytes at \<open>dest\<close>; both ranges
  lie inside the array.\<close>

definition memmove :: "uint8_t list \<Rightarrow> nat \<Rightarrow> nat \<Rightarrow> nat \<Rightarrow> uint8_t list" where
  "memmove p dest src n = take dest p @ take n (drop src p) @ drop (dest + n) p"

text \<open>The loop of \<^verbatim>\<open>array_duplicate_removal\<close>, from the index \<open>i\<close> on; \<open>size'\<close> is the
  parameter \<^verbatim>\<open>size\<close>, the stride of every access. The caller provides an array of at
  least \<open>n * size\<close> bytes.\<close>

function array_duplicate_removal_loop ::
  "(uint8_t list \<Rightarrow> uint8_t list \<Rightarrow> int) \<Rightarrow> nat \<Rightarrow> nat \<Rightarrow> nat \<Rightarrow> nat \<Rightarrow> uint8_t list \<Rightarrow>
     nat \<times> uint8_t list" where
  "array_duplicate_removal_loop comparator n size' i keep_index p =
     (if i < n then
        (let current = i * size';
             previous = (keep_index - 1) * size'
         in if comparator (drop current p) (drop previous p) \<noteq> 0
            then array_duplicate_removal_loop comparator n size' (i + 1) (keep_index + 1)
                   (if keep_index \<noteq> i then memmove p (keep_index * size') current size' else p)
            else array_duplicate_removal_loop comparator n size' (i + 1) keep_index p)
      else (keep_index, p))"
  by pat_completeness auto
termination
  by (relation "measure (\<lambda>(comparator, n, size', i, keep_index, p). n - i)") auto

declare array_duplicate_removal_loop.simps [simp del]

text \<open>\<^verbatim>\<open>array_duplicate_removal\<close>: a null pointer is \<open>None\<close>. The result is the returned
  length and the array after the call.\<close>

definition array_duplicate_removal ::
  "uint8_t list option \<Rightarrow> nat \<Rightarrow> nat \<Rightarrow> (uint8_t list \<Rightarrow> uint8_t list \<Rightarrow> int) option \<Rightarrow>
     nat \<times> uint8_t list option" where
  "array_duplicate_removal array n size' comparator =
     (case (array, comparator) of
        (Some p, Some cmp) \<Rightarrow>
          if size' = 0 \<or> n = 0 then (0, array)
          else (let (keep_index, p') = array_duplicate_removal_loop cmp n size' 1 1 p
                in (keep_index, Some p'))
      | _ \<Rightarrow> (0, array))"

text \<open>What the removal is to compute: the first element of each run of consecutive
  elements with the same key.\<close>

fun run_heads :: "('a \<Rightarrow> 'k) \<Rightarrow> 'a list \<Rightarrow> 'a list" where
  "run_heads key [] = []"
| "run_heads key [x] = [x]"
| "run_heads key (x # y # xs) =
     (if key x = key y then run_heads key (x # xs) else x # run_heads key (y # xs))"

section \<open>main: the record collector\<close>

text \<open>One of the two growing arrays of \<^verbatim>\<open>main\<close> (\<^verbatim>\<open>thermal_telemetry_array\<close> with
  \<^verbatim>\<open>thermal_length\<close> and \<^verbatim>\<open>thermal_capacity\<close>, and the same for the sun sensors). The
  array is the list of its allocated slots, \<open>None\<close> for a slot not yet written. The field
  \<open>realloc_calls\<close> is not in the source: it counts the successful calls of \<^verbatim>\<open>realloc\<close>.
  Lengths are natural numbers: a \<^verbatim>\<open>size_t\<close> cannot wrap around here, the array would
  not fit in memory long before.\<close>

record 'a collector =
  telemetry_array :: "'a option list"
  telemetry_length :: nat
  telemetry_capacity :: nat
  realloc_calls :: nat

text \<open>The state before the loop: a null array, length and capacity 0.\<close>

definition collector_init :: "'a collector" where
  "collector_init = \<lparr>telemetry_array = [], telemetry_length = 0, telemetry_capacity = 0,
     realloc_calls = 0\<rparr>"

text \<open>Lines 73 to 90 (and 97 to 114) of \<^verbatim>\<open>main.c\<close>. \<open>realloc_ok n\<close> tells whether
  \<^verbatim>\<open>realloc\<close> to \<open>n\<close> elements succeeds; when it fails \<^verbatim>\<open>main\<close> frees everything and
  returns 1, which is \<open>None\<close> here.\<close>

definition collector_append :: "(nat \<Rightarrow> bool) \<Rightarrow> 'a collector \<Rightarrow> 'a \<Rightarrow> 'a collector option" where
  "collector_append realloc_ok c telemetry =
     (if telemetry_length c = telemetry_capacity c then
        (let new_capacity = (if telemetry_capacity c \<noteq> 0 then telemetry_capacity c + 128 else 128)
         in if \<not> realloc_ok new_capacity then None
            else Some
              \<lparr>telemetry_array =
                 (telemetry_array c @ replicate (new_capacity - telemetry_capacity c) None)
                   [telemetry_length c := Some telemetry],
               telemetry_length = telemetry_length c + 1,
               telemetry_capacity = new_capacity,
               realloc_calls = realloc_calls c + 1\<rparr>)
      else Some (c\<lparr>telemetry_array := (telemetry_array c)[telemetry_length c := Some telemetry],
                   telemetry_length := telemetry_length c + 1\<rparr>))"

text \<open>The iterations of the reading loop, as far as one array is concerned: one append per
  frame read.\<close>

fun collector_append_all :: "(nat \<Rightarrow> bool) \<Rightarrow> 'a collector \<Rightarrow> 'a list \<Rightarrow> 'a collector option" where
  "collector_append_all realloc_ok c [] = Some c"
| "collector_append_all realloc_ok c (x # xs) =
     (case collector_append realloc_ok c x of
        None \<Rightarrow> None
      | Some c' \<Rightarrow> collector_append_all realloc_ok c' xs)"

text \<open>A thermal series sorted by timestamp, with the timestamps 1, 3, 3, 5, 5, and the same
  records in an order with the timestamps 5, 3, 3, 1, 5: again for instantiating the
  statements.\<close>

definition sample_series :: "ThermalTelemetryCalibrated list" where
  "sample_series =
     [\<lparr>thermal_telemetry_timestamp = 1, CPU_C = 10, mirror_cell_C = 0\<rparr>,
      \<lparr>thermal_telemetry_timestamp = 3, CPU_C = 20, mirror_cell_C = 0\<rparr>,
      \<lparr>thermal_telemetry_timestamp = 3, CPU_C = 30, mirror_cell_C = 0\<rparr>,
      \<lparr>thermal_telemetry_timestamp = 5, CPU_C = 40, mirror_cell_C = 0\<rparr>,
      \<lparr>thermal_telemetry_timestamp = 5, CPU_C = 50, mirror_cell_C = 0\<rparr>]"

definition sample_series_unsorted :: "ThermalTelemetryCalibrated list" where
  "sample_series_unsorted =
     [\<lparr>thermal_telemetry_timestamp = 5, CPU_C = 40, mirror_cell_C = 0\<rparr>,
      \<lparr>thermal_telemetry_timestamp = 3, CPU_C = 20, mirror_cell_C = 0\<rparr>,
      \<lparr>thermal_telemetry_timestamp = 3, CPU_C = 30, mirror_cell_C = 0\<rparr>,
      \<lparr>thermal_telemetry_timestamp = 1, CPU_C = 10, mirror_cell_C = 0\<rparr>,
      \<lparr>thermal_telemetry_timestamp = 5, CPU_C = 50, mirror_cell_C = 0\<rparr>]"

section \<open>Byte-order swaps\<close>

lemma mask_byte0: "(0x000000FF :: 32 word) = mask 8"
  by (simp add: mask_eq_exp_minus_1)

lemma mask_byte1: "(0x0000FF00 :: 32 word) = push_bit 8 (mask 8)"
  by (simp add: mask_eq_exp_minus_1)

lemma mask_byte2: "(0x00FF0000 :: 32 word) = push_bit 16 (mask 8)"
  by (simp add: mask_eq_exp_minus_1)

lemma mask_byte3: "(0xFF000000 :: 32 word) = push_bit 24 (mask 8)"
  by (simp add: mask_eq_exp_minus_1)

lemma bit_byte16_swap:
  "bit (byte16_swap x) n \<longleftrightarrow>
     (n < 8 \<and> bit x (n + 8)) \<or> (8 \<le> n \<and> n < 16 \<and> bit x (n - 8))"
  unfolding byte16_swap_def
  using bit_imp_le_length[of x "n + 8"]
  apply (simp add: bit_simps)
  apply (auto simp: add.commute)
  done

lemma bit_byte32_swap_0: "m < 8 \<Longrightarrow> bit (byte32_swap x) m = bit x (m + 24)"
  unfolding byte32_swap_def mask_byte0 mask_byte1 mask_byte2 mask_byte3
  by (simp add: bit_simps add.commute)

lemma bit_byte32_swap_1: "m < 8 \<Longrightarrow> bit (byte32_swap x) (m + 8) = bit x (m + 16)"
  unfolding byte32_swap_def mask_byte0 mask_byte1 mask_byte2 mask_byte3
  by (simp add: bit_simps add.commute)

lemma bit_byte32_swap_2: "m < 8 \<Longrightarrow> bit (byte32_swap x) (m + 16) = bit x (m + 8)"
  unfolding byte32_swap_def mask_byte0 mask_byte1 mask_byte2 mask_byte3
  by (simp add: bit_simps add.commute)

lemma bit_byte32_swap_3: "m < 8 \<Longrightarrow> bit (byte32_swap x) (m + 24) = bit x m"
  unfolding byte32_swap_def mask_byte0 mask_byte1 mask_byte2 mask_byte3
  by (simp add: bit_simps add.commute)

lemma byte16_swap_twice: "byte16_swap (byte16_swap x) = x"
proof (rule bit_word_eqI)
  fix n assume "n < LENGTH(16)"
  then have "n < 16" by simp
  then have "n < 8 \<or> (\<exists>m. n = m + 8 \<and> m < 8)" by presburger
  then show "bit (byte16_swap (byte16_swap x)) n = bit x n"
    by (elim disjE exE conjE) (simp_all add: bit_byte16_swap add.commute)
qed

lemma byte32_swap_twice: "byte32_swap (byte32_swap x) = x"
proof (rule bit_word_eqI)
  fix n assume "n < LENGTH(32)"
  then have "n < 32" by simp
  then have "n < 8 \<or> (\<exists>m. n = m + 8 \<and> m < 8) \<or> (\<exists>m. n = m + 16 \<and> m < 8) \<or>
      (\<exists>m. n = m + 24 \<and> m < 8)"
    by presburger
  then show "bit (byte32_swap (byte32_swap x)) n = bit x n"
    by (elim disjE exE conjE)
       (simp_all add: bit_byte32_swap_0 bit_byte32_swap_1 bit_byte32_swap_2 bit_byte32_swap_3)
qed

text \<open>C9. Both swaps are involutions: swapping twice gives the value back, for every
  16-bit and every 32-bit value (so also for 0, for the all-ones values and for the values
  with a single byte set).\<close>

theorem byte_swap_involutive:
  "byte16_swap (byte16_swap x) = x \<and> byte32_swap (byte32_swap y) = y"
  by (simp add: byte16_swap_twice byte32_swap_twice)

section \<open>Objects and their bytes\<close>

lemma length_bytes_of [simp]:
  "length (bytes_of_u8 a) = 1" "length (bytes_of_u16 b) = 2"
  "length (bytes_of_u24 c) = 3" "length (bytes_of_u32 d) = 4"
  by (simp_all add: bytes_of_u8_def bytes_of_u16_def bytes_of_u24_def bytes_of_u32_def)

lemma u8_of_bytes_of [simp]: "u8_of_bytes (bytes_of_u8 v) = v"
  by (simp add: u8_of_bytes_def bytes_of_u8_def)

lemma u24_of_bytes_of [simp]: "u24_of_bytes (bytes_of_u24 v) = v"
  by (simp add: u24_of_bytes_def bytes_of_u24_def)

lemma u16_of_bytes_of [simp]: "u16_of_bytes (bytes_of_u16 v) = v"
  unfolding u16_of_bytes_def bytes_of_u16_def
  by (rule bit_word_eqI) (auto simp: bit_simps)

lemma u32_of_bytes_of [simp]: "u32_of_bytes (bytes_of_u32 v) = v"
proof (rule bit_word_eqI)
  fix n assume "n < LENGTH(32)"
  then have "n < 32" by simp
  then have "n < 8 \<or> (\<exists>m. n = m + 8 \<and> m < 8) \<or> (\<exists>m. n = m + 16 \<and> m < 8) \<or>
      (\<exists>m. n = m + 24 \<and> m < 8)"
    by presburger
  then show "bit (u32_of_bytes (bytes_of_u32 v)) n = bit v n"
    unfolding u32_of_bytes_def bytes_of_u32_def
    by (elim disjE exE conjE) (simp_all add: bit_simps add.commute)
qed

lemma bytes_of_u16_of2: "bytes_of_u16 (u16_of_bytes [a, b]) = [a, b]"
  unfolding u16_of_bytes_def bytes_of_u16_def
  apply simp
  apply (rule conjI; rule bit_word_eqI)
   apply (auto simp: bit_simps dest: bit_imp_le_length)
  done

lemma bytes_of_u32_of4: "bytes_of_u32 (u32_of_bytes [a, b, c, d]) = [a, b, c, d]"
  unfolding u32_of_bytes_def bytes_of_u32_def
  apply simp
  apply (intro conjI; rule bit_word_eqI)
     apply (auto simp: bit_simps dest: bit_imp_le_length)
  done

lemma list_of_length_1: "length m = 1 \<Longrightarrow> \<exists>a. m = [a]"
  by (cases m) auto

lemma list_of_length_2: "length m = 2 \<Longrightarrow> \<exists>a b. m = [a, b]"
  by (cases m; cases "tl m") auto

lemma list_of_length_3: "length m = 3 \<Longrightarrow> \<exists>a b c. m = [a, b, c]"
  by (cases m; cases "tl m"; cases "tl (tl m)") auto

lemma list_of_length_4: "length m = 4 \<Longrightarrow> \<exists>a b c d. m = [a, b, c, d]"
  by (cases m; cases "tl m"; cases "tl (tl m)"; cases "tl (tl (tl m))") auto

lemma bytes_of_u8_of: "length m = 1 \<Longrightarrow> bytes_of_u8 (u8_of_bytes m) = m"
  using list_of_length_1[of m] by (auto simp: bytes_of_u8_def u8_of_bytes_def)

lemma bytes_of_u16_of: "length m = 2 \<Longrightarrow> bytes_of_u16 (u16_of_bytes m) = m"
  using list_of_length_2[of m] by (auto simp: bytes_of_u16_of2)

lemma bytes_of_u24_of: "length m = 3 \<Longrightarrow> bytes_of_u24 (u24_of_bytes m) = m"
  using list_of_length_3[of m] by (auto simp: bytes_of_u24_def u24_of_bytes_def)

lemma bytes_of_u32_of: "length m = 4 \<Longrightarrow> bytes_of_u32 (u32_of_bytes m) = m"
  using list_of_length_4[of m] by (auto simp: bytes_of_u32_of4)

text \<open>The identifier test reads the two bytes as a big-endian number.\<close>

lemma byte16_swap_u16_of_bytes: "byte16_swap (u16_of_bytes [a, b]) = u16_of_bytes [b, a]"
proof (rule bit_word_eqI)
  fix n assume "n < LENGTH(16)"
  then have "n < 16" by simp
  then have "n < 8 \<or> (\<exists>m. n = m + 8 \<and> m < 8)" by presburger
  then show "bit (byte16_swap (u16_of_bytes [a, b])) n = bit (u16_of_bytes [b, a]) n"
    by (elim disjE exE conjE)
       (auto simp: bit_byte16_swap u16_of_bytes_def bit_simps add.commute dest: bit_imp_le_length)
qed

lemma id_test_bytes:
  assumes "length m = 2"
  shows "uint c = uint (byte16_swap (u16_of_bytes m)) \<longleftrightarrow> m = rev (bytes_of_u16 c)"
proof -
  obtain a b where m: "m = [a, b]"
    using list_of_length_2[OF assms] by blast
  have "uint c = uint (byte16_swap (u16_of_bytes m)) \<longleftrightarrow> c = u16_of_bytes [b, a]"
    by (simp add: m byte16_swap_u16_of_bytes word_uint_eq_iff)
  also have "\<dots> \<longleftrightarrow> bytes_of_u16 c = [b, a]"
    by (metis bytes_of_u16_of2 u16_of_bytes_of)
  also have "\<dots> \<longleftrightarrow> m = rev (bytes_of_u16 c)"
    by (auto simp: m bytes_of_u16_def)
  finally show ?thesis .
qed

lemma FrameID_as_word:
  "PLATFORM_ID = uint (0x0001 :: uint16_t)" "MEMORY_ID = uint (0x0101 :: uint16_t)"
  "CDH_ID = uint (0x0201 :: uint16_t)" "POWER_ID = uint (0x0301 :: uint16_t)"
  "THERMAL_ID = uint (0x0401 :: uint16_t)" "AOCS_ID = uint (0x0501 :: uint16_t)"
  "PAYLOAD_ID = uint (0x0601 :: uint16_t)"
  by (simp_all add: PLATFORM_ID_def MEMORY_ID_def CDH_ID_def POWER_ID_def THERMAL_ID_def
      AOCS_ID_def PAYLOAD_ID_def)

lemma FrameID_wire_bytes:
  "rev (bytes_of_u16 0x0001) = [0x00, 0x01]" "rev (bytes_of_u16 0x0101) = [0x01, 0x01]"
  "rev (bytes_of_u16 0x0201) = [0x02, 0x01]" "rev (bytes_of_u16 0x0301) = [0x03, 0x01]"
  "rev (bytes_of_u16 0x0401) = [0x04, 0x01]" "rev (bytes_of_u16 0x0501) = [0x05, 0x01]"
  "rev (bytes_of_u16 0x0601) = [0x06, 0x01]"
  by (simp_all add: bytes_of_u16_def)

lemma take_chunks:
  "take a f @ take b (drop a f) = take (a + b) f"
  "take a f @ take b (drop a f) @ ys = take (a + b) f @ ys"
  "j = k + a \<Longrightarrow> take a (drop k f) @ take b (drop j f) = take (a + b) (drop k f)"
  "j = k + a \<Longrightarrow> take a (drop k f) @ take b (drop j f) @ ys = take (a + b) (drop k f) @ ys"
  by (simp_all add: take_add add.commute)

section \<open>Reading fields\<close>

lemma fread_enough:
  "length mem \<le> length f \<Longrightarrow> fread mem f = (length mem, take (length mem) f, drop (length mem) f)"
  by (simp add: fread_def Let_def min_def)

lemma fread_short:
  "length f < length mem \<Longrightarrow> fread mem f = (length f, f @ drop (length f) mem, [])"
  by (simp add: fread_def Let_def min_def)

lemma READ_FIELD_enough:
  assumes "\<And>v. length (bytes_of v) = w" "w \<le> length (stream s)"
  shows "READ_FIELD bytes_of of_bytes sec sec_update fld fld_update s =
     (True, \<lparr>stream = drop w (stream s),
             out = sec_update (fld_update (\<lambda>_. of_bytes (take w (stream s)))) (out s)\<rparr>)"
  using assms by (simp add: READ_FIELD_def Let_def fread_enough)

lemma READ_FIELD_short:
  assumes "\<And>v. length (bytes_of v) = w" "length (stream s) < w"
  shows "fst (READ_FIELD bytes_of of_bytes sec sec_update fld fld_update s) = False"
  using assms by (simp add: READ_FIELD_def Let_def fread_short)

lemmas READ_u8 = READ_FIELD_enough[where bytes_of = bytes_of_u8 and w = 1, OF length_bytes_of(1)]
lemmas READ_u16 = READ_FIELD_enough[where bytes_of = bytes_of_u16 and w = 2, OF length_bytes_of(2)]
lemmas READ_u24 = READ_FIELD_enough[where bytes_of = bytes_of_u24 and w = 3, OF length_bytes_of(3)]
lemmas READ_u32 = READ_FIELD_enough[where bytes_of = bytes_of_u32 and w = 4, OF length_bytes_of(4)]

lemma consumes_READ_FIELD:
  assumes "\<And>v. length (bytes_of v) = w"
  shows "consumes w (READ_FIELD bytes_of of_bytes sec sec_update fld fld_update)"
  unfolding consumes_def READ_FIELD_def fread_def
  by (auto simp: Let_def assms min_def split: if_splits)

lemmas consumes_u8 = consumes_READ_FIELD[where bytes_of = bytes_of_u8 and w = 1, OF length_bytes_of(1)]
lemmas consumes_u16 = consumes_READ_FIELD[where bytes_of = bytes_of_u16 and w = 2, OF length_bytes_of(2)]
lemmas consumes_u24 = consumes_READ_FIELD[where bytes_of = bytes_of_u24 and w = 3, OF length_bytes_of(3)]
lemmas consumes_u32 = consumes_READ_FIELD[where bytes_of = bytes_of_u32 and w = 4, OF length_bytes_of(4)]

lemma consumes_CHECK_ID: "consumes 0 (CHECK_ID ID sec fld)"
  by (simp add: consumes_def CHECK_ID_def)

lemma read_fields_consumes:
  "list_all2 consumes ws stmts \<Longrightarrow> read_fields stmts s = (READ_OK, s') \<Longrightarrow>
     sum_list ws \<le> length (stream s) \<and> stream s' = drop (sum_list ws) (stream s)"
proof (induction ws stmts arbitrary: s rule: list_all2_induct)
  case Nil
  then show ?case by simp
next
  case (Cons w ws stmt stmts)
  obtain ok s1 where st: "stmt s = (ok, s1)" by (cases "stmt s")
  with Cons.prems have ok: ok and rest: "read_fields stmts s1 = (READ_OK, s')"
    by (auto split: if_splits)
  from Cons.hyps(1) st ok have 1: "w \<le> length (stream s)" "stream s1 = drop w (stream s)"
    by (auto simp: consumes_def dest: spec[of _ s])
  from Cons.IH[OF rest] 1 show ?case
    by (auto simp: add.commute)
qed

lemma read_fields_not_EOF: "fst (read_fields stmts s) \<noteq> READ_EOF"
  by (induction stmts arbitrary: s) (auto split: prod.splits)

lemma read_fields_append:
  "read_fields (xs @ ys) s =
     (case read_fields xs s of (READ_OK, s') \<Rightarrow> read_fields ys s' | r \<Rightarrow> r)"
proof (induction xs arbitrary: s)
  case Nil
  then show ?case by simp
next
  case (Cons x xs)
  then show ?case
    using read_fields_not_EOF[of xs]
    by (auto split: prod.splits ReadFileReturnType.splits)
qed

section \<open>The sections\<close>

lemma PLATFORM_run:
  assumes "18 \<le> length f"
  shows "read_fields (PLATFORM_fields @ stmts) \<lparr>stream = f, out = fr\<rparr> =
    (if PLATFORM_ID = uint (byte16_swap (u16_of_bytes (take 2 f)))
     then read_fields stmts \<lparr>stream = drop 18 f, out = fr\<lparr>platform := PlatformTelemetrySchema_of_bytes f\<rparr>\<rparr>
     else (READ_FAIL, \<lparr>stream = drop 2 f,
             out = fr\<lparr>platform := (platform fr)\<lparr>platform_telemetry_id := u16_of_bytes (take 2 f)\<rparr>\<rparr>\<rparr>))"
  using assms
  by (cases fr; cases "platform fr")
     (simp add: PLATFORM_fields_def PlatformTelemetrySchema_of_bytes_def READ_u8 READ_u16 READ_u24 READ_u32
       CHECK_ID_def IS_BIG_ENDIAN_def del: One_nat_def)

lemma PLATFORM_wrong_id:
  assumes "2 \<le> length f" "PLATFORM_ID \<noteq> uint (byte16_swap (u16_of_bytes (take 2 f)))"
  shows "read_fields (PLATFORM_fields @ stmts) \<lparr>stream = f, out = fr\<rparr> =
     (READ_FAIL, \<lparr>stream = drop 2 f,
        out = fr\<lparr>platform := (platform fr)\<lparr>platform_telemetry_id := u16_of_bytes (take 2 f)\<rparr>\<rparr>\<rparr>)"
  using assms
  by (cases fr; cases "platform fr")
     (simp add: PLATFORM_fields_def READ_u16 CHECK_ID_def IS_BIG_ENDIAN_def)

lemma length_PlatformTelemetrySchema_bytes [simp]: "length (PlatformTelemetrySchema_bytes s) = 18"
  by (simp add: PlatformTelemetrySchema_bytes_def)

lemma PlatformTelemetrySchema_of_bytes_bytes [simp]:
  "PlatformTelemetrySchema_of_bytes (PlatformTelemetrySchema_bytes s @ rest) = s"
  by (cases s) (simp add: PlatformTelemetrySchema_of_bytes_def PlatformTelemetrySchema_bytes_def del: One_nat_def)

lemma PlatformTelemetrySchema_bytes_of_bytes:
  assumes "18 \<le> length f"
  shows "PlatformTelemetrySchema_bytes (PlatformTelemetrySchema_of_bytes f) = take 18 f"
proof -
  have "PlatformTelemetrySchema_bytes (PlatformTelemetrySchema_of_bytes f) =
      take 2 f @
      take 4 (drop 2 f) @
      take 4 (drop 6 f) @
      take 3 (drop 10 f) @
      take 1 (drop 13 f) @
      take 4 (drop 14 f)"
    using assms
    by (simp add: PlatformTelemetrySchema_of_bytes_def PlatformTelemetrySchema_bytes_def
        bytes_of_u8_of bytes_of_u16_of bytes_of_u24_of bytes_of_u32_of del: One_nat_def)
  also have "\<dots> = take 18 f"
    by (simp add: take_chunks del: One_nat_def)
  finally show ?thesis .
qed

lemma consumes_PLATFORM: "list_all2 consumes [2, 0, 4, 4, 3, 1, 4] PLATFORM_fields"
  by (simp add: PLATFORM_fields_def consumes_u8 consumes_u16 consumes_u24 consumes_u32 consumes_CHECK_ID
      del: One_nat_def)

lemma MEMORY_run:
  assumes "6 \<le> length f"
  shows "read_fields (MEMORY_fields @ stmts) \<lparr>stream = f, out = fr\<rparr> =
    (if MEMORY_ID = uint (byte16_swap (u16_of_bytes (take 2 f)))
     then read_fields stmts \<lparr>stream = drop 6 f, out = fr\<lparr>memory := MemoryTelemetrySchema_of_bytes f\<rparr>\<rparr>
     else (READ_FAIL, \<lparr>stream = drop 2 f,
             out = fr\<lparr>memory := (memory fr)\<lparr>memory_telemetry_id := u16_of_bytes (take 2 f)\<rparr>\<rparr>\<rparr>))"
  using assms
  by (cases fr; cases "memory fr")
     (simp add: MEMORY_fields_def MemoryTelemetrySchema_of_bytes_def READ_u8 READ_u16 READ_u24 READ_u32
       CHECK_ID_def IS_BIG_ENDIAN_def del: One_nat_def)

lemma MEMORY_wrong_id:
  assumes "2 \<le> length f" "MEMORY_ID \<noteq> uint (byte16_swap (u16_of_bytes (take 2 f)))"
  shows "read_fields (MEMORY_fields @ stmts) \<lparr>stream = f, out = fr\<rparr> =
     (READ_FAIL, \<lparr>stream = drop 2 f,
        out = fr\<lparr>memory := (memory fr)\<lparr>memory_telemetry_id := u16_of_bytes (take 2 f)\<rparr>\<rparr>\<rparr>)"
  using assms
  by (cases fr; cases "memory fr")
     (simp add: MEMORY_fields_def READ_u16 CHECK_ID_def IS_BIG_ENDIAN_def)

lemma length_MemoryTelemetrySchema_bytes [simp]: "length (MemoryTelemetrySchema_bytes s) = 6"
  by (simp add: MemoryTelemetrySchema_bytes_def)

lemma MemoryTelemetrySchema_of_bytes_bytes [simp]:
  "MemoryTelemetrySchema_of_bytes (MemoryTelemetrySchema_bytes s @ rest) = s"
  by (cases s) (simp add: MemoryTelemetrySchema_of_bytes_def MemoryTelemetrySchema_bytes_def del: One_nat_def)

lemma MemoryTelemetrySchema_bytes_of_bytes:
  assumes "6 \<le> length f"
  shows "MemoryTelemetrySchema_bytes (MemoryTelemetrySchema_of_bytes f) = take 6 f"
proof -
  have "MemoryTelemetrySchema_bytes (MemoryTelemetrySchema_of_bytes f) =
      take 2 f @
      take 4 (drop 2 f)"
    using assms
    by (simp add: MemoryTelemetrySchema_of_bytes_def MemoryTelemetrySchema_bytes_def
        bytes_of_u8_of bytes_of_u16_of bytes_of_u24_of bytes_of_u32_of del: One_nat_def)
  also have "\<dots> = take 6 f"
    by (simp add: take_chunks del: One_nat_def)
  finally show ?thesis .
qed

lemma consumes_MEMORY: "list_all2 consumes [2, 0, 4] MEMORY_fields"
  by (simp add: MEMORY_fields_def consumes_u8 consumes_u16 consumes_u24 consumes_u32 consumes_CHECK_ID
      del: One_nat_def)

lemma CDH_run:
  assumes "7 \<le> length f"
  shows "read_fields (CDH_fields @ stmts) \<lparr>stream = f, out = fr\<rparr> =
    (if CDH_ID = uint (byte16_swap (u16_of_bytes (take 2 f)))
     then read_fields stmts \<lparr>stream = drop 7 f, out = fr\<lparr>cdh := CDHTelemetrySchema_of_bytes f\<rparr>\<rparr>
     else (READ_FAIL, \<lparr>stream = drop 2 f,
             out = fr\<lparr>cdh := (cdh fr)\<lparr>cdh_id := u16_of_bytes (take 2 f)\<rparr>\<rparr>\<rparr>))"
  using assms
  by (cases fr; cases "cdh fr")
     (simp add: CDH_fields_def CDHTelemetrySchema_of_bytes_def READ_u8 READ_u16 READ_u24 READ_u32
       CHECK_ID_def IS_BIG_ENDIAN_def del: One_nat_def)

lemma CDH_wrong_id:
  assumes "2 \<le> length f" "CDH_ID \<noteq> uint (byte16_swap (u16_of_bytes (take 2 f)))"
  shows "read_fields (CDH_fields @ stmts) \<lparr>stream = f, out = fr\<rparr> =
     (READ_FAIL, \<lparr>stream = drop 2 f,
        out = fr\<lparr>cdh := (cdh fr)\<lparr>cdh_id := u16_of_bytes (take 2 f)\<rparr>\<rparr>\<rparr>)"
  using assms
  by (cases fr; cases "cdh fr")
     (simp add: CDH_fields_def READ_u16 CHECK_ID_def IS_BIG_ENDIAN_def)

lemma length_CDHTelemetrySchema_bytes [simp]: "length (CDHTelemetrySchema_bytes s) = 7"
  by (simp add: CDHTelemetrySchema_bytes_def)

lemma CDHTelemetrySchema_of_bytes_bytes [simp]:
  "CDHTelemetrySchema_of_bytes (CDHTelemetrySchema_bytes s @ rest) = s"
  by (cases s) (simp add: CDHTelemetrySchema_of_bytes_def CDHTelemetrySchema_bytes_def del: One_nat_def)

lemma CDHTelemetrySchema_bytes_of_bytes:
  assumes "7 \<le> length f"
  shows "CDHTelemetrySchema_bytes (CDHTelemetrySchema_of_bytes f) = take 7 f"
proof -
  have "CDHTelemetrySchema_bytes (CDHTelemetrySchema_of_bytes f) =
      take 2 f @
      take 4 (drop 2 f) @
      take 1 (drop 6 f)"
    using assms
    by (simp add: CDHTelemetrySchema_of_bytes_def CDHTelemetrySchema_bytes_def
        bytes_of_u8_of bytes_of_u16_of bytes_of_u24_of bytes_of_u32_of del: One_nat_def)
  also have "\<dots> = take 7 f"
    by (simp add: take_chunks del: One_nat_def)
  finally show ?thesis .
qed

lemma consumes_CDH: "list_all2 consumes [2, 0, 4, 1] CDH_fields"
  by (simp add: CDH_fields_def consumes_u8 consumes_u16 consumes_u24 consumes_u32 consumes_CHECK_ID
      del: One_nat_def)

lemma POWER_run:
  assumes "18 \<le> length f"
  shows "read_fields (POWER_fields @ stmts) \<lparr>stream = f, out = fr\<rparr> =
    (if POWER_ID = uint (byte16_swap (u16_of_bytes (take 2 f)))
     then read_fields stmts \<lparr>stream = drop 18 f, out = fr\<lparr>power_sec := PowerTelemetrySchema_of_bytes f\<rparr>\<rparr>
     else (READ_FAIL, \<lparr>stream = drop 2 f,
             out = fr\<lparr>power_sec := (power_sec fr)\<lparr>power_telemetry_id := u16_of_bytes (take 2 f)\<rparr>\<rparr>\<rparr>))"
  using assms
  by (cases fr; cases "power_sec fr")
     (simp add: POWER_fields_def PowerTelemetrySchema_of_bytes_def READ_u8 READ_u16 READ_u24 READ_u32
       CHECK_ID_def IS_BIG_ENDIAN_def del: One_nat_def)

lemma POWER_wrong_id:
  assumes "2 \<le> length f" "POWER_ID \<noteq> uint (byte16_swap (u16_of_bytes (take 2 f)))"
  shows "read_fields (POWER_fields @ stmts) \<lparr>stream = f, out = fr\<rparr> =
     (READ_FAIL, \<lparr>stream = drop 2 f,
        out = fr\<lparr>power_sec := (power_sec fr)\<lparr>power_telemetry_id := u16_of_bytes (take 2 f)\<rparr>\<rparr>\<rparr>)"
  using assms
  by (cases fr; cases "power_sec fr")
     (simp add: POWER_fields_def READ_u16 CHECK_ID_def IS_BIG_ENDIAN_def)

lemma length_PowerTelemetrySchema_bytes [simp]: "length (PowerTelemetrySchema_bytes s) = 18"
  by (simp add: PowerTelemetrySchema_bytes_def)

lemma PowerTelemetrySchema_of_bytes_bytes [simp]:
  "PowerTelemetrySchema_of_bytes (PowerTelemetrySchema_bytes s @ rest) = s"
  by (cases s) (simp add: PowerTelemetrySchema_of_bytes_def PowerTelemetrySchema_bytes_def del: One_nat_def)

lemma PowerTelemetrySchema_bytes_of_bytes:
  assumes "18 \<le> length f"
  shows "PowerTelemetrySchema_bytes (PowerTelemetrySchema_of_bytes f) = take 18 f"
proof -
  have "PowerTelemetrySchema_bytes (PowerTelemetrySchema_of_bytes f) =
      take 2 f @
      take 2 (drop 2 f) @
      take 2 (drop 4 f) @
      take 2 (drop 6 f) @
      take 2 (drop 8 f) @
      take 2 (drop 10 f) @
      take 2 (drop 12 f) @
      take 2 (drop 14 f) @
      take 2 (drop 16 f)"
    using assms
    by (simp add: PowerTelemetrySchema_of_bytes_def PowerTelemetrySchema_bytes_def
        bytes_of_u8_of bytes_of_u16_of bytes_of_u24_of bytes_of_u32_of del: One_nat_def)
  also have "\<dots> = take 18 f"
    by (simp add: take_chunks del: One_nat_def)
  finally show ?thesis .
qed

lemma consumes_POWER: "list_all2 consumes [2, 0, 2, 2, 2, 2, 2, 2, 2, 2] POWER_fields"
  by (simp add: POWER_fields_def consumes_u8 consumes_u16 consumes_u24 consumes_u32 consumes_CHECK_ID
      del: One_nat_def)

lemma THERMAL_run:
  assumes "6 \<le> length f"
  shows "read_fields (THERMAL_fields @ stmts) \<lparr>stream = f, out = fr\<rparr> =
    (if THERMAL_ID = uint (byte16_swap (u16_of_bytes (take 2 f)))
     then read_fields stmts \<lparr>stream = drop 6 f, out = fr\<lparr>thermal := ThermalTelemetrySchema_of_bytes f\<rparr>\<rparr>
     else (READ_FAIL, \<lparr>stream = drop 2 f,
             out = fr\<lparr>thermal := (thermal fr)\<lparr>thermal_telemetry_id := u16_of_bytes (take 2 f)\<rparr>\<rparr>\<rparr>))"
  using assms
  by (cases fr; cases "thermal fr")
     (simp add: THERMAL_fields_def ThermalTelemetrySchema_of_bytes_def READ_u8 READ_u16 READ_u24 READ_u32
       CHECK_ID_def IS_BIG_ENDIAN_def del: One_nat_def)

lemma THERMAL_wrong_id:
  assumes "2 \<le> length f" "THERMAL_ID \<noteq> uint (byte16_swap (u16_of_bytes (take 2 f)))"
  shows "read_fields (THERMAL_fields @ stmts) \<lparr>stream = f, out = fr\<rparr> =
     (READ_FAIL, \<lparr>stream = drop 2 f,
        out = fr\<lparr>thermal := (thermal fr)\<lparr>thermal_telemetry_id := u16_of_bytes (take 2 f)\<rparr>\<rparr>\<rparr>)"
  using assms
  by (cases fr; cases "thermal fr")
     (simp add: THERMAL_fields_def READ_u16 CHECK_ID_def IS_BIG_ENDIAN_def)

lemma length_ThermalTelemetrySchema_bytes [simp]: "length (ThermalTelemetrySchema_bytes s) = 6"
  by (simp add: ThermalTelemetrySchema_bytes_def)

lemma ThermalTelemetrySchema_of_bytes_bytes [simp]:
  "ThermalTelemetrySchema_of_bytes (ThermalTelemetrySchema_bytes s @ rest) = s"
  by (cases s) (simp add: ThermalTelemetrySchema_of_bytes_def ThermalTelemetrySchema_bytes_def del: One_nat_def)

lemma ThermalTelemetrySchema_bytes_of_bytes:
  assumes "6 \<le> length f"
  shows "ThermalTelemetrySchema_bytes (ThermalTelemetrySchema_of_bytes f) = take 6 f"
proof -
  have "ThermalTelemetrySchema_bytes (ThermalTelemetrySchema_of_bytes f) =
      take 2 f @
      take 2 (drop 2 f) @
      take 2 (drop 4 f)"
    using assms
    by (simp add: ThermalTelemetrySchema_of_bytes_def ThermalTelemetrySchema_bytes_def
        bytes_of_u8_of bytes_of_u16_of bytes_of_u24_of bytes_of_u32_of del: One_nat_def)
  also have "\<dots> = take 6 f"
    by (simp add: take_chunks del: One_nat_def)
  finally show ?thesis .
qed

lemma consumes_THERMAL: "list_all2 consumes [2, 0, 2, 2] THERMAL_fields"
  by (simp add: THERMAL_fields_def consumes_u8 consumes_u16 consumes_u24 consumes_u32 consumes_CHECK_ID
      del: One_nat_def)

lemma AOCS_run:
  assumes "46 \<le> length f"
  shows "read_fields (AOCS_fields @ stmts) \<lparr>stream = f, out = fr\<rparr> =
    (if AOCS_ID = uint (byte16_swap (u16_of_bytes (take 2 f)))
     then read_fields stmts \<lparr>stream = drop 46 f, out = fr\<lparr>aocs := AOCSTelemetrySchema_of_bytes f\<rparr>\<rparr>
     else (READ_FAIL, \<lparr>stream = drop 2 f,
             out = fr\<lparr>aocs := (aocs fr)\<lparr>aocs_telemetry_id := u16_of_bytes (take 2 f)\<rparr>\<rparr>\<rparr>))"
  using assms
  by (cases fr; cases "aocs fr")
     (simp add: AOCS_fields_def AOCSTelemetrySchema_of_bytes_def READ_u8 READ_u16 READ_u24 READ_u32
       CHECK_ID_def IS_BIG_ENDIAN_def del: One_nat_def)

lemma AOCS_wrong_id:
  assumes "2 \<le> length f" "AOCS_ID \<noteq> uint (byte16_swap (u16_of_bytes (take 2 f)))"
  shows "read_fields (AOCS_fields @ stmts) \<lparr>stream = f, out = fr\<rparr> =
     (READ_FAIL, \<lparr>stream = drop 2 f,
        out = fr\<lparr>aocs := (aocs fr)\<lparr>aocs_telemetry_id := u16_of_bytes (take 2 f)\<rparr>\<rparr>\<rparr>)"
  using assms
  by (cases fr; cases "aocs fr")
     (simp add: AOCS_fields_def READ_u16 CHECK_ID_def IS_BIG_ENDIAN_def)

lemma length_AOCSTelemetrySchema_bytes [simp]: "length (AOCSTelemetrySchema_bytes s) = 46"
  by (simp add: AOCSTelemetrySchema_bytes_def)

lemma AOCSTelemetrySchema_of_bytes_bytes [simp]:
  "AOCSTelemetrySchema_of_bytes (AOCSTelemetrySchema_bytes s @ rest) = s"
  by (cases s) (simp add: AOCSTelemetrySchema_of_bytes_def AOCSTelemetrySchema_bytes_def del: One_nat_def)

lemma AOCSTelemetrySchema_bytes_of_bytes:
  assumes "46 \<le> length f"
  shows "AOCSTelemetrySchema_bytes (AOCSTelemetrySchema_of_bytes f) = take 46 f"
proof -
  have "AOCSTelemetrySchema_bytes (AOCSTelemetrySchema_of_bytes f) =
      take 2 f @
      take 4 (drop 2 f) @
      take 2 (drop 6 f) @
      take 2 (drop 8 f) @
      take 2 (drop 10 f) @
      take 2 (drop 12 f) @
      take 2 (drop 14 f) @
      take 2 (drop 16 f) @
      take 2 (drop 18 f) @
      take 2 (drop 20 f) @
      take 2 (drop 22 f) @
      take 2 (drop 24 f) @
      take 4 (drop 26 f) @
      take 4 (drop 30 f) @
      take 4 (drop 34 f) @
      take 2 (drop 38 f) @
      take 2 (drop 40 f) @
      take 2 (drop 42 f) @
      take 2 (drop 44 f)"
    using assms
    by (simp add: AOCSTelemetrySchema_of_bytes_def AOCSTelemetrySchema_bytes_def
        bytes_of_u8_of bytes_of_u16_of bytes_of_u24_of bytes_of_u32_of del: One_nat_def)
  also have "\<dots> = take 46 f"
    by (simp add: take_chunks del: One_nat_def)
  finally show ?thesis .
qed

lemma consumes_AOCS: "list_all2 consumes [2, 0, 4, 2, 2, 2, 2, 2, 2, 2, 2, 2, 2, 4, 4, 4, 2, 2, 2, 2] AOCS_fields"
  by (simp add: AOCS_fields_def consumes_u8 consumes_u16 consumes_u24 consumes_u32 consumes_CHECK_ID
      del: One_nat_def)

lemma PAYLOAD_run:
  assumes "9 \<le> length f"
  shows "read_fields (PAYLOAD_fields @ stmts) \<lparr>stream = f, out = fr\<rparr> =
    (if PAYLOAD_ID = uint (byte16_swap (u16_of_bytes (take 2 f)))
     then read_fields stmts \<lparr>stream = drop 9 f, out = fr\<lparr>payload := PayloadTelemetrySchema_of_bytes f\<rparr>\<rparr>
     else (READ_FAIL, \<lparr>stream = drop 2 f,
             out = fr\<lparr>payload := (payload fr)\<lparr>payload_telemetry_id := u16_of_bytes (take 2 f)\<rparr>\<rparr>\<rparr>))"
  using assms
  by (cases fr; cases "payload fr")
     (simp add: PAYLOAD_fields_def PayloadTelemetrySchema_of_bytes_def READ_u8 READ_u16 READ_u24 READ_u32
       CHECK_ID_def IS_BIG_ENDIAN_def del: One_nat_def)

lemma PAYLOAD_wrong_id:
  assumes "2 \<le> length f" "PAYLOAD_ID \<noteq> uint (byte16_swap (u16_of_bytes (take 2 f)))"
  shows "read_fields (PAYLOAD_fields @ stmts) \<lparr>stream = f, out = fr\<rparr> =
     (READ_FAIL, \<lparr>stream = drop 2 f,
        out = fr\<lparr>payload := (payload fr)\<lparr>payload_telemetry_id := u16_of_bytes (take 2 f)\<rparr>\<rparr>\<rparr>)"
  using assms
  by (cases fr; cases "payload fr")
     (simp add: PAYLOAD_fields_def READ_u16 CHECK_ID_def IS_BIG_ENDIAN_def)

lemma length_PayloadTelemetrySchema_bytes [simp]: "length (PayloadTelemetrySchema_bytes s) = 9"
  by (simp add: PayloadTelemetrySchema_bytes_def)

lemma PayloadTelemetrySchema_of_bytes_bytes [simp]:
  "PayloadTelemetrySchema_of_bytes (PayloadTelemetrySchema_bytes s @ rest) = s"
  by (cases s) (simp add: PayloadTelemetrySchema_of_bytes_def PayloadTelemetrySchema_bytes_def del: One_nat_def)

lemma PayloadTelemetrySchema_bytes_of_bytes:
  assumes "9 \<le> length f"
  shows "PayloadTelemetrySchema_bytes (PayloadTelemetrySchema_of_bytes f) = take 9 f"
proof -
  have "PayloadTelemetrySchema_bytes (PayloadTelemetrySchema_of_bytes f) =
      take 2 f @
      take 2 (drop 2 f) @
      take 2 (drop 4 f) @
      take 2 (drop 6 f) @
      take 1 (drop 8 f)"
    using assms
    by (simp add: PayloadTelemetrySchema_of_bytes_def PayloadTelemetrySchema_bytes_def
        bytes_of_u8_of bytes_of_u16_of bytes_of_u24_of bytes_of_u32_of del: One_nat_def)
  also have "\<dots> = take 9 f"
    by (simp add: take_chunks del: One_nat_def)
  finally show ?thesis .
qed

lemma consumes_PAYLOAD: "list_all2 consumes [2, 0, 2, 2, 2, 1] PAYLOAD_fields"
  by (simp add: PAYLOAD_fields_def consumes_u8 consumes_u16 consumes_u24 consumes_u32 consumes_CHECK_ID
      del: One_nat_def)

section \<open>The search for the beacon ID\<close>

lemma after_first_short: "length f < length mk \<Longrightarrow> after_first mk f = None"
  by (induction f) auto

lemma search_full_window:
  assumes "beacon_id header = Uint24 h0 h1 h2"
  shows "search_beacon_id header (m0, m1, m2) 3 f = after_first [h0, h1, h2] (m1 # m2 # f)"
proof (induction f arbitrary: m0 m1 m2)
  case Nil
  then show ?case by simp
next
  case (Cons b f)
  have "after_first [h0, h1, h2] (m1 # m2 # b # f) =
      (if [m1, m2, b] = [h0, h1, h2] then Some f else after_first [h0, h1, h2] (m2 # b # f))"
    by (subst after_first.simps(2)) (simp del: after_first.simps)
  also have "\<dots> = search_beacon_id header (m0, m1, m2) 3 (b # f)"
    using Cons[of m1 m2 b] assms
    by (simp add: header_match_insert_def header_found_def Let_def del: after_first.simps)
  finally show ?case by (simp del: after_first.simps)
qed

lemma search_is_after_first:
  "search_beacon_id header (0, 0, 0) 0 f = after_first (bytes_of_u24 (beacon_id header)) f"
proof -
  obtain h0 h1 h2 where h: "beacon_id header = Uint24 h0 h1 h2"
    by (cases "beacon_id header")
  consider "f = []" | a where "f = [a]" | a b where "f = [a, b]"
    | a b c f' where "f = a # b # c # f'"
    by (cases f; cases "tl f"; cases "tl (tl f)") auto
  then show ?thesis
  proof cases
    case 4
    have "after_first [h0, h1, h2] (a # b # c # f') =
        (if [a, b, c] = [h0, h1, h2] then Some f' else after_first [h0, h1, h2] (b # c # f'))"
      by (subst after_first.simps(2)) (simp del: after_first.simps)
    then show ?thesis
      using search_full_window[OF h, of a b c f']
      by (simp add: 4 h bytes_of_u24_def header_match_insert_def header_found_def Let_def
          numeral_3_eq_3 del: after_first.simps)
  qed (simp_all add: h bytes_of_u24_def header_match_insert_def header_found_def Let_def)
qed

lemma after_first_None_iff:
  "after_first mk f = None \<longleftrightarrow> (\<forall>k. take (length mk) (drop k f) \<noteq> mk) \<or> (mk = [] \<and> f = [])"
proof (induction f)
  case Nil
  then show ?case by auto
next
  case (Cons x xs)
  show ?case
  proof (cases "take (length mk) (x # xs) = mk")
    case True
    then have "\<exists>k. take (length mk) (drop k (x # xs)) = mk"
      by (intro exI[of _ 0]) simp
    with True show ?thesis
      by simp
  next
    case False
    have "(\<forall>k. take (length mk) (drop k (x # xs)) \<noteq> mk) \<longleftrightarrow>
          (\<forall>k. take (length mk) (drop k xs) \<noteq> mk)"
    proof
      assume a: "\<forall>k. take (length mk) (drop k (x # xs)) \<noteq> mk"
      show "\<forall>k. take (length mk) (drop k xs) \<noteq> mk"
      proof
        fix k show "take (length mk) (drop k xs) \<noteq> mk"
          using a[rule_format, of "Suc k"] by simp
      qed
    next
      assume a: "\<forall>k. take (length mk) (drop k xs) \<noteq> mk"
      show "\<forall>k. take (length mk) (drop k (x # xs)) \<noteq> mk"
      proof
        fix k show "take (length mk) (drop k (x # xs)) \<noteq> mk"
          using a[rule_format, of "k - 1"] False by (cases k) auto
      qed
    qed
    moreover have "mk \<noteq> []" using False by auto
    ultimately show ?thesis
      using False Cons.IH by simp
  qed
qed

lemma after_first_at:
  assumes "\<forall>k < length pre. take (length mk) (drop k (pre @ mk @ rest)) \<noteq> mk" "mk \<noteq> []"
  shows "after_first mk (pre @ mk @ rest) = Some rest"
  using assms
proof (induction pre)
  case Nil
  then show ?case by (cases mk) auto
next
  case (Cons x pre)
  have "take (length mk) ((x # pre) @ mk @ rest) \<noteq> mk"
    using Cons.prems(1)[rule_format, of 0] by simp
  moreover have "\<forall>k < length pre. take (length mk) (drop k (pre @ mk @ rest)) \<noteq> mk"
  proof (intro allI impI)
    fix k assume "k < length pre"
    then show "take (length mk) (drop k (pre @ mk @ rest)) \<noteq> mk"
      using Cons.prems(1)[rule_format, of "Suc k"] by simp
  qed
  ultimately show ?case
    using Cons.IH Cons.prems(2) by simp
qed

lemma search_no_marker:
  "search_beacon_id header (0, 0, 0) 0 f = None \<longleftrightarrow>
     (\<forall>k. take 3 (drop k f) \<noteq> bytes_of_u24 (beacon_id header))"
  using after_first_None_iff[of "bytes_of_u24 (beacon_id header)" f]
  by (simp add: search_is_after_first) (simp add: bytes_of_u24_def)

lemma search_first_marker:
  assumes "\<forall>k < length pre.
     take 3 (drop k (pre @ bytes_of_u24 (beacon_id header) @ rest)) \<noteq> bytes_of_u24 (beacon_id header)"
  shows "search_beacon_id header (0, 0, 0) 0 (pre @ bytes_of_u24 (beacon_id header) @ rest) = Some rest"
  using after_first_at[of pre "bytes_of_u24 (beacon_id header)" rest] assms
  by (simp add: search_is_after_first) (simp add: bytes_of_u24_def)

lemma search_marker_first:
  "search_beacon_id header (0, 0, 0) 0 (bytes_of_u24 (beacon_id header) @ rest) = Some rest"
  using search_first_marker[of "[]" header rest] by simp

section \<open>The whole frame\<close>

text \<open>The identifier test of each section, on the two bytes read.\<close>

lemma ID_test:
  assumes "2 \<le> length g"
  shows
    "PLATFORM_ID = uint (byte16_swap (u16_of_bytes (take 2 g))) \<longleftrightarrow> take 2 g = [0x00, 0x01]"
    "MEMORY_ID = uint (byte16_swap (u16_of_bytes (take 2 g))) \<longleftrightarrow> take 2 g = [0x01, 0x01]"
    "CDH_ID = uint (byte16_swap (u16_of_bytes (take 2 g))) \<longleftrightarrow> take 2 g = [0x02, 0x01]"
    "POWER_ID = uint (byte16_swap (u16_of_bytes (take 2 g))) \<longleftrightarrow> take 2 g = [0x03, 0x01]"
    "THERMAL_ID = uint (byte16_swap (u16_of_bytes (take 2 g))) \<longleftrightarrow> take 2 g = [0x04, 0x01]"
    "AOCS_ID = uint (byte16_swap (u16_of_bytes (take 2 g))) \<longleftrightarrow> take 2 g = [0x05, 0x01]"
    "PAYLOAD_ID = uint (byte16_swap (u16_of_bytes (take 2 g))) \<longleftrightarrow> take 2 g = [0x06, 0x01]"
proof -
  have l: "length (take 2 g) = 2" using assms by simp
  show
    "PLATFORM_ID = uint (byte16_swap (u16_of_bytes (take 2 g))) \<longleftrightarrow> take 2 g = [0x00, 0x01]"
    "MEMORY_ID = uint (byte16_swap (u16_of_bytes (take 2 g))) \<longleftrightarrow> take 2 g = [0x01, 0x01]"
    "CDH_ID = uint (byte16_swap (u16_of_bytes (take 2 g))) \<longleftrightarrow> take 2 g = [0x02, 0x01]"
    "POWER_ID = uint (byte16_swap (u16_of_bytes (take 2 g))) \<longleftrightarrow> take 2 g = [0x03, 0x01]"
    "THERMAL_ID = uint (byte16_swap (u16_of_bytes (take 2 g))) \<longleftrightarrow> take 2 g = [0x04, 0x01]"
    "AOCS_ID = uint (byte16_swap (u16_of_bytes (take 2 g))) \<longleftrightarrow> take 2 g = [0x05, 0x01]"
    "PAYLOAD_ID = uint (byte16_swap (u16_of_bytes (take 2 g))) \<longleftrightarrow> take 2 g = [0x06, 0x01]"
    unfolding FrameID_as_word id_test_bytes[OF l] FrameID_wire_bytes by (rule refl)+
qed

lemma ID_test_pair:
  "PLATFORM_ID = uint (byte16_swap (u16_of_bytes [a, b])) \<longleftrightarrow> a = 0x00 \<and> b = 0x01"
  "MEMORY_ID = uint (byte16_swap (u16_of_bytes [a, b])) \<longleftrightarrow> a = 0x01 \<and> b = 0x01"
  "CDH_ID = uint (byte16_swap (u16_of_bytes [a, b])) \<longleftrightarrow> a = 0x02 \<and> b = 0x01"
  "POWER_ID = uint (byte16_swap (u16_of_bytes [a, b])) \<longleftrightarrow> a = 0x03 \<and> b = 0x01"
  "THERMAL_ID = uint (byte16_swap (u16_of_bytes [a, b])) \<longleftrightarrow> a = 0x04 \<and> b = 0x01"
  "AOCS_ID = uint (byte16_swap (u16_of_bytes [a, b])) \<longleftrightarrow> a = 0x05 \<and> b = 0x01"
  "PAYLOAD_ID = uint (byte16_swap (u16_of_bytes [a, b])) \<longleftrightarrow> a = 0x06 \<and> b = 0x01"
  using ID_test[of "[a, b]"] by simp_all

lemmas PAYLOAD_run_last = PAYLOAD_run[where stmts = "[]", simplified]
lemmas PAYLOAD_wrong_id_last = PAYLOAD_wrong_id[where stmts = "[]", simplified]

lemma frame_run_ok:
  assumes "110 \<le> length f"
    and "take 2 f = [0x00, 0x01]"
    and "take 2 (drop 18 f) = [0x01, 0x01]"
    and "take 2 (drop 24 f) = [0x02, 0x01]"
    and "take 2 (drop 31 f) = [0x03, 0x01]"
    and "take 2 (drop 49 f) = [0x04, 0x01]"
    and "take 2 (drop 55 f) = [0x05, 0x01]"
    and "take 2 (drop 101 f) = [0x06, 0x01]"
  shows "read_fields frame_fields \<lparr>stream = f, out = fr\<rparr> =
     (READ_OK, \<lparr>stream = drop 110 f, out = BeaconFrame_of_bytes f\<rparr>)"
  using assms
  by (cases fr)
     (simp add: frame_fields_def PLATFORM_run MEMORY_run CDH_run POWER_run THERMAL_run AOCS_run
       PAYLOAD_run_last ID_test ID_test_pair BeaconFrame_of_bytes_def)

lemma frame_wrong_PLATFORM:
  assumes "2 \<le> length f"
    and "take 2 f \<noteq> [0x00, 0x01]"
  shows "read_fields frame_fields \<lparr>stream = f, out = fr\<rparr> =
     (READ_FAIL, \<lparr>stream = drop 2 f,
        out = fr\<lparr>platform := (platform fr)\<lparr>platform_telemetry_id := u16_of_bytes (take 2 f)\<rparr>\<rparr>\<rparr>)"
  using assms
  by (cases fr)
     (simp add: frame_fields_def  PLATFORM_wrong_id ID_test ID_test_pair)

lemma frame_wrong_MEMORY:
  assumes "20 \<le> length f"
    and "take 2 f = [0x00, 0x01]"
    and "take 2 (drop 18 f) \<noteq> [0x01, 0x01]"
  shows "read_fields frame_fields \<lparr>stream = f, out = fr\<rparr> =
     (READ_FAIL, \<lparr>stream = drop 20 f,
        out = fr\<lparr>platform := PlatformTelemetrySchema_of_bytes f,
          memory := (memory fr)\<lparr>memory_telemetry_id := u16_of_bytes (take 2 (drop 18 f))\<rparr>\<rparr>\<rparr>)"
  using assms
  by (cases fr)
     (simp add: frame_fields_def PLATFORM_run MEMORY_wrong_id ID_test ID_test_pair)

lemma frame_wrong_CDH:
  assumes "26 \<le> length f"
    and "take 2 f = [0x00, 0x01]"
    and "take 2 (drop 18 f) = [0x01, 0x01]"
    and "take 2 (drop 24 f) \<noteq> [0x02, 0x01]"
  shows "read_fields frame_fields \<lparr>stream = f, out = fr\<rparr> =
     (READ_FAIL, \<lparr>stream = drop 26 f,
        out = fr\<lparr>platform := PlatformTelemetrySchema_of_bytes f,
          memory := MemoryTelemetrySchema_of_bytes (drop 18 f),
          cdh := (cdh fr)\<lparr>cdh_id := u16_of_bytes (take 2 (drop 24 f))\<rparr>\<rparr>\<rparr>)"
  using assms
  by (cases fr)
     (simp add: frame_fields_def PLATFORM_run MEMORY_run CDH_wrong_id ID_test ID_test_pair)

lemma frame_wrong_POWER:
  assumes "33 \<le> length f"
    and "take 2 f = [0x00, 0x01]"
    and "take 2 (drop 18 f) = [0x01, 0x01]"
    and "take 2 (drop 24 f) = [0x02, 0x01]"
    and "take 2 (drop 31 f) \<noteq> [0x03, 0x01]"
  shows "read_fields frame_fields \<lparr>stream = f, out = fr\<rparr> =
     (READ_FAIL, \<lparr>stream = drop 33 f,
        out = fr\<lparr>platform := PlatformTelemetrySchema_of_bytes f,
          memory := MemoryTelemetrySchema_of_bytes (drop 18 f),
          cdh := CDHTelemetrySchema_of_bytes (drop 24 f),
          power_sec := (power_sec fr)\<lparr>power_telemetry_id := u16_of_bytes (take 2 (drop 31 f))\<rparr>\<rparr>\<rparr>)"
  using assms
  by (cases fr)
     (simp add: frame_fields_def PLATFORM_run MEMORY_run CDH_run POWER_wrong_id ID_test ID_test_pair)

lemma frame_wrong_THERMAL:
  assumes "51 \<le> length f"
    and "take 2 f = [0x00, 0x01]"
    and "take 2 (drop 18 f) = [0x01, 0x01]"
    and "take 2 (drop 24 f) = [0x02, 0x01]"
    and "take 2 (drop 31 f) = [0x03, 0x01]"
    and "take 2 (drop 49 f) \<noteq> [0x04, 0x01]"
  shows "read_fields frame_fields \<lparr>stream = f, out = fr\<rparr> =
     (READ_FAIL, \<lparr>stream = drop 51 f,
        out = fr\<lparr>platform := PlatformTelemetrySchema_of_bytes f,
          memory := MemoryTelemetrySchema_of_bytes (drop 18 f),
          cdh := CDHTelemetrySchema_of_bytes (drop 24 f),
          power_sec := PowerTelemetrySchema_of_bytes (drop 31 f),
          thermal := (thermal fr)\<lparr>thermal_telemetry_id := u16_of_bytes (take 2 (drop 49 f))\<rparr>\<rparr>\<rparr>)"
  using assms
  by (cases fr)
     (simp add: frame_fields_def PLATFORM_run MEMORY_run CDH_run POWER_run THERMAL_wrong_id ID_test ID_test_pair)

lemma frame_wrong_AOCS:
  assumes "57 \<le> length f"
    and "take 2 f = [0x00, 0x01]"
    and "take 2 (drop 18 f) = [0x01, 0x01]"
    and "take 2 (drop 24 f) = [0x02, 0x01]"
    and "take 2 (drop 31 f) = [0x03, 0x01]"
    and "take 2 (drop 49 f) = [0x04, 0x01]"
    and "take 2 (drop 55 f) \<noteq> [0x05, 0x01]"
  shows "read_fields frame_fields \<lparr>stream = f, out = fr\<rparr> =
     (READ_FAIL, \<lparr>stream = drop 57 f,
        out = fr\<lparr>platform := PlatformTelemetrySchema_of_bytes f,
          memory := MemoryTelemetrySchema_of_bytes (drop 18 f),
          cdh := CDHTelemetrySchema_of_bytes (drop 24 f),
          power_sec := PowerTelemetrySchema_of_bytes (drop 31 f),
          thermal := ThermalTelemetrySchema_of_bytes (drop 49 f),
          aocs := (aocs fr)\<lparr>aocs_telemetry_id := u16_of_bytes (take 2 (drop 55 f))\<rparr>\<rparr>\<rparr>)"
  using assms
  by (cases fr)
     (simp add: frame_fields_def PLATFORM_run MEMORY_run CDH_run POWER_run THERMAL_run AOCS_wrong_id ID_test ID_test_pair)

lemma frame_wrong_PAYLOAD:
  assumes "103 \<le> length f"
    and "take 2 f = [0x00, 0x01]"
    and "take 2 (drop 18 f) = [0x01, 0x01]"
    and "take 2 (drop 24 f) = [0x02, 0x01]"
    and "take 2 (drop 31 f) = [0x03, 0x01]"
    and "take 2 (drop 49 f) = [0x04, 0x01]"
    and "take 2 (drop 55 f) = [0x05, 0x01]"
    and "take 2 (drop 101 f) \<noteq> [0x06, 0x01]"
  shows "read_fields frame_fields \<lparr>stream = f, out = fr\<rparr> =
     (READ_FAIL, \<lparr>stream = drop 103 f,
        out = fr\<lparr>platform := PlatformTelemetrySchema_of_bytes f,
          memory := MemoryTelemetrySchema_of_bytes (drop 18 f),
          cdh := CDHTelemetrySchema_of_bytes (drop 24 f),
          power_sec := PowerTelemetrySchema_of_bytes (drop 31 f),
          thermal := ThermalTelemetrySchema_of_bytes (drop 49 f),
          aocs := AOCSTelemetrySchema_of_bytes (drop 55 f),
          payload := (payload fr)\<lparr>payload_telemetry_id := u16_of_bytes (take 2 (drop 101 f))\<rparr>\<rparr>\<rparr>)"
  using assms
  by (cases fr)
     (simp add: frame_fields_def PLATFORM_run MEMORY_run CDH_run POWER_run THERMAL_run AOCS_run PAYLOAD_wrong_id_last ID_test ID_test_pair)

lemma frame_fields_consume_110:
  assumes "read_fields frame_fields s = (READ_OK, s')"
  shows "110 \<le> length (stream s)"
proof -
  have "list_all2 consumes
      ([2, 0, 4, 4, 3, 1, 4] @ [2, 0, 4] @ [2, 0, 4, 1] @ [2, 0, 2, 2, 2, 2, 2, 2, 2, 2] @
       [2, 0, 2, 2] @ [2, 0, 4, 2, 2, 2, 2, 2, 2, 2, 2, 2, 2, 4, 4, 4, 2, 2, 2, 2] @
       [2, 0, 2, 2, 2, 1])
      frame_fields"
    unfolding frame_fields_def
    by (intro list_all2_appendI consumes_PLATFORM consumes_MEMORY consumes_CDH consumes_POWER
        consumes_THERMAL consumes_AOCS consumes_PAYLOAD)
  from read_fields_consumes[OF this assms] show ?thesis
    by simp
qed

lemma frame_short:
  assumes "length f < 110"
  shows "fst (read_fields frame_fields \<lparr>stream = f, out = fr\<rparr>) = READ_FAIL"
proof -
  have "fst (read_fields frame_fields \<lparr>stream = f, out = fr\<rparr>) \<noteq> READ_OK"
    using frame_fields_consume_110[of "\<lparr>stream = f, out = fr\<rparr>"] assms
    by (cases "read_fields frame_fields \<lparr>stream = f, out = fr\<rparr>") auto
  then show ?thesis
    using read_fields_not_EOF[of frame_fields "\<lparr>stream = f, out = fr\<rparr>"]
    by (cases "fst (read_fields frame_fields \<lparr>stream = f, out = fr\<rparr>)") auto
qed

lemma frame_ok_ids:
  assumes ok: "fst (read_fields frame_fields \<lparr>stream = f, out = fr\<rparr>) = READ_OK"
  shows "110 \<le> length f \<and>
     take 2 f = [0x00, 0x01] \<and>
     take 2 (drop 18 f) = [0x01, 0x01] \<and>
     take 2 (drop 24 f) = [0x02, 0x01] \<and>
     take 2 (drop 31 f) = [0x03, 0x01] \<and>
     take 2 (drop 49 f) = [0x04, 0x01] \<and>
     take 2 (drop 55 f) = [0x05, 0x01] \<and>
     take 2 (drop 101 f) = [0x06, 0x01]"
proof -
  have len: "110 \<le> length f"
    using frame_short[of f fr] ok by (cases "110 \<le> length f") auto
  have i0: "take 2 f = [0x00, 0x01]"
  proof (rule ccontr)
    assume "\<not> ?thesis"
    with len  have "fst (read_fields frame_fields \<lparr>stream = f, out = fr\<rparr>) = READ_FAIL"
      by (subst frame_wrong_PLATFORM) simp_all
    with ok show False by simp
  qed
  have i1: "take 2 (drop 18 f) = [0x01, 0x01]"
  proof (rule ccontr)
    assume "\<not> ?thesis"
    with len i0 have "fst (read_fields frame_fields \<lparr>stream = f, out = fr\<rparr>) = READ_FAIL"
      by (subst frame_wrong_MEMORY) simp_all
    with ok show False by simp
  qed
  have i2: "take 2 (drop 24 f) = [0x02, 0x01]"
  proof (rule ccontr)
    assume "\<not> ?thesis"
    with len i0 i1 have "fst (read_fields frame_fields \<lparr>stream = f, out = fr\<rparr>) = READ_FAIL"
      by (subst frame_wrong_CDH) simp_all
    with ok show False by simp
  qed
  have i3: "take 2 (drop 31 f) = [0x03, 0x01]"
  proof (rule ccontr)
    assume "\<not> ?thesis"
    with len i0 i1 i2 have "fst (read_fields frame_fields \<lparr>stream = f, out = fr\<rparr>) = READ_FAIL"
      by (subst frame_wrong_POWER) simp_all
    with ok show False by simp
  qed
  have i4: "take 2 (drop 49 f) = [0x04, 0x01]"
  proof (rule ccontr)
    assume "\<not> ?thesis"
    with len i0 i1 i2 i3 have "fst (read_fields frame_fields \<lparr>stream = f, out = fr\<rparr>) = READ_FAIL"
      by (subst frame_wrong_THERMAL) simp_all
    with ok show False by simp
  qed
  have i5: "take 2 (drop 55 f) = [0x05, 0x01]"
  proof (rule ccontr)
    assume "\<not> ?thesis"
    with len i0 i1 i2 i3 i4 have "fst (read_fields frame_fields \<lparr>stream = f, out = fr\<rparr>) = READ_FAIL"
      by (subst frame_wrong_AOCS) simp_all
    with ok show False by simp
  qed
  have i6: "take 2 (drop 101 f) = [0x06, 0x01]"
  proof (rule ccontr)
    assume "\<not> ?thesis"
    with len i0 i1 i2 i3 i4 i5 have "fst (read_fields frame_fields \<lparr>stream = f, out = fr\<rparr>) = READ_FAIL"
      by (subst frame_wrong_PAYLOAD) simp_all
    with ok show False by simp
  qed
  from len i0 i1 i2 i3 i4 i5 i6 show ?thesis by simp
qed

section \<open>\<^verbatim>\<open>read_data_frame\<close>\<close>

lemma read_data_frame_after_search:
  assumes "search_beacon_id header (0, 0, 0) 0 f = Some f'"
  shows "read_data_frame (Some f) header (Some fr) =
     (case read_fields frame_fields \<lparr>stream = f', out = fr\<rparr> of
        (r, s) \<Rightarrow> (r, Some (stream s), Some (out s)))"
  using assms by (simp add: read_data_frame_def)

lemma read_data_frame_at_marker:
  "read_data_frame (Some (bytes_of_u24 (beacon_id header) @ ws)) header (Some fr) =
     (case read_fields frame_fields \<lparr>stream = ws, out = fr\<rparr> of
        (r, s) \<Rightarrow> (r, Some (stream s), Some (out s)))"
  by (rule read_data_frame_after_search) (rule search_marker_first)

lemma take_2_section_bytes:
  "take 2 (PlatformTelemetrySchema_bytes s1 @ r1) = bytes_of_u16 (platform_telemetry_id s1)"
  "take 2 (MemoryTelemetrySchema_bytes s2 @ r2) = bytes_of_u16 (memory_telemetry_id s2)"
  "take 2 (CDHTelemetrySchema_bytes s3 @ r3) = bytes_of_u16 (cdh_id s3)"
  "take 2 (PowerTelemetrySchema_bytes s4 @ r4) = bytes_of_u16 (power_telemetry_id s4)"
  "take 2 (ThermalTelemetrySchema_bytes s5 @ r5) = bytes_of_u16 (thermal_telemetry_id s5)"
  "take 2 (AOCSTelemetrySchema_bytes s6 @ r6) = bytes_of_u16 (aocs_telemetry_id s6)"
  "take 2 (PayloadTelemetrySchema_bytes s7 @ r7) = bytes_of_u16 (payload_telemetry_id s7)"
  "take 2 (PlatformTelemetrySchema_bytes s1) = bytes_of_u16 (platform_telemetry_id s1)"
  "take 2 (MemoryTelemetrySchema_bytes s2) = bytes_of_u16 (memory_telemetry_id s2)"
  "take 2 (CDHTelemetrySchema_bytes s3) = bytes_of_u16 (cdh_id s3)"
  "take 2 (PowerTelemetrySchema_bytes s4) = bytes_of_u16 (power_telemetry_id s4)"
  "take 2 (ThermalTelemetrySchema_bytes s5) = bytes_of_u16 (thermal_telemetry_id s5)"
  "take 2 (AOCSTelemetrySchema_bytes s6) = bytes_of_u16 (aocs_telemetry_id s6)"
  "take 2 (PayloadTelemetrySchema_bytes s7) = bytes_of_u16 (payload_telemetry_id s7)"
  by (simp_all add: PlatformTelemetrySchema_bytes_def MemoryTelemetrySchema_bytes_def
      CDHTelemetrySchema_bytes_def PowerTelemetrySchema_bytes_def ThermalTelemetrySchema_bytes_def
      AOCSTelemetrySchema_bytes_def PayloadTelemetrySchema_bytes_def)

lemma length_BeaconFrame_bytes [simp]: "length (BeaconFrame_bytes fr) = 110"
  by (simp add: BeaconFrame_bytes_def)

lemma BeaconFrame_of_bytes_bytes: "BeaconFrame_of_bytes (BeaconFrame_bytes fr @ rest) = fr"
  by (cases fr) (simp add: BeaconFrame_of_bytes_def BeaconFrame_bytes_def)

lemma BeaconFrame_bytes_of_bytes:
  assumes "110 \<le> length f"
  shows "BeaconFrame_bytes (BeaconFrame_of_bytes f) = take 110 f"
proof -
  have "BeaconFrame_bytes (BeaconFrame_of_bytes f) =
      take 18 f @ take 6 (drop 18 f) @ take 7 (drop 24 f) @ take 18 (drop 31 f) @
      take 6 (drop 49 f) @ take 46 (drop 55 f) @ take 9 (drop 101 f)"
    using assms
    by (simp add: BeaconFrame_bytes_def BeaconFrame_of_bytes_def
        PlatformTelemetrySchema_bytes_of_bytes MemoryTelemetrySchema_bytes_of_bytes
        CDHTelemetrySchema_bytes_of_bytes PowerTelemetrySchema_bytes_of_bytes
        ThermalTelemetrySchema_bytes_of_bytes AOCSTelemetrySchema_bytes_of_bytes
        PayloadTelemetrySchema_bytes_of_bytes)
  also have "\<dots> = take 110 f"
    by (simp add: take_chunks)
  finally show ?thesis .
qed

text \<open>C1. A frame whose seven identifiers have the expected bytes in wire order
  (high byte first), serialised field by field in schema order right after the marker,
  is decoded with \<^verbatim>\<open>READ_OK\<close>; the file is left after the frame, and the output frame is
  the serialised one, whatever \<^verbatim>\<open>*out\<close> held before: every field, the identifiers
  included, has in memory exactly its bytes on the wire.\<close>

theorem read_data_frame_round_trip:
  assumes "bytes_of_u16 (platform_telemetry_id (platform fr)) = [0x00, 0x01]"
    and "bytes_of_u16 (memory_telemetry_id (memory fr)) = [0x01, 0x01]"
    and "bytes_of_u16 (cdh_id (cdh fr)) = [0x02, 0x01]"
    and "bytes_of_u16 (power_telemetry_id (power_sec fr)) = [0x03, 0x01]"
    and "bytes_of_u16 (thermal_telemetry_id (thermal fr)) = [0x04, 0x01]"
    and "bytes_of_u16 (aocs_telemetry_id (aocs fr)) = [0x05, 0x01]"
    and "bytes_of_u16 (payload_telemetry_id (payload fr)) = [0x06, 0x01]"
  shows "read_data_frame (Some (bytes_of_u24 (beacon_id header) @ BeaconFrame_bytes fr @ rest))
           header (Some fr0) = (READ_OK, Some rest, Some fr)"
proof -
  let ?f = "BeaconFrame_bytes fr @ rest"
  have "read_fields frame_fields \<lparr>stream = ?f, out = fr0\<rparr> =
      (READ_OK, \<lparr>stream = drop 110 ?f, out = BeaconFrame_of_bytes ?f\<rparr>)"
    using assms
    by (intro frame_run_ok) (simp_all add: BeaconFrame_bytes_def take_2_section_bytes)
  then show ?thesis
    by (simp add: read_data_frame_at_marker BeaconFrame_of_bytes_bytes)
qed

text \<open>C2. The search consumes the bytes up to and including the first occurrence of the
  marker, and the sections are decoded from the byte after it: when the marker occurs
  after \<open>pre\<close> and nowhere earlier, the call is the decoding of the fields on \<open>rest\<close>.
  With the marker FF FF F0 and a file that begins 00 FF FF FF F0, decoding starts after
  these five bytes. When the marker occurs nowhere, the call returns \<^verbatim>\<open>READ_EOF\<close>
  with the whole file consumed.\<close>

theorem read_data_frame_synchronises:
  "((\<forall>k < length pre.
       take 3 (drop k (pre @ bytes_of_u24 (beacon_id header) @ rest)) \<noteq> bytes_of_u24 (beacon_id header)) \<longrightarrow>
     read_data_frame (Some (pre @ bytes_of_u24 (beacon_id header) @ rest)) header (Some fr) =
       (case read_fields frame_fields \<lparr>stream = rest, out = fr\<rparr> of
          (r, s) \<Rightarrow> (r, Some (stream s), Some (out s)))) \<and>
   (beacon_id header = Uint24 0xFF 0xFF 0xF0 \<longrightarrow>
     read_data_frame (Some ([0x00, 0xFF, 0xFF, 0xFF, 0xF0] @ payload_bytes)) header (Some fr) =
       (case read_fields frame_fields \<lparr>stream = payload_bytes, out = fr\<rparr> of
          (r, s) \<Rightarrow> (r, Some (stream s), Some (out s)))) \<and>
   ((\<forall>k. take 3 (drop k f) \<noteq> bytes_of_u24 (beacon_id header)) \<longrightarrow>
     read_data_frame (Some f) header (Some fr) = (READ_EOF, Some [], Some fr))"
proof (intro conjI impI)
  assume "\<forall>k < length pre.
     take 3 (drop k (pre @ bytes_of_u24 (beacon_id header) @ rest)) \<noteq> bytes_of_u24 (beacon_id header)"
  then show "read_data_frame (Some (pre @ bytes_of_u24 (beacon_id header) @ rest)) header (Some fr) =
       (case read_fields frame_fields \<lparr>stream = rest, out = fr\<rparr> of
          (r, s) \<Rightarrow> (r, Some (stream s), Some (out s)))"
    by (intro read_data_frame_after_search search_first_marker)
next
  assume h: "beacon_id header = Uint24 0xFF 0xFF 0xF0"
  have "search_beacon_id header (0, 0, 0) 0 ([0x00, 0xFF, 0xFF, 0xFF, 0xF0] @ payload_bytes) =
      Some payload_bytes"
    by (simp add: h header_match_insert_def header_found_def Let_def)
  then show "read_data_frame (Some ([0x00, 0xFF, 0xFF, 0xFF, 0xF0] @ payload_bytes)) header (Some fr) =
       (case read_fields frame_fields \<lparr>stream = payload_bytes, out = fr\<rparr> of
          (r, s) \<Rightarrow> (r, Some (stream s), Some (out s)))"
    by (rule read_data_frame_after_search)
next
  assume "\<forall>k. take 3 (drop k f) \<noteq> bytes_of_u24 (beacon_id header)"
  then have "search_beacon_id header (0, 0, 0) 0 f = None"
    by (simp add: search_no_marker)
  then show "read_data_frame (Some f) header (Some fr) = (READ_EOF, Some [], Some fr)"
    by (simp add: read_data_frame_def)
qed

text \<open>C5. In each of the seven sections the identifier is read first and compared, after
  the byte swap, with the constant of the section; the comparison succeeds exactly when
  the two bytes on the wire are the constant with its high byte first (\<open>ID_test\<close>). When
  the sections before it are accepted and the two identifier bytes of a section are not
  the expected ones, the call returns \<^verbatim>\<open>READ_FAIL\<close> with the file positioned right after
  these two bytes and with no other field of that section, and no later section, written
  in \<^verbatim>\<open>*out\<close>, whatever bytes follow. \<open>ws\<close> are the bytes after the marker; the fifth
  conjunct is the Thermal section, with identifier bytes other than 04 01, and the last
  one says that these are the bytes for which the swapped identifier is \<^verbatim>\<open>THERMAL_ID\<close>.\<close>

theorem wrong_identifier_fails:
  "(2 \<le> length ws \<and>
    take 2 ws \<noteq> [0x00, 0x01] \<longrightarrow>
     read_data_frame (Some (bytes_of_u24 (beacon_id header) @ ws)) header (Some fr) =
       (READ_FAIL, Some (drop 2 ws),
        Some (fr\<lparr>platform := (platform fr)\<lparr>platform_telemetry_id := u16_of_bytes (take 2 ws)\<rparr>\<rparr>))) \<and>
   (20 \<le> length ws \<and>
    take 2 ws = [0x00, 0x01] \<and>
    take 2 (drop 18 ws) \<noteq> [0x01, 0x01] \<longrightarrow>
     read_data_frame (Some (bytes_of_u24 (beacon_id header) @ ws)) header (Some fr) =
       (READ_FAIL, Some (drop 20 ws),
        Some (fr\<lparr>platform := PlatformTelemetrySchema_of_bytes ws,
               memory := (memory fr)\<lparr>memory_telemetry_id := u16_of_bytes (take 2 (drop 18 ws))\<rparr>\<rparr>))) \<and>
   (26 \<le> length ws \<and>
    take 2 ws = [0x00, 0x01] \<and>
    take 2 (drop 18 ws) = [0x01, 0x01] \<and>
    take 2 (drop 24 ws) \<noteq> [0x02, 0x01] \<longrightarrow>
     read_data_frame (Some (bytes_of_u24 (beacon_id header) @ ws)) header (Some fr) =
       (READ_FAIL, Some (drop 26 ws),
        Some (fr\<lparr>platform := PlatformTelemetrySchema_of_bytes ws,
               memory := MemoryTelemetrySchema_of_bytes (drop 18 ws),
               cdh := (cdh fr)\<lparr>cdh_id := u16_of_bytes (take 2 (drop 24 ws))\<rparr>\<rparr>))) \<and>
   (33 \<le> length ws \<and>
    take 2 ws = [0x00, 0x01] \<and>
    take 2 (drop 18 ws) = [0x01, 0x01] \<and>
    take 2 (drop 24 ws) = [0x02, 0x01] \<and>
    take 2 (drop 31 ws) \<noteq> [0x03, 0x01] \<longrightarrow>
     read_data_frame (Some (bytes_of_u24 (beacon_id header) @ ws)) header (Some fr) =
       (READ_FAIL, Some (drop 33 ws),
        Some (fr\<lparr>platform := PlatformTelemetrySchema_of_bytes ws,
               memory := MemoryTelemetrySchema_of_bytes (drop 18 ws),
               cdh := CDHTelemetrySchema_of_bytes (drop 24 ws),
               power_sec := (power_sec fr)\<lparr>power_telemetry_id := u16_of_bytes (take 2 (drop 31 ws))\<rparr>\<rparr>))) \<and>
   (51 \<le> length ws \<and>
    take 2 ws = [0x00, 0x01] \<and>
    take 2 (drop 18 ws) = [0x01, 0x01] \<and>
    take 2 (drop 24 ws) = [0x02, 0x01] \<and>
    take 2 (drop 31 ws) = [0x03, 0x01] \<and>
    take 2 (drop 49 ws) \<noteq> [0x04, 0x01] \<longrightarrow>
     read_data_frame (Some (bytes_of_u24 (beacon_id header) @ ws)) header (Some fr) =
       (READ_FAIL, Some (drop 51 ws),
        Some (fr\<lparr>platform := PlatformTelemetrySchema_of_bytes ws,
               memory := MemoryTelemetrySchema_of_bytes (drop 18 ws),
               cdh := CDHTelemetrySchema_of_bytes (drop 24 ws),
               power_sec := PowerTelemetrySchema_of_bytes (drop 31 ws),
               thermal := (thermal fr)\<lparr>thermal_telemetry_id := u16_of_bytes (take 2 (drop 49 ws))\<rparr>\<rparr>))) \<and>
   (57 \<le> length ws \<and>
    take 2 ws = [0x00, 0x01] \<and>
    take 2 (drop 18 ws) = [0x01, 0x01] \<and>
    take 2 (drop 24 ws) = [0x02, 0x01] \<and>
    take 2 (drop 31 ws) = [0x03, 0x01] \<and>
    take 2 (drop 49 ws) = [0x04, 0x01] \<and>
    take 2 (drop 55 ws) \<noteq> [0x05, 0x01] \<longrightarrow>
     read_data_frame (Some (bytes_of_u24 (beacon_id header) @ ws)) header (Some fr) =
       (READ_FAIL, Some (drop 57 ws),
        Some (fr\<lparr>platform := PlatformTelemetrySchema_of_bytes ws,
               memory := MemoryTelemetrySchema_of_bytes (drop 18 ws),
               cdh := CDHTelemetrySchema_of_bytes (drop 24 ws),
               power_sec := PowerTelemetrySchema_of_bytes (drop 31 ws),
               thermal := ThermalTelemetrySchema_of_bytes (drop 49 ws),
               aocs := (aocs fr)\<lparr>aocs_telemetry_id := u16_of_bytes (take 2 (drop 55 ws))\<rparr>\<rparr>))) \<and>
   (103 \<le> length ws \<and>
    take 2 ws = [0x00, 0x01] \<and>
    take 2 (drop 18 ws) = [0x01, 0x01] \<and>
    take 2 (drop 24 ws) = [0x02, 0x01] \<and>
    take 2 (drop 31 ws) = [0x03, 0x01] \<and>
    take 2 (drop 49 ws) = [0x04, 0x01] \<and>
    take 2 (drop 55 ws) = [0x05, 0x01] \<and>
    take 2 (drop 101 ws) \<noteq> [0x06, 0x01] \<longrightarrow>
     read_data_frame (Some (bytes_of_u24 (beacon_id header) @ ws)) header (Some fr) =
       (READ_FAIL, Some (drop 103 ws),
        Some (fr\<lparr>platform := PlatformTelemetrySchema_of_bytes ws,
               memory := MemoryTelemetrySchema_of_bytes (drop 18 ws),
               cdh := CDHTelemetrySchema_of_bytes (drop 24 ws),
               power_sec := PowerTelemetrySchema_of_bytes (drop 31 ws),
               thermal := ThermalTelemetrySchema_of_bytes (drop 49 ws),
               aocs := AOCSTelemetrySchema_of_bytes (drop 55 ws),
               payload := (payload fr)\<lparr>payload_telemetry_id := u16_of_bytes (take 2 (drop 101 ws))\<rparr>\<rparr>))) \<and>
   (2 \<le> length g \<longrightarrow>
     (THERMAL_ID = uint (byte16_swap (u16_of_bytes (take 2 g)))) = (take 2 g = [0x04, 0x01]))"
  using ID_test(5)[of g]
  by (auto simp: read_data_frame_at_marker frame_wrong_PLATFORM frame_wrong_MEMORY frame_wrong_CDH
      frame_wrong_POWER frame_wrong_THERMAL frame_wrong_AOCS frame_wrong_PAYLOAD)

theorem wrong_identifier_fails_witness:
  "read_data_frame (Some (bytes_of_u24 (beacon_id main_header) @ [0xEE, 0xEE] @ drop 2 sample_frame_bytes))
     main_header (Some zero_frame) =
     (READ_FAIL, Some (drop 2 sample_frame_bytes),
      Some (zero_frame\<lparr>platform := (platform zero_frame)\<lparr>platform_telemetry_id := 0xEEEE\<rparr>\<rparr>)) \<and>
   read_data_frame (Some (bytes_of_u24 (beacon_id main_header) @ take 18 sample_frame_bytes @ [0xEE, 0xEE] @ drop 20 sample_frame_bytes))
     main_header (Some zero_frame) =
     (READ_FAIL, Some (drop 20 sample_frame_bytes),
      Some (zero_frame\<lparr>platform := PlatformTelemetrySchema_of_bytes (take 18 sample_frame_bytes @ [0xEE, 0xEE] @ drop 20 sample_frame_bytes),
             memory := (memory zero_frame)\<lparr>memory_telemetry_id := 0xEEEE\<rparr>\<rparr>)) \<and>
   read_data_frame (Some (bytes_of_u24 (beacon_id main_header) @ take 24 sample_frame_bytes @ [0xEE, 0xEE] @ drop 26 sample_frame_bytes))
     main_header (Some zero_frame) =
     (READ_FAIL, Some (drop 26 sample_frame_bytes),
      Some (zero_frame\<lparr>platform := PlatformTelemetrySchema_of_bytes (take 24 sample_frame_bytes @ [0xEE, 0xEE] @ drop 26 sample_frame_bytes),
             memory := MemoryTelemetrySchema_of_bytes (drop 18 (take 24 sample_frame_bytes @ [0xEE, 0xEE] @ drop 26 sample_frame_bytes)),
             cdh := (cdh zero_frame)\<lparr>cdh_id := 0xEEEE\<rparr>\<rparr>)) \<and>
   read_data_frame (Some (bytes_of_u24 (beacon_id main_header) @ take 31 sample_frame_bytes @ [0xEE, 0xEE] @ drop 33 sample_frame_bytes))
     main_header (Some zero_frame) =
     (READ_FAIL, Some (drop 33 sample_frame_bytes),
      Some (zero_frame\<lparr>platform := PlatformTelemetrySchema_of_bytes (take 31 sample_frame_bytes @ [0xEE, 0xEE] @ drop 33 sample_frame_bytes),
             memory := MemoryTelemetrySchema_of_bytes (drop 18 (take 31 sample_frame_bytes @ [0xEE, 0xEE] @ drop 33 sample_frame_bytes)),
             cdh := CDHTelemetrySchema_of_bytes (drop 24 (take 31 sample_frame_bytes @ [0xEE, 0xEE] @ drop 33 sample_frame_bytes)),
             power_sec := (power_sec zero_frame)\<lparr>power_telemetry_id := 0xEEEE\<rparr>\<rparr>)) \<and>
   read_data_frame (Some (bytes_of_u24 (beacon_id main_header) @ take 49 sample_frame_bytes @ [0xEE, 0xEE] @ drop 51 sample_frame_bytes))
     main_header (Some zero_frame) =
     (READ_FAIL, Some (drop 51 sample_frame_bytes),
      Some (zero_frame\<lparr>platform := PlatformTelemetrySchema_of_bytes (take 49 sample_frame_bytes @ [0xEE, 0xEE] @ drop 51 sample_frame_bytes),
             memory := MemoryTelemetrySchema_of_bytes (drop 18 (take 49 sample_frame_bytes @ [0xEE, 0xEE] @ drop 51 sample_frame_bytes)),
             cdh := CDHTelemetrySchema_of_bytes (drop 24 (take 49 sample_frame_bytes @ [0xEE, 0xEE] @ drop 51 sample_frame_bytes)),
             power_sec := PowerTelemetrySchema_of_bytes (drop 31 (take 49 sample_frame_bytes @ [0xEE, 0xEE] @ drop 51 sample_frame_bytes)),
             thermal := (thermal zero_frame)\<lparr>thermal_telemetry_id := 0xEEEE\<rparr>\<rparr>)) \<and>
   read_data_frame (Some (bytes_of_u24 (beacon_id main_header) @ take 55 sample_frame_bytes @ [0xEE, 0xEE] @ drop 57 sample_frame_bytes))
     main_header (Some zero_frame) =
     (READ_FAIL, Some (drop 57 sample_frame_bytes),
      Some (zero_frame\<lparr>platform := PlatformTelemetrySchema_of_bytes (take 55 sample_frame_bytes @ [0xEE, 0xEE] @ drop 57 sample_frame_bytes),
             memory := MemoryTelemetrySchema_of_bytes (drop 18 (take 55 sample_frame_bytes @ [0xEE, 0xEE] @ drop 57 sample_frame_bytes)),
             cdh := CDHTelemetrySchema_of_bytes (drop 24 (take 55 sample_frame_bytes @ [0xEE, 0xEE] @ drop 57 sample_frame_bytes)),
             power_sec := PowerTelemetrySchema_of_bytes (drop 31 (take 55 sample_frame_bytes @ [0xEE, 0xEE] @ drop 57 sample_frame_bytes)),
             thermal := ThermalTelemetrySchema_of_bytes (drop 49 (take 55 sample_frame_bytes @ [0xEE, 0xEE] @ drop 57 sample_frame_bytes)),
             aocs := (aocs zero_frame)\<lparr>aocs_telemetry_id := 0xEEEE\<rparr>\<rparr>)) \<and>
   read_data_frame (Some (bytes_of_u24 (beacon_id main_header) @ take 101 sample_frame_bytes @ [0xEE, 0xEE] @ drop 103 sample_frame_bytes))
     main_header (Some zero_frame) =
     (READ_FAIL, Some (drop 103 sample_frame_bytes),
      Some (zero_frame\<lparr>platform := PlatformTelemetrySchema_of_bytes (take 101 sample_frame_bytes @ [0xEE, 0xEE] @ drop 103 sample_frame_bytes),
             memory := MemoryTelemetrySchema_of_bytes (drop 18 (take 101 sample_frame_bytes @ [0xEE, 0xEE] @ drop 103 sample_frame_bytes)),
             cdh := CDHTelemetrySchema_of_bytes (drop 24 (take 101 sample_frame_bytes @ [0xEE, 0xEE] @ drop 103 sample_frame_bytes)),
             power_sec := PowerTelemetrySchema_of_bytes (drop 31 (take 101 sample_frame_bytes @ [0xEE, 0xEE] @ drop 103 sample_frame_bytes)),
             thermal := ThermalTelemetrySchema_of_bytes (drop 49 (take 101 sample_frame_bytes @ [0xEE, 0xEE] @ drop 103 sample_frame_bytes)),
             aocs := AOCSTelemetrySchema_of_bytes (drop 55 (take 101 sample_frame_bytes @ [0xEE, 0xEE] @ drop 103 sample_frame_bytes)),
             payload := (payload zero_frame)\<lparr>payload_telemetry_id := 0xEEEE\<rparr>\<rparr>)) \<and>
   THERMAL_ID = uint (byte16_swap (u16_of_bytes (take 2 [0x04, 0x01, 0x09, 0xC4])))"
proof -
  have e: "u16_of_bytes [0xEE, 0xEE] = 0xEEEE"
    by (simp add: u16_of_bytes_def)
  have w1: "read_data_frame (Some (bytes_of_u24 (beacon_id main_header) @ [0xEE, 0xEE] @ drop 2 sample_frame_bytes))
     main_header (Some zero_frame) =
     (READ_FAIL, Some (drop 2 sample_frame_bytes),
      Some (zero_frame\<lparr>platform := (platform zero_frame)\<lparr>platform_telemetry_id := 0xEEEE\<rparr>\<rparr>))"
    using wrong_identifier_fails[of "[0xEE, 0xEE] @ drop 2 sample_frame_bytes" main_header zero_frame]
    by (simp add: sample_frame_bytes_def e)
  have w2: "read_data_frame (Some (bytes_of_u24 (beacon_id main_header) @ take 18 sample_frame_bytes @ [0xEE, 0xEE] @ drop 20 sample_frame_bytes))
     main_header (Some zero_frame) =
     (READ_FAIL, Some (drop 20 sample_frame_bytes),
      Some (zero_frame\<lparr>platform := PlatformTelemetrySchema_of_bytes (take 18 sample_frame_bytes @ [0xEE, 0xEE] @ drop 20 sample_frame_bytes),
             memory := (memory zero_frame)\<lparr>memory_telemetry_id := 0xEEEE\<rparr>\<rparr>))"
    using wrong_identifier_fails[of "take 18 sample_frame_bytes @ [0xEE, 0xEE] @ drop 20 sample_frame_bytes" main_header zero_frame]
    by (simp add: sample_frame_bytes_def e)
  have w3: "read_data_frame (Some (bytes_of_u24 (beacon_id main_header) @ take 24 sample_frame_bytes @ [0xEE, 0xEE] @ drop 26 sample_frame_bytes))
     main_header (Some zero_frame) =
     (READ_FAIL, Some (drop 26 sample_frame_bytes),
      Some (zero_frame\<lparr>platform := PlatformTelemetrySchema_of_bytes (take 24 sample_frame_bytes @ [0xEE, 0xEE] @ drop 26 sample_frame_bytes),
             memory := MemoryTelemetrySchema_of_bytes (drop 18 (take 24 sample_frame_bytes @ [0xEE, 0xEE] @ drop 26 sample_frame_bytes)),
             cdh := (cdh zero_frame)\<lparr>cdh_id := 0xEEEE\<rparr>\<rparr>))"
    using wrong_identifier_fails[of "take 24 sample_frame_bytes @ [0xEE, 0xEE] @ drop 26 sample_frame_bytes" main_header zero_frame]
    by (simp add: sample_frame_bytes_def e)
  have w4: "read_data_frame (Some (bytes_of_u24 (beacon_id main_header) @ take 31 sample_frame_bytes @ [0xEE, 0xEE] @ drop 33 sample_frame_bytes))
     main_header (Some zero_frame) =
     (READ_FAIL, Some (drop 33 sample_frame_bytes),
      Some (zero_frame\<lparr>platform := PlatformTelemetrySchema_of_bytes (take 31 sample_frame_bytes @ [0xEE, 0xEE] @ drop 33 sample_frame_bytes),
             memory := MemoryTelemetrySchema_of_bytes (drop 18 (take 31 sample_frame_bytes @ [0xEE, 0xEE] @ drop 33 sample_frame_bytes)),
             cdh := CDHTelemetrySchema_of_bytes (drop 24 (take 31 sample_frame_bytes @ [0xEE, 0xEE] @ drop 33 sample_frame_bytes)),
             power_sec := (power_sec zero_frame)\<lparr>power_telemetry_id := 0xEEEE\<rparr>\<rparr>))"
    using wrong_identifier_fails[of "take 31 sample_frame_bytes @ [0xEE, 0xEE] @ drop 33 sample_frame_bytes" main_header zero_frame]
    by (simp add: sample_frame_bytes_def e)
  have w5: "read_data_frame (Some (bytes_of_u24 (beacon_id main_header) @ take 49 sample_frame_bytes @ [0xEE, 0xEE] @ drop 51 sample_frame_bytes))
     main_header (Some zero_frame) =
     (READ_FAIL, Some (drop 51 sample_frame_bytes),
      Some (zero_frame\<lparr>platform := PlatformTelemetrySchema_of_bytes (take 49 sample_frame_bytes @ [0xEE, 0xEE] @ drop 51 sample_frame_bytes),
             memory := MemoryTelemetrySchema_of_bytes (drop 18 (take 49 sample_frame_bytes @ [0xEE, 0xEE] @ drop 51 sample_frame_bytes)),
             cdh := CDHTelemetrySchema_of_bytes (drop 24 (take 49 sample_frame_bytes @ [0xEE, 0xEE] @ drop 51 sample_frame_bytes)),
             power_sec := PowerTelemetrySchema_of_bytes (drop 31 (take 49 sample_frame_bytes @ [0xEE, 0xEE] @ drop 51 sample_frame_bytes)),
             thermal := (thermal zero_frame)\<lparr>thermal_telemetry_id := 0xEEEE\<rparr>\<rparr>))"
    using wrong_identifier_fails[of "take 49 sample_frame_bytes @ [0xEE, 0xEE] @ drop 51 sample_frame_bytes" main_header zero_frame]
    by (simp add: sample_frame_bytes_def e)
  have w6: "read_data_frame (Some (bytes_of_u24 (beacon_id main_header) @ take 55 sample_frame_bytes @ [0xEE, 0xEE] @ drop 57 sample_frame_bytes))
     main_header (Some zero_frame) =
     (READ_FAIL, Some (drop 57 sample_frame_bytes),
      Some (zero_frame\<lparr>platform := PlatformTelemetrySchema_of_bytes (take 55 sample_frame_bytes @ [0xEE, 0xEE] @ drop 57 sample_frame_bytes),
             memory := MemoryTelemetrySchema_of_bytes (drop 18 (take 55 sample_frame_bytes @ [0xEE, 0xEE] @ drop 57 sample_frame_bytes)),
             cdh := CDHTelemetrySchema_of_bytes (drop 24 (take 55 sample_frame_bytes @ [0xEE, 0xEE] @ drop 57 sample_frame_bytes)),
             power_sec := PowerTelemetrySchema_of_bytes (drop 31 (take 55 sample_frame_bytes @ [0xEE, 0xEE] @ drop 57 sample_frame_bytes)),
             thermal := ThermalTelemetrySchema_of_bytes (drop 49 (take 55 sample_frame_bytes @ [0xEE, 0xEE] @ drop 57 sample_frame_bytes)),
             aocs := (aocs zero_frame)\<lparr>aocs_telemetry_id := 0xEEEE\<rparr>\<rparr>))"
    using wrong_identifier_fails[of "take 55 sample_frame_bytes @ [0xEE, 0xEE] @ drop 57 sample_frame_bytes" main_header zero_frame]
    by (simp add: sample_frame_bytes_def e)
  have w7: "read_data_frame (Some (bytes_of_u24 (beacon_id main_header) @ take 101 sample_frame_bytes @ [0xEE, 0xEE] @ drop 103 sample_frame_bytes))
     main_header (Some zero_frame) =
     (READ_FAIL, Some (drop 103 sample_frame_bytes),
      Some (zero_frame\<lparr>platform := PlatformTelemetrySchema_of_bytes (take 101 sample_frame_bytes @ [0xEE, 0xEE] @ drop 103 sample_frame_bytes),
             memory := MemoryTelemetrySchema_of_bytes (drop 18 (take 101 sample_frame_bytes @ [0xEE, 0xEE] @ drop 103 sample_frame_bytes)),
             cdh := CDHTelemetrySchema_of_bytes (drop 24 (take 101 sample_frame_bytes @ [0xEE, 0xEE] @ drop 103 sample_frame_bytes)),
             power_sec := PowerTelemetrySchema_of_bytes (drop 31 (take 101 sample_frame_bytes @ [0xEE, 0xEE] @ drop 103 sample_frame_bytes)),
             thermal := ThermalTelemetrySchema_of_bytes (drop 49 (take 101 sample_frame_bytes @ [0xEE, 0xEE] @ drop 103 sample_frame_bytes)),
             aocs := AOCSTelemetrySchema_of_bytes (drop 55 (take 101 sample_frame_bytes @ [0xEE, 0xEE] @ drop 103 sample_frame_bytes)),
             payload := (payload zero_frame)\<lparr>payload_telemetry_id := 0xEEEE\<rparr>\<rparr>))"
    using wrong_identifier_fails[of "take 101 sample_frame_bytes @ [0xEE, 0xEE] @ drop 103 sample_frame_bytes" main_header zero_frame]
    by (simp add: sample_frame_bytes_def e)
  have w8: "THERMAL_ID = uint (byte16_swap (u16_of_bytes (take 2 [0x04, 0x01, 0x09, 0xC4])))"
    using wrong_identifier_fails[of _ _ _ "[0x04, 0x01, 0x09, 0xC4]"]
    by simp
  show ?thesis
    by (intro conjI w1 w2 w3 w4 w5 w6 w7 w8)
qed

lemma sample_frame_ids:
  "110 \<le> length sample_frame_bytes"
  "take 2 sample_frame_bytes = [0x00, 0x01]"
  "take 2 (drop 18 sample_frame_bytes) = [0x01, 0x01]"
  "take 2 (drop 24 sample_frame_bytes) = [0x02, 0x01]"
  "take 2 (drop 31 sample_frame_bytes) = [0x03, 0x01]"
  "take 2 (drop 49 sample_frame_bytes) = [0x04, 0x01]"
  "take 2 (drop 55 sample_frame_bytes) = [0x05, 0x01]"
  "take 2 (drop 101 sample_frame_bytes) = [0x06, 0x01]"
  by (simp_all add: sample_frame_bytes_def)

lemma sample_frame_image:
  "BeaconFrame_bytes (BeaconFrame_of_bytes sample_frame_bytes) = sample_frame_bytes"
  by (simp add: BeaconFrame_bytes_of_bytes sample_frame_ids(1)) (simp add: sample_frame_bytes_def)

lemma read_sample_frame:
  "read_fields frame_fields \<lparr>stream = sample_frame_bytes @ rest, out = fr\<rparr> =
     (READ_OK, \<lparr>stream = rest, out = BeaconFrame_of_bytes sample_frame_bytes\<rparr>)"
proof -
  have "read_fields frame_fields \<lparr>stream = BeaconFrame_bytes (BeaconFrame_of_bytes sample_frame_bytes) @ rest,
      out = fr\<rparr> =
     (READ_OK, \<lparr>stream = drop 110 (BeaconFrame_bytes (BeaconFrame_of_bytes sample_frame_bytes) @ rest),
       out = BeaconFrame_of_bytes (BeaconFrame_bytes (BeaconFrame_of_bytes sample_frame_bytes) @ rest)\<rparr>)"
    by (rule frame_run_ok) (simp_all add: sample_frame_image, simp_all add: sample_frame_bytes_def)
  then show ?thesis
    by (simp add: BeaconFrame_of_bytes_bytes) (simp add: sample_frame_image)
qed

theorem read_data_frame_round_trip_witness:
  "bytes_of_u16 (platform_telemetry_id (platform (BeaconFrame_of_bytes sample_frame_bytes))) = [0x00, 0x01] \<and>
   bytes_of_u16 (memory_telemetry_id (memory (BeaconFrame_of_bytes sample_frame_bytes))) = [0x01, 0x01] \<and>
   bytes_of_u16 (cdh_id (cdh (BeaconFrame_of_bytes sample_frame_bytes))) = [0x02, 0x01] \<and>
   bytes_of_u16 (power_telemetry_id (power_sec (BeaconFrame_of_bytes sample_frame_bytes))) = [0x03, 0x01] \<and>
   bytes_of_u16 (thermal_telemetry_id (thermal (BeaconFrame_of_bytes sample_frame_bytes))) = [0x04, 0x01] \<and>
   bytes_of_u16 (aocs_telemetry_id (aocs (BeaconFrame_of_bytes sample_frame_bytes))) = [0x05, 0x01] \<and>
   bytes_of_u16 (payload_telemetry_id (payload (BeaconFrame_of_bytes sample_frame_bytes))) = [0x06, 0x01] \<and>
   read_data_frame (Some ([0xFF, 0xFF, 0xF0] @ sample_frame_bytes @ [0xAB])) main_header (Some zero_frame) =
     (READ_OK, Some [0xAB], Some (BeaconFrame_of_bytes sample_frame_bytes))"
proof -
  have ids:
    "bytes_of_u16 (platform_telemetry_id (platform (BeaconFrame_of_bytes sample_frame_bytes))) = [0x00, 0x01]"
    "bytes_of_u16 (memory_telemetry_id (memory (BeaconFrame_of_bytes sample_frame_bytes))) = [0x01, 0x01]"
    "bytes_of_u16 (cdh_id (cdh (BeaconFrame_of_bytes sample_frame_bytes))) = [0x02, 0x01]"
    "bytes_of_u16 (power_telemetry_id (power_sec (BeaconFrame_of_bytes sample_frame_bytes))) = [0x03, 0x01]"
    "bytes_of_u16 (thermal_telemetry_id (thermal (BeaconFrame_of_bytes sample_frame_bytes))) = [0x04, 0x01]"
    "bytes_of_u16 (aocs_telemetry_id (aocs (BeaconFrame_of_bytes sample_frame_bytes))) = [0x05, 0x01]"
    "bytes_of_u16 (payload_telemetry_id (payload (BeaconFrame_of_bytes sample_frame_bytes))) = [0x06, 0x01]"
    by (simp_all add: BeaconFrame_of_bytes_def PlatformTelemetrySchema_of_bytes_def
        MemoryTelemetrySchema_of_bytes_def CDHTelemetrySchema_of_bytes_def
        PowerTelemetrySchema_of_bytes_def ThermalTelemetrySchema_of_bytes_def
        AOCSTelemetrySchema_of_bytes_def PayloadTelemetrySchema_of_bytes_def
        sample_frame_bytes_def bytes_of_u16_of2)
  from read_data_frame_round_trip[OF ids, of main_header "[0xAB]" zero_frame]
  have "read_data_frame (Some ([0xFF, 0xFF, 0xF0] @ sample_frame_bytes @ [0xAB])) main_header
      (Some zero_frame) = (READ_OK, Some [0xAB], Some (BeaconFrame_of_bytes sample_frame_bytes))"
    by (simp add: sample_frame_image main_header_def bytes_of_u24_def)
  with ids show ?thesis by simp
qed

lemma no_marker_by_search:
  "search_beacon_id header (0, 0, 0) 0 f = None \<Longrightarrow>
     \<forall>k. take 3 (drop k f) \<noteq> bytes_of_u24 (beacon_id header)"
  by (simp add: search_no_marker)

theorem read_data_frame_synchronises_witness:
  "read_data_frame (Some ([0x00, 0xFF] @ [0xFF, 0xFF, 0xF0] @ sample_frame_bytes)) main_header (Some zero_frame) =
     (READ_OK, Some [], Some (BeaconFrame_of_bytes sample_frame_bytes)) \<and>
   beacon_id main_header = Uint24 0xFF 0xFF 0xF0 \<and>
   read_data_frame (Some ([0x00, 0xFF, 0xFF, 0xFF, 0xF0] @ sample_frame_bytes)) main_header (Some zero_frame) =
     (READ_OK, Some [], Some (BeaconFrame_of_bytes sample_frame_bytes)) \<and>
   (\<forall>k. take 3 (drop k [0x00, 0xFF, 0xF0, 0xFF]) \<noteq> bytes_of_u24 (beacon_id main_header)) \<and>
   read_data_frame (Some [0x00, 0xFF, 0xF0, 0xFF]) main_header (Some zero_frame) =
     (READ_EOF, Some [], Some zero_frame)"
proof -
  have h1: "\<forall>k < length [0x00, 0xFF :: uint8_t].
      take 3 (drop k ([0x00, 0xFF] @ bytes_of_u24 (beacon_id main_header) @ sample_frame_bytes)) \<noteq>
      bytes_of_u24 (beacon_id main_header)"
    by (simp add: less_Suc_eq main_header_def bytes_of_u24_def)
  have h2: "beacon_id main_header = Uint24 0xFF 0xFF 0xF0"
    by (simp add: main_header_def)
  have h3: "\<forall>k. take 3 (drop k [0x00, 0xFF, 0xF0, 0xFF]) \<noteq> bytes_of_u24 (beacon_id main_header)"
    by (rule no_marker_by_search)
       (simp add: main_header_def header_match_insert_def header_found_def Let_def)
  have s: "read_fields frame_fields \<lparr>stream = sample_frame_bytes, out = zero_frame\<rparr> =
     (READ_OK, \<lparr>stream = [], out = BeaconFrame_of_bytes sample_frame_bytes\<rparr>)"
    using read_sample_frame[of "[]" zero_frame] by simp
  from read_data_frame_synchronises[of "[0x00, 0xFF]" main_header sample_frame_bytes zero_frame
      sample_frame_bytes "[0x00, 0xFF, 0xF0, 0xFF]"] h1 h2 h3
  have "read_data_frame (Some ([0x00, 0xFF] @ [0xFF, 0xFF, 0xF0] @ sample_frame_bytes)) main_header (Some zero_frame) =
     (READ_OK, Some [], Some (BeaconFrame_of_bytes sample_frame_bytes))"
   and "read_data_frame (Some ([0x00, 0xFF, 0xFF, 0xFF, 0xF0] @ sample_frame_bytes)) main_header (Some zero_frame) =
     (READ_OK, Some [], Some (BeaconFrame_of_bytes sample_frame_bytes))"
   and "read_data_frame (Some [0x00, 0xFF, 0xF0, 0xFF]) main_header (Some zero_frame) =
     (READ_EOF, Some [], Some zero_frame)"
    by (simp_all add: s main_header_def bytes_of_u24_def)
  with h2 h3 show ?thesis by blast
qed

text \<open>C6. The return value is one of the three enumerators. \<^verbatim>\<open>READ_EOF\<close> is returned
  exactly by the calls that search a file in which the marker does not occur, so that the
  file ends before a match; a call with a null pointer reads nothing and returns
  \<^verbatim>\<open>READ_FAIL\<close>. Once the marker is matched, a file that ends before the 110 bytes of
  the frame gives \<^verbatim>\<open>READ_FAIL\<close>.\<close>

theorem read_data_frame_status:
  "fst (read_data_frame file_ptr header out_ptr) \<in> {READ_OK, READ_FAIL, READ_EOF} \<and>
   (fst (read_data_frame file_ptr header out_ptr) = READ_EOF \<longleftrightarrow>
      (\<exists>f fr. file_ptr = Some f \<and> out_ptr = Some fr \<and>
         (\<forall>k. take 3 (drop k f) \<noteq> bytes_of_u24 (beacon_id header)))) \<and>
   ((\<forall>k < length pre.
        take 3 (drop k (pre @ bytes_of_u24 (beacon_id header) @ rest)) \<noteq> bytes_of_u24 (beacon_id header)) \<and>
      length rest < 110 \<longrightarrow>
      fst (read_data_frame (Some (pre @ bytes_of_u24 (beacon_id header) @ rest)) header (Some fr0)) = READ_FAIL)"
proof (intro conjI)
  show "fst (read_data_frame file_ptr header out_ptr) \<in> {READ_OK, READ_FAIL, READ_EOF}"
    by (cases "fst (read_data_frame file_ptr header out_ptr)") simp_all
next
  show "fst (read_data_frame file_ptr header out_ptr) = READ_EOF \<longleftrightarrow>
      (\<exists>f fr. file_ptr = Some f \<and> out_ptr = Some fr \<and>
         (\<forall>k. take 3 (drop k f) \<noteq> bytes_of_u24 (beacon_id header)))"
  proof (cases file_ptr)
    case None
    then show ?thesis by (simp add: read_data_frame_def)
  next
    case (Some f)
    show ?thesis
    proof (cases out_ptr)
      case None
      with Some show ?thesis by (simp add: read_data_frame_def)
    next
      case (Some fr)
      show ?thesis
      proof (cases "search_beacon_id header (0, 0, 0) 0 f")
        case None
        with \<open>file_ptr = Some f\<close> Some show ?thesis
          using search_no_marker[of header f] by (simp add: read_data_frame_def)
      next
        case (Some f')
        have "fst (read_data_frame (Some f) header (Some fr)) \<noteq> READ_EOF"
          using read_fields_not_EOF[of frame_fields "\<lparr>stream = f', out = fr\<rparr>"]
          by (cases "read_fields frame_fields \<lparr>stream = f', out = fr\<rparr>")
             (simp add: read_data_frame_after_search[OF Some])
        moreover have "\<not> (\<forall>k. take 3 (drop k f) \<noteq> bytes_of_u24 (beacon_id header))"
          using search_no_marker[of header f] Some by simp
        ultimately show ?thesis
          using \<open>file_ptr = Some f\<close> \<open>out_ptr = Some fr\<close> by simp
      qed
    qed
  qed
next
  show "(\<forall>k < length pre.
        take 3 (drop k (pre @ bytes_of_u24 (beacon_id header) @ rest)) \<noteq> bytes_of_u24 (beacon_id header)) \<and>
      length rest < 110 \<longrightarrow>
      fst (read_data_frame (Some (pre @ bytes_of_u24 (beacon_id header) @ rest)) header (Some fr0)) = READ_FAIL"
  proof (intro impI, elim conjE)
    assume first: "\<forall>k < length pre.
        take 3 (drop k (pre @ bytes_of_u24 (beacon_id header) @ rest)) \<noteq> bytes_of_u24 (beacon_id header)"
      and short: "length rest < 110"
    show "fst (read_data_frame (Some (pre @ bytes_of_u24 (beacon_id header) @ rest)) header (Some fr0)) = READ_FAIL"
      using frame_short[OF short, of fr0]
      by (cases "read_fields frame_fields \<lparr>stream = rest, out = fr0\<rparr>")
         (simp add: read_data_frame_after_search[OF search_first_marker[OF first]])
  qed
qed

theorem read_data_frame_status_witness:
  "fst (read_data_frame (Some [0x00, 0xFF, 0xF0, 0xFF]) main_header (Some zero_frame)) = READ_EOF \<and>
   (\<forall>k. take 3 (drop k [0x00, 0xFF, 0xF0, 0xFF]) \<noteq> bytes_of_u24 (beacon_id main_header)) \<and>
   length (take 109 sample_frame_bytes) < 110 \<and>
   fst (read_data_frame (Some ([0x00] @ bytes_of_u24 (beacon_id main_header) @ take 109 sample_frame_bytes))
          main_header (Some zero_frame)) = READ_FAIL"
proof -
  have h1: "\<forall>k. take 3 (drop k [0x00, 0xFF, 0xF0, 0xFF]) \<noteq> bytes_of_u24 (beacon_id main_header)"
    by (rule no_marker_by_search)
       (simp add: main_header_def header_match_insert_def header_found_def Let_def)
  have h2: "\<forall>k < length [0x00 :: uint8_t].
      take 3 (drop k ([0x00] @ bytes_of_u24 (beacon_id main_header) @ take 109 sample_frame_bytes)) \<noteq>
      bytes_of_u24 (beacon_id main_header)"
    by (simp add: main_header_def bytes_of_u24_def)
  have h3: "length (take 109 sample_frame_bytes) < 110"
    by simp
  from read_data_frame_status[of "Some [0x00, 0xFF, 0xF0, 0xFF]" main_header "Some zero_frame"] h1
  have 1: "fst (read_data_frame (Some [0x00, 0xFF, 0xF0, 0xFF]) main_header (Some zero_frame)) = READ_EOF"
    by simp
  from read_data_frame_status[of _ main_header _ "[0x00]" "take 109 sample_frame_bytes" zero_frame] h2 h3
  have 2: "fst (read_data_frame (Some ([0x00] @ bytes_of_u24 (beacon_id main_header) @ take 109 sample_frame_bytes))
          main_header (Some zero_frame)) = READ_FAIL"
    by blast
  from 1 h1 h3 2 show ?thesis by blast
qed

lemma after_first_SomeD:
  "after_first mk f = Some r \<Longrightarrow> \<exists>pre. f = pre @ mk @ r"
proof (induction f)
  case Nil
  then show ?case by simp
next
  case (Cons x xs)
  show ?case
  proof (cases "take (length mk) (x # xs) = mk")
    case True
    with Cons.prems have "r = drop (length mk) (x # xs)" by simp
    with True have "x # xs = [] @ mk @ r"
      by (metis append_Nil append_take_drop_id)
    then show ?thesis by blast
  next
    case False
    with Cons.prems have "after_first mk xs = Some r" by simp
    from Cons.IH[OF this] obtain pre where "xs = pre @ mk @ r" by blast
    then have "x # xs = (x # pre) @ mk @ r" by simp
    then show ?thesis by blast
  qed
qed

lemma BeaconFrame_of_bytes_prefix:
  assumes "110 \<le> length f"
  shows "BeaconFrame_of_bytes (take 110 f) = BeaconFrame_of_bytes f"
proof -
  have "BeaconFrame_of_bytes (BeaconFrame_bytes (BeaconFrame_of_bytes (take 110 f)) @ drop 110 f) =
      BeaconFrame_of_bytes (take 110 f)"
    by (rule BeaconFrame_of_bytes_bytes)
  moreover have "BeaconFrame_bytes (BeaconFrame_of_bytes (take 110 f)) = take 110 f"
    using assms by (simp add: BeaconFrame_bytes_of_bytes)
  ultimately show ?thesis by simp
qed

text \<open>C7, as the code has it. The fields are written into \<^verbatim>\<open>*out\<close> as they are read and
  nothing restores them: here the Platform section is accepted and the identifier of the
  Memory section is wrong; the call returns \<^verbatim>\<open>READ_FAIL\<close> and \<^verbatim>\<open>*out\<close>, all zero before
  the call, holds the decoded Platform section (its \<^verbatim>\<open>rtc_s\<close> bytes are 00 00 00 64,
  they were 00 00 00 00) and the rejected identifier.\<close>

theorem read_data_frame_leaves_partial_frame:
  "read_data_frame (Some ([0xFF, 0xFF, 0xF0] @ take 18 sample_frame_bytes @ [0xEE, 0xEE]))
     main_header (Some zero_frame) =
     (READ_FAIL, Some [],
      Some \<lparr>platform = PlatformTelemetrySchema_of_bytes sample_frame_bytes,
            memory = \<lparr>memory_telemetry_id = 0xEEEE,
                      heap_free_bytes = heap_free_bytes (memory zero_frame)\<rparr>,
            cdh = cdh zero_frame, power_sec = power_sec zero_frame, thermal = thermal zero_frame,
            aocs = aocs zero_frame, payload = payload zero_frame\<rparr>) \<and>
   bytes_of_u32 (rtc_s (PlatformTelemetrySchema_of_bytes sample_frame_bytes)) =
     [0x00, 0x00, 0x00, 0x64] \<and>
   bytes_of_u32 (rtc_s (platform zero_frame)) = [0x00, 0x00, 0x00, 0x00]"
proof -
  let ?ws = "take 18 sample_frame_bytes @ [0xEE, 0xEE]"
  have "read_fields frame_fields \<lparr>stream = ?ws, out = zero_frame\<rparr> =
     (READ_FAIL, \<lparr>stream = drop 20 ?ws,
        out = zero_frame\<lparr>platform := PlatformTelemetrySchema_of_bytes ?ws,
          memory := (memory zero_frame)\<lparr>memory_telemetry_id := u16_of_bytes (take 2 (drop 18 ?ws))\<rparr>\<rparr>\<rparr>)"
    by (rule frame_wrong_MEMORY) (simp_all add: sample_frame_bytes_def)
  moreover have "PlatformTelemetrySchema_of_bytes ?ws = PlatformTelemetrySchema_of_bytes sample_frame_bytes"
    by (simp add: PlatformTelemetrySchema_of_bytes_def sample_frame_bytes_def)
  moreover have "u16_of_bytes (take 2 (drop 18 ?ws)) = 0xEEEE"
    by (simp add: sample_frame_bytes_def u16_of_bytes_def)
  moreover have "drop 20 ?ws = []"
    by (simp add: sample_frame_bytes_def)
  moreover have "zero_frame\<lparr>platform := p, memory := (memory zero_frame)\<lparr>memory_telemetry_id := i\<rparr>\<rparr> =
      \<lparr>platform = p,
       memory = \<lparr>memory_telemetry_id = i, heap_free_bytes = heap_free_bytes (memory zero_frame)\<rparr>,
       cdh = cdh zero_frame, power_sec = power_sec zero_frame, thermal = thermal zero_frame,
       aocs = aocs zero_frame, payload = payload zero_frame\<rparr>" for p i
    by (cases zero_frame; cases "memory zero_frame") simp
  ultimately have "read_data_frame (Some (bytes_of_u24 (beacon_id main_header) @ ?ws))
     main_header (Some zero_frame) =
     (READ_FAIL, Some [],
      Some \<lparr>platform = PlatformTelemetrySchema_of_bytes sample_frame_bytes,
            memory = \<lparr>memory_telemetry_id = 0xEEEE,
                      heap_free_bytes = heap_free_bytes (memory zero_frame)\<rparr>,
            cdh = cdh zero_frame, power_sec = power_sec zero_frame, thermal = thermal zero_frame,
            aocs = aocs zero_frame, payload = payload zero_frame\<rparr>)"
    by (simp add: read_data_frame_at_marker)
  moreover have "bytes_of_u32 (rtc_s (PlatformTelemetrySchema_of_bytes sample_frame_bytes)) =
      [0x00, 0x00, 0x00, 0x64]"
    by (simp add: PlatformTelemetrySchema_of_bytes_def sample_frame_bytes_def bytes_of_u32_of4)
  moreover have "bytes_of_u32 (rtc_s (platform zero_frame)) = [0x00, 0x00, 0x00, 0x00]"
  proof -
    have "replicate 4 (0 :: uint8_t) = [0, 0, 0, 0]"
      by (simp add: numeral_eq_Suc)
    then show ?thesis
      by (simp add: zero_frame_def BeaconFrame_of_bytes_def PlatformTelemetrySchema_of_bytes_def
          bytes_of_u32_of4)
  qed
  ultimately show ?thesis
    by (simp add: main_header_def bytes_of_u24_def)
qed

text \<open>C7, amended. \<^verbatim>\<open>READ_OK\<close> is returned only for a fully populated frame: the marker
  is followed by 110 bytes \<open>ws\<close> whose seven identifiers are the expected ones, the file is
  left after them, and \<^verbatim>\<open>*out\<close> holds exactly these bytes. When \<^verbatim>\<open>READ_EOF\<close> is
  returned, \<^verbatim>\<open>*out\<close> is what it was before the call.\<close>

theorem read_data_frame_output:
  "(fst (read_data_frame file_ptr header out_ptr) = READ_EOF \<longrightarrow>
      snd (snd (read_data_frame file_ptr header out_ptr)) = out_ptr) \<and>
   (read_data_frame file_ptr header out_ptr = (READ_OK, file', out') \<longrightarrow>
      (\<exists>pre ws rest fr. file_ptr = Some (pre @ bytes_of_u24 (beacon_id header) @ ws @ rest) \<and>
         out_ptr = Some fr \<and> length ws = 110 \<and>
         take 2 ws = [0x00, 0x01] \<and> take 2 (drop 18 ws) = [0x01, 0x01] \<and>
         take 2 (drop 24 ws) = [0x02, 0x01] \<and> take 2 (drop 31 ws) = [0x03, 0x01] \<and>
         take 2 (drop 49 ws) = [0x04, 0x01] \<and> take 2 (drop 55 ws) = [0x05, 0x01] \<and>
         take 2 (drop 101 ws) = [0x06, 0x01] \<and>
         file' = Some rest \<and> out' = Some (BeaconFrame_of_bytes ws) \<and>
         BeaconFrame_bytes (BeaconFrame_of_bytes ws) = ws))"
proof (intro conjI impI)
  assume eof: "fst (read_data_frame file_ptr header out_ptr) = READ_EOF"
  show "snd (snd (read_data_frame file_ptr header out_ptr)) = out_ptr"
  proof (cases file_ptr)
    case None
    then show ?thesis by (simp add: read_data_frame_def)
  next
    case (Some f)
    note f = this
    show ?thesis
    proof (cases out_ptr)
      case None
      with f show ?thesis by (simp add: read_data_frame_def)
    next
      case (Some fr)
      note fr = this
      show ?thesis
      proof (cases "search_beacon_id header (0, 0, 0) 0 f")
        case None
        with f fr show ?thesis by (simp add: read_data_frame_def)
      next
        case (Some f')
        have "fst (read_data_frame (Some f) header (Some fr)) \<noteq> READ_EOF"
          using read_fields_not_EOF[of frame_fields "\<lparr>stream = f', out = fr\<rparr>"]
          by (cases "read_fields frame_fields \<lparr>stream = f', out = fr\<rparr>")
             (simp add: read_data_frame_after_search[OF Some])
        with eof f fr show ?thesis by simp
      qed
    qed
  qed
next
  assume ok: "read_data_frame file_ptr header out_ptr = (READ_OK, file', out')"
  obtain f fr where f: "file_ptr = Some f" and fr: "out_ptr = Some fr"
    using ok by (cases file_ptr; cases out_ptr) (simp_all add: read_data_frame_def)
  obtain f1 where f1: "search_beacon_id header (0, 0, 0) 0 f = Some f1"
    using ok f fr by (cases "search_beacon_id header (0, 0, 0) 0 f") (simp_all add: read_data_frame_def)
  obtain s where s: "read_fields frame_fields \<lparr>stream = f1, out = fr\<rparr> = (READ_OK, s)"
    and res: "file' = Some (stream s)" "out' = Some (out s)"
    using ok f fr
    by (cases "read_fields frame_fields \<lparr>stream = f1, out = fr\<rparr>")
       (simp add: read_data_frame_after_search[OF f1])
  from s have ids: "110 \<le> length f1 \<and>
     take 2 f1 = [0x00, 0x01] \<and> take 2 (drop 18 f1) = [0x01, 0x01] \<and>
     take 2 (drop 24 f1) = [0x02, 0x01] \<and> take 2 (drop 31 f1) = [0x03, 0x01] \<and>
     take 2 (drop 49 f1) = [0x04, 0x01] \<and> take 2 (drop 55 f1) = [0x05, 0x01] \<and>
     take 2 (drop 101 f1) = [0x06, 0x01]"
    using frame_ok_ids[of f1 fr] by simp
  then have len: "110 \<le> length f1" by simp
  from ids have "read_fields frame_fields \<lparr>stream = f1, out = fr\<rparr> =
     (READ_OK, \<lparr>stream = drop 110 f1, out = BeaconFrame_of_bytes f1\<rparr>)"
    by (intro frame_run_ok) simp_all
  with s have s_eq: "stream s = drop 110 f1" "out s = BeaconFrame_of_bytes f1"
    by auto
  obtain pre where pre: "f = pre @ bytes_of_u24 (beacon_id header) @ f1"
    using after_first_SomeD[of "bytes_of_u24 (beacon_id header)" f f1] f1
    by (auto simp: search_is_after_first)
  let ?ws = "take 110 f1"
  have "file_ptr = Some (pre @ bytes_of_u24 (beacon_id header) @ ?ws @ drop 110 f1)"
    using f pre by simp
  moreover have "length ?ws = 110" using len by simp
  moreover have "take 2 ?ws = [0x00, 0x01]" "take 2 (drop 18 ?ws) = [0x01, 0x01]"
    "take 2 (drop 24 ?ws) = [0x02, 0x01]" "take 2 (drop 31 ?ws) = [0x03, 0x01]"
    "take 2 (drop 49 ?ws) = [0x04, 0x01]" "take 2 (drop 55 ?ws) = [0x05, 0x01]"
    "take 2 (drop 101 ?ws) = [0x06, 0x01]"
    using ids by (simp_all add: drop_take)
  moreover have "out' = Some (BeaconFrame_of_bytes ?ws)"
    using res s_eq len by (simp add: BeaconFrame_of_bytes_prefix)
  moreover have "BeaconFrame_bytes (BeaconFrame_of_bytes ?ws) = ?ws"
    using len by (simp add: BeaconFrame_bytes_of_bytes)
  moreover have "file' = Some (drop 110 f1)"
    using res s_eq by simp
  ultimately show "\<exists>pre ws rest fr. file_ptr = Some (pre @ bytes_of_u24 (beacon_id header) @ ws @ rest) \<and>
         out_ptr = Some fr \<and> length ws = 110 \<and>
         take 2 ws = [0x00, 0x01] \<and> take 2 (drop 18 ws) = [0x01, 0x01] \<and>
         take 2 (drop 24 ws) = [0x02, 0x01] \<and> take 2 (drop 31 ws) = [0x03, 0x01] \<and>
         take 2 (drop 49 ws) = [0x04, 0x01] \<and> take 2 (drop 55 ws) = [0x05, 0x01] \<and>
         take 2 (drop 101 ws) = [0x06, 0x01] \<and>
         file' = Some rest \<and> out' = Some (BeaconFrame_of_bytes ws) \<and>
         BeaconFrame_bytes (BeaconFrame_of_bytes ws) = ws"
    using fr by blast
qed

theorem read_data_frame_output_witness:
  "fst (read_data_frame (Some [0x00, 0xFF]) main_header (Some zero_frame)) = READ_EOF \<and>
   snd (snd (read_data_frame (Some [0x00, 0xFF]) main_header (Some zero_frame))) = Some zero_frame \<and>
   read_data_frame (Some ([0xFF, 0xFF, 0xF0] @ sample_frame_bytes)) main_header (Some zero_frame) =
     (READ_OK, Some [], Some (BeaconFrame_of_bytes sample_frame_bytes)) \<and>
   (\<exists>pre ws rest fr.
      Some ([0xFF, 0xFF, 0xF0] @ sample_frame_bytes) =
        Some (pre @ bytes_of_u24 (beacon_id main_header) @ ws @ rest) \<and>
      Some zero_frame = Some fr \<and> length ws = 110 \<and>
      take 2 ws = [0x00, 0x01] \<and> take 2 (drop 18 ws) = [0x01, 0x01] \<and>
      take 2 (drop 24 ws) = [0x02, 0x01] \<and> take 2 (drop 31 ws) = [0x03, 0x01] \<and>
      take 2 (drop 49 ws) = [0x04, 0x01] \<and> take 2 (drop 55 ws) = [0x05, 0x01] \<and>
      take 2 (drop 101 ws) = [0x06, 0x01] \<and>
      Some [] = Some rest \<and>
      Some (BeaconFrame_of_bytes sample_frame_bytes) = Some (BeaconFrame_of_bytes ws) \<and>
      BeaconFrame_bytes (BeaconFrame_of_bytes ws) = ws)"
proof -
  have eof: "fst (read_data_frame (Some [0x00, 0xFF]) main_header (Some zero_frame)) = READ_EOF"
    by (simp add: read_data_frame_def main_header_def header_match_insert_def header_found_def Let_def)
  have ok: "read_data_frame (Some ([0xFF, 0xFF, 0xF0] @ sample_frame_bytes)) main_header (Some zero_frame) =
     (READ_OK, Some [], Some (BeaconFrame_of_bytes sample_frame_bytes))"
    using read_data_frame_at_marker[of main_header sample_frame_bytes zero_frame]
      read_sample_frame[of "[]" zero_frame]
    by (simp add: main_header_def bytes_of_u24_def)
  from read_data_frame_output[of "Some [0x00, 0xFF]" main_header "Some zero_frame"] eof
  have 1: "snd (snd (read_data_frame (Some [0x00, 0xFF]) main_header (Some zero_frame))) = Some zero_frame"
    by blast
  from read_data_frame_output[of "Some ([0xFF, 0xFF, 0xF0] @ sample_frame_bytes)" main_header
      "Some zero_frame" "Some []" "Some (BeaconFrame_of_bytes sample_frame_bytes)"] ok
  have 2: "\<exists>pre ws rest fr.
      Some ([0xFF, 0xFF, 0xF0] @ sample_frame_bytes) =
        Some (pre @ bytes_of_u24 (beacon_id main_header) @ ws @ rest) \<and>
      Some zero_frame = Some fr \<and> length ws = 110 \<and>
      take 2 ws = [0x00, 0x01] \<and> take 2 (drop 18 ws) = [0x01, 0x01] \<and>
      take 2 (drop 24 ws) = [0x02, 0x01] \<and> take 2 (drop 31 ws) = [0x03, 0x01] \<and>
      take 2 (drop 49 ws) = [0x04, 0x01] \<and> take 2 (drop 55 ws) = [0x05, 0x01] \<and>
      take 2 (drop 101 ws) = [0x06, 0x01] \<and>
      Some [] = Some rest \<and>
      Some (BeaconFrame_of_bytes sample_frame_bytes) = Some (BeaconFrame_of_bytes ws) \<and>
      BeaconFrame_bytes (BeaconFrame_of_bytes ws) = ws"
    by blast
  from eof 1 ok 2 show ?thesis by blast
qed

section \<open>Removal of duplicates\<close>

lemma run_heads_Nil_iff [simp]: "run_heads key xs = [] \<longleftrightarrow> xs = []"
  by (induction key xs rule: run_heads.induct) auto

lemma length_run_heads: "length (run_heads key xs) \<le> length xs"
  by (induction key xs rule: run_heads.induct) auto

lemma key_last_run_heads:
  "xs \<noteq> [] \<Longrightarrow> key (last (run_heads key xs)) = key (last xs)"
  by (induction key xs rule: run_heads.induct) auto

lemma run_heads_snoc:
  "xs \<noteq> [] \<Longrightarrow>
     run_heads key (xs @ [y]) =
       (if key (last (run_heads key xs)) = key y then run_heads key xs else run_heads key xs @ [y])"
proof (induction key xs rule: run_heads.induct)
  case (1 key)
  then show ?case by simp
next
  case (2 key x)
  then show ?case by simp
next
  case (3 key x z xs)
  show ?case
  proof (cases "key x = key z")
    case True
    with 3 show ?thesis by simp
  next
    case False
    with 3 show ?thesis by simp
  qed
qed

lemma set_run_heads_subset: "set (run_heads key xs) \<subseteq> set xs"
  by (induction key xs rule: run_heads.induct) auto

lemma key_set_run_heads: "key ` set (run_heads key xs) = key ` set xs"
  by (induction key xs rule: run_heads.induct) auto

lemma run_heads_strictly_sorted:
  "sorted (map key xs) \<Longrightarrow> sorted_wrt (<) (map key (run_heads key xs))"
proof (induction key xs rule: run_heads.induct)
  case (1 key)
  then show ?case by simp
next
  case (2 key x)
  then show ?case by simp
next
  case (3 key x y xs)
  show ?case
  proof (cases "key x = key y")
    case True
    with 3 show ?thesis by simp
  next
    case False
    with "3.prems" have lt: "key x < key y" by auto
    have "\<forall>z \<in> set (run_heads key (y # xs)). key y \<le> key z"
      using "3.prems" set_run_heads_subset[of key "y # xs"] by auto
    with lt have "\<forall>z \<in> set (run_heads key (y # xs)). key x < key z"
      by auto
    with 3 False show ?thesis by simp
  qed
qed

lemma run_heads_sorted:
  assumes "sorted (map key xs)"
  shows "sorted (map key (run_heads key xs))" "distinct (map key (run_heads key xs))"
    "length (run_heads key xs) = card (key ` set xs)"
proof -
  have s: "sorted_wrt (<) (map key (run_heads key xs))"
    using assms by (rule run_heads_strictly_sorted)
  then show "sorted (map key (run_heads key xs))" and d: "distinct (map key (run_heads key xs))"
    by (simp_all add: strict_sorted_iff)
  have "length (run_heads key xs) = length (map key (run_heads key xs))"
    by simp
  also have "\<dots> = card (set (map key (run_heads key xs)))"
    using d by (simp only: distinct_card)
  also have "\<dots> = card (key ` set xs)"
    by (simp add: key_set_run_heads)
  finally show "length (run_heads key xs) = card (key ` set xs)" .
qed

text \<open>Arrays of elements of \<open>s\<close> bytes each, \<open>enc\<close> giving the bytes of an element.\<close>

lemma length_concat_map_enc:
  "(\<And>a. length (enc a) = s) \<Longrightarrow> length (concat (map enc xs)) = length xs * s"
  by (induction xs) simp_all

lemma memmove_element:
  assumes "length h = dest" "length e = n" "length m = n" "length (h @ m @ g) = src"
  shows "memmove (h @ m @ g @ e @ t) dest src n = h @ e @ g @ e @ t"
proof -
  have "drop src (h @ m @ g @ e @ t) = e @ t"
    using assms(4) by (metis append.assoc append_eq_conv_conj)
  then have "take n (drop src (h @ m @ g @ e @ t)) = e"
    using assms(2) by simp
  moreover have "take dest (h @ m @ g @ e @ t) = h"
    using assms(1) by simp
  moreover have "drop (dest + n) (h @ m @ g @ e @ t) = g @ e @ t"
    using assms(1,3) by simp
  ultimately show ?thesis
    by (simp add: memmove_def)
qed

text \<open>The invariant of the loop, for an array that holds the elements \<open>xs\<close> followed by
  the bytes \<open>rest\<close>: the first \<open>keep_index\<close> elements are the heads of the runs among the
  first \<open>i\<close> elements of \<open>xs\<close>, the elements from \<open>i\<close> on are untouched, and so is \<open>rest\<close>;
  \<open>mid\<close> is what the elements between \<open>keep_index\<close> and \<open>i\<close> hold.\<close>

lemma array_duplicate_removal_loop_spec:
  fixes enc :: "'a \<Rightarrow> uint8_t list"
  assumes enc: "\<And>a. length (enc a) = s"
    and cmp: "\<And>a b r1 r2. comparator (enc a @ r1) (enc b @ r2) = 0 \<longleftrightarrow> key a = key b"
  shows "1 \<le> i \<Longrightarrow> i \<le> length xs \<Longrightarrow>
     length mid = (i - length (run_heads key (take i xs))) * s \<Longrightarrow>
     array_duplicate_removal_loop comparator (length xs) s i (length (run_heads key (take i xs)))
       (concat (map enc (run_heads key (take i xs))) @ mid @ concat (map enc (drop i xs)) @ rest) =
       (k, p') \<Longrightarrow>
     k = length (run_heads key xs) \<and>
     (\<exists>mid'. length mid' = (length xs - k) * s \<and>
        p' = concat (map enc (run_heads key xs)) @ mid' @ rest)"
proof (induction "length xs - i" arbitrary: i mid)
  case 0
  then have "i = length xs" by simp
  with "0.prems" show ?case
    by (auto simp: array_duplicate_removal_loop.simps[of comparator "length xs"])
next
  case (Suc d)
  let ?H = "run_heads key (take i xs)"
  let ?k = "length ?H"
  let ?x = "xs ! i"
  let ?E = "\<lambda>l. concat (map enc l)"
  let ?p = "?E ?H @ mid @ ?E (drop i xs) @ rest"
  have i_len: "i < length xs" using Suc.hyps(2) by simp
  have i1: "1 \<le> i" using Suc.prems by simp
  have mid: "length mid = (i - ?k) * s" using Suc.prems by simp
  have run: "array_duplicate_removal_loop comparator (length xs) s i ?k ?p = (k, p')"
    using Suc.prems by simp
  have nonempty: "take i xs \<noteq> []" using i1 i_len by auto
  then have H_ne: "?H \<noteq> []" by simp
  have k_i: "?k \<le> i"
    using length_run_heads[of key "take i xs"] i_len by simp
  have k1: "1 \<le> ?k" using H_ne by (cases ?H) auto
  have lenE: "\<And>l. length (?E l) = length l * s"
    by (rule length_concat_map_enc) (rule enc)
  have dropi: "drop i xs = ?x # drop (i + 1) xs"
    using i_len by (simp add: Cons_nth_drop_Suc)
  have len_pre: "length (?E ?H @ mid) = i * s"
  proof -
    have "length (?E ?H @ mid) = ?k * s + (i - ?k) * s" by (simp add: lenE mid)
    also have "\<dots> = (?k + (i - ?k)) * s" by (simp only: add_mult_distrib)
    also have "\<dots> = i * s" using k_i by simp
    finally show ?thesis .
  qed
  have cur: "drop (i * s) ?p = enc ?x @ ?E (drop (i + 1) xs) @ rest"
  proof -
    have "drop (i * s) ((?E ?H @ mid) @ ?E (drop i xs) @ rest) = ?E (drop i xs) @ rest"
      using len_pre by (metis append_eq_conv_conj)
    then show ?thesis by (simp add: dropi)
  qed
  have prev: "drop ((?k - 1) * s) ?p = enc (last ?H) @ mid @ ?E (drop i xs) @ rest"
  proof -
    have H: "?H = butlast ?H @ [last ?H]" using H_ne by simp
    have "?E ?H = ?E (butlast ?H) @ enc (last ?H)"
      by (subst H) simp
    moreover have "length (?E (butlast ?H)) = (?k - 1) * s"
      by (simp add: lenE)
    ultimately have "drop ((?k - 1) * s) (?E (butlast ?H) @ enc (last ?H) @ mid @ ?E (drop i xs) @ rest)
        = enc (last ?H) @ mid @ ?E (drop i xs) @ rest"
      by (metis append_eq_conv_conj)
    with \<open>?E ?H = ?E (butlast ?H) @ enc (last ?H)\<close> show ?thesis by simp
  qed
  have test: "comparator (drop (i * s) ?p) (drop ((?k - 1) * s) ?p) = 0 \<longleftrightarrow> key ?x = key (last ?H)"
    unfolding cur prev by (rule cmp)
  have snoc: "take (i + 1) xs = take i xs @ [?x]"
    using i_len by (simp add: take_Suc_conv_app_nth)
  have rh: "run_heads key (take (i + 1) xs) =
      (if key (last ?H) = key ?x then ?H else ?H @ [?x])"
    unfolding snoc by (rule run_heads_snoc[OF nonempty])
  have d: "d = length xs - (i + 1)" using Suc.hyps(2) by simp
  have i1': "1 \<le> i + 1" by simp
  have i_len': "i + 1 \<le> length xs" using i_len by simp
  show ?case
  proof (cases "key ?x = key (last ?H)")
    case same: True
    then have rh': "run_heads key (take (i + 1) xs) = ?H" using rh by simp
    have res: "array_duplicate_removal_loop comparator (length xs) s (i + 1) ?k ?p = (k, p')"
      using run i_len same test
      by (subst (asm) array_duplicate_removal_loop.simps) (simp add: Let_def)
    let ?mid = "mid @ enc ?x"
    have p: "?p = ?E ?H @ ?mid @ ?E (drop (i + 1) xs) @ rest"
      by (simp add: dropi)
    have lm: "length ?mid = (i + 1 - ?k) * s"
    proof -
      have "length ?mid = (i - ?k) * s + s" by (simp add: mid enc)
      also have "\<dots> = (i - ?k + 1) * s" by simp
      also have "i - ?k + 1 = i + 1 - ?k" using k_i by simp
      finally show ?thesis .
    qed
    have lm': "length ?mid = (i + 1 - length (run_heads key (take (i + 1) xs))) * s"
      using lm by (simp only: rh')
    from res have res': "array_duplicate_removal_loop comparator (length xs) s (i + 1)
        (length (run_heads key (take (i + 1) xs)))
        (?E (run_heads key (take (i + 1) xs)) @ ?mid @ ?E (drop (i + 1) xs) @ rest) = (k, p')"
      unfolding rh' p .
    show ?thesis
      by (rule Suc.hyps(1)[OF d i1' i_len' lm' res'])
  next
    case diff: False
    then have rh': "run_heads key (take (i + 1) xs) = ?H @ [?x]" using rh by auto
    have len': "length (run_heads key (take (i + 1) xs)) = ?k + 1"
      unfolding rh' by simp
    let ?q = "if ?k \<noteq> i then memmove ?p (?k * s) (i * s) s else ?p"
    have res: "array_duplicate_removal_loop comparator (length xs) s (i + 1) (?k + 1) ?q = (k, p')"
      using run i_len diff test
      by (subst (asm) array_duplicate_removal_loop.simps) (simp add: Let_def)
    have "\<exists>mid'. length mid' = (i - ?k) * s \<and>
        ?q = ?E (?H @ [?x]) @ mid' @ ?E (drop (i + 1) xs) @ rest"
    proof (cases "?k = i")
      case True
      with mid have "mid = []" by simp
      with True show ?thesis by (simp add: dropi)
    next
      case False
      with k_i have lt: "?k < i" by simp
      then have "s \<le> (i - ?k) * s" by (cases "i - ?k") simp_all
      then have ls: "s \<le> length mid" by (simp add: mid)
      define m where "m = take s mid"
      define g where "g = drop s mid"
      have mid_split: "mid = m @ g" by (simp add: m_def g_def)
      have lm: "length m = s" using ls by (simp add: m_def)
      have lg: "length g = (i - ?k) * s - s" by (simp add: g_def mid)
      have lh: "length (?E ?H) = ?k * s" by (simp add: lenE)
      have lsrc: "length (?E ?H @ m @ g) = i * s"
        using len_pre by (simp add: mid_split)
      have "memmove (?E ?H @ m @ g @ enc ?x @ (?E (drop (i + 1) xs) @ rest)) (?k * s) (i * s) s =
          ?E ?H @ enc ?x @ g @ enc ?x @ (?E (drop (i + 1) xs) @ rest)"
        by (rule memmove_element[OF lh enc lm lsrc])
      then have "?q = ?E (?H @ [?x]) @ (g @ enc ?x) @ ?E (drop (i + 1) xs) @ rest"
        using False by (simp add: dropi mid_split)
      moreover have "length (g @ enc ?x) = (i - ?k) * s"
        using lg \<open>s \<le> (i - ?k) * s\<close> by (simp add: enc)
      ultimately show ?thesis by blast
    qed
    then obtain mid' where lm: "length mid' = (i - ?k) * s"
      and q: "?q = ?E (?H @ [?x]) @ mid' @ ?E (drop (i + 1) xs) @ rest"
      by blast
    have lm': "length mid' = (i + 1 - length (run_heads key (take (i + 1) xs))) * s"
      unfolding len' using lm by simp
    from res have res': "array_duplicate_removal_loop comparator (length xs) s (i + 1)
        (length (run_heads key (take (i + 1) xs)))
        (?E (run_heads key (take (i + 1) xs)) @ mid' @ ?E (drop (i + 1) xs) @ rest) = (k, p')"
      unfolding q rh' by simp
    show ?thesis
      by (rule Suc.hyps(1)[OF d i1' i_len' lm' res'])
  qed
qed

text \<open>The bounds of the returned index hold for any array and any comparator.\<close>

lemma array_duplicate_removal_loop_bounds:
  "array_duplicate_removal_loop comparator n size' i keep_index p = (k, p') \<Longrightarrow>
     keep_index \<le> k \<and> k \<le> keep_index + (n - i)"
proof (induction comparator n size' i keep_index p rule: array_duplicate_removal_loop.induct)
  case (1 comparator n size' i keep_index p)
  show ?case
  proof (cases "i < n")
    case False
    with "1.prems" show ?thesis
      by (simp add: array_duplicate_removal_loop.simps[of comparator n size' i])
  next
    case True
    show ?thesis
    proof (cases "comparator (drop (i * size') p) (drop ((keep_index - 1) * size') p) \<noteq> 0")
      case diff: True
      have "array_duplicate_removal_loop comparator n size' (i + 1) (keep_index + 1)
          (if keep_index \<noteq> i then memmove p (keep_index * size') (i * size') size' else p) = (k, p')"
        using "1.prems" True diff
        by (subst (asm) array_duplicate_removal_loop.simps) (simp add: Let_def)
      from "1.IH"(1)[OF True refl refl diff this] True show ?thesis
        by linarith
    next
      case same: False
      have "array_duplicate_removal_loop comparator n size' (i + 1) keep_index p = (k, p')"
        using "1.prems" True same
        by (subst (asm) array_duplicate_removal_loop.simps) (simp add: Let_def)
      from "1.IH"(2)[OF True refl refl same this] True show ?thesis
        by linarith
    qed
  qed
qed

lemma array_duplicate_removal_run_heads:
  fixes enc :: "'a \<Rightarrow> uint8_t list"
  assumes enc: "\<And>a. length (enc a) = s"
    and cmp: "\<And>a b r1 r2. comparator (enc a @ r1) (enc b @ r2) = 0 \<longleftrightarrow> key a = key b"
    and s: "0 < s" and ne: "xs \<noteq> []"
  shows "\<exists>mid. array_duplicate_removal (Some (concat (map enc xs) @ rest)) (length xs) s
             (Some comparator) =
           (length (run_heads key xs),
            Some (concat (map enc (run_heads key xs)) @ mid @ rest)) \<and>
         length mid = (length xs - length (run_heads key xs)) * s"
proof -
  obtain x xs' where xs: "xs = x # xs'" using ne by (cases xs) auto
  obtain k p' where run: "array_duplicate_removal_loop comparator (length xs) s 1 1
      (concat (map enc xs) @ rest) = (k, p')"
    by (cases "array_duplicate_removal_loop comparator (length xs) s 1 1 (concat (map enc xs) @ rest)")
  have first: "run_heads key (take 1 xs) = [x]" by (simp add: xs)
  have p: "concat (map enc xs) @ rest =
      concat (map enc (run_heads key (take 1 xs))) @ [] @ concat (map enc (drop 1 xs)) @ rest"
    by (simp add: first) (simp add: xs)
  have run': "array_duplicate_removal_loop comparator (length xs) s 1
      (length (run_heads key (take 1 xs)))
      (concat (map enc (run_heads key (take 1 xs))) @ [] @ concat (map enc (drop 1 xs)) @ rest) =
      (k, p')"
    using run unfolding p[symmetric] by (simp add: xs)
  have "k = length (run_heads key xs) \<and>
     (\<exists>mid'. length mid' = (length xs - k) * s \<and>
        p' = concat (map enc (run_heads key xs)) @ mid' @ rest)"
    by (rule array_duplicate_removal_loop_spec[OF enc cmp _ _ _ run'])
       (simp_all add: xs first)
  then show ?thesis
    using s ne run by (auto simp: array_duplicate_removal_def)
qed

lemma length_ThermalTelemetryCalibrated_bytes:
  "length (ThermalTelemetryCalibrated_bytes a) = sizeof_ThermalTelemetryCalibrated"
  by (simp add: ThermalTelemetryCalibrated_bytes_def bytes_of_float_def
      sizeof_ThermalTelemetryCalibrated_def)

lemma timestamp_member_ThermalTelemetryCalibrated:
  "timestamp_member (ThermalTelemetryCalibrated_bytes a @ r) = thermal_telemetry_timestamp a"
  by (simp add: timestamp_member_def ThermalTelemetryCalibrated_bytes_def)

lemma thermal_timestamp_comparator_0:
  "thermal_timestamp_comparator (ThermalTelemetryCalibrated_bytes a @ r1)
       (ThermalTelemetryCalibrated_bytes b @ r2) = 0 \<longleftrightarrow>
     thermal_telemetry_timestamp a = thermal_telemetry_timestamp b"
  by (auto simp: thermal_timestamp_comparator_def timestamp_member_ThermalTelemetryCalibrated)

lemma length_ThermalTelemetryCalibrated_array:
  "length (ThermalTelemetryCalibrated_array xs) = length xs * sizeof_ThermalTelemetryCalibrated"
  unfolding ThermalTelemetryCalibrated_array_def
  by (rule length_concat_map_enc) (rule length_ThermalTelemetryCalibrated_bytes)

lemma array_duplicate_removal_elements:
  fixes enc :: "'a \<Rightarrow> uint8_t list"
  assumes enc: "\<And>a. length (enc a) = s"
    and cmp: "\<And>a b r1 r2. comparator (enc a @ r1) (enc b @ r2) = 0 \<longleftrightarrow> key a = key b"
    and s: "0 < s" and ne: "xs \<noteq> []"
  shows "\<exists>zs. array_duplicate_removal (Some (concat (map enc xs) @ rest)) (length xs) s
             (Some comparator) = (length (run_heads key xs), Some zs) \<and>
         length zs = length xs * s + length rest \<and>
         take (length (run_heads key xs) * s) zs = concat (map enc (run_heads key xs)) \<and>
         drop (length xs * s) zs = rest"
proof -
  let ?H = "run_heads key xs"
  from array_duplicate_removal_run_heads[where enc = enc and comparator = comparator
      and key = key and rest = rest, OF enc cmp s ne]
  obtain mid where run: "array_duplicate_removal (Some (concat (map enc xs) @ rest)) (length xs) s
             (Some comparator) = (length ?H, Some (concat (map enc ?H) @ mid @ rest))"
    and mid: "length mid = (length xs - length ?H) * s"
    by blast
  have lenH: "length (concat (map enc ?H)) = length ?H * s"
    by (rule length_concat_map_enc) (rule enc)
  have "length (concat (map enc ?H) @ mid) = length ?H * s + (length xs - length ?H) * s"
    by (simp add: lenH mid)
  also have "\<dots> = (length ?H + (length xs - length ?H)) * s"
    by (simp only: add_mult_distrib)
  also have "\<dots> = length xs * s"
    using length_run_heads[of key xs] by simp
  finally have pre: "length (concat (map enc ?H) @ mid) = length xs * s" .
  have "length (concat (map enc ?H) @ mid @ rest) = length xs * s + length rest"
    using pre by simp
  moreover have "take (length ?H * s) (concat (map enc ?H) @ mid @ rest) = concat (map enc ?H)"
    using lenH by simp
  moreover have "drop (length xs * s) ((concat (map enc ?H) @ mid) @ rest) = rest"
    using pre by (metis append_eq_conv_conj)
  ultimately show ?thesis
    using run by simp
qed

text \<open>C4. The array holds the series \<open>xs\<close>, sorted by timestamp, as structures of
  \<^verbatim>\<open>sizeof(ThermalTelemetryCalibrated)\<close> bytes each, followed by the bytes \<open>rest\<close> up to the
  end of the allocation. \<^verbatim>\<open>array_duplicate_removal\<close>, called as in
  \<^verbatim>\<open>process_thermal_data\<close> with the number of elements, the size of the structure and the
  timestamp comparator, returns the number \<open>k\<close> of distinct timestamps, and the first \<open>k\<close>
  structures of the array are then the first elements of the runs of equal timestamps, in
  their order, with strictly ascending timestamps; the array keeps its size and \<open>rest\<close> is
  untouched. In particular, when \<^verbatim>\<open>qsort\<close> has turned records with the timestamps
  5, 3, 3, 1, 5 into a sorted permutation \<open>ys\<close>, the timestamps of \<open>ys\<close> are 1, 3, 3, 5, 5,
  the returned length is 3 and the kept records are the elements 0, 1 and 3 of \<open>ys\<close>, with
  the timestamps 1, 3, 5: the first of each run after sorting.\<close>

theorem array_duplicate_removal_sorted_series:
  "(sorted (map thermal_telemetry_timestamp xs) \<and>
    array_duplicate_removal (Some (ThermalTelemetryCalibrated_array xs @ rest)) (length xs)
      sizeof_ThermalTelemetryCalibrated (Some thermal_timestamp_comparator) = (k, arr) \<longrightarrow>
      k = card (thermal_telemetry_timestamp ` set xs) \<and>
      (\<exists>zs. arr = Some zs \<and>
         length zs = length xs * sizeof_ThermalTelemetryCalibrated + length rest \<and>
         take (k * sizeof_ThermalTelemetryCalibrated) zs =
           ThermalTelemetryCalibrated_array (run_heads thermal_telemetry_timestamp xs) \<and>
         drop (length xs * sizeof_ThermalTelemetryCalibrated) zs = rest \<and>
         sorted (map thermal_telemetry_timestamp (run_heads thermal_telemetry_timestamp xs)) \<and>
         distinct (map thermal_telemetry_timestamp (run_heads thermal_telemetry_timestamp xs)))) \<and>
   (map thermal_telemetry_timestamp xs0 = [5, 3, 3, 1, 5] \<and> mset ys = mset xs0 \<and>
    sorted (map thermal_telemetry_timestamp ys) \<and>
    array_duplicate_removal (Some (ThermalTelemetryCalibrated_array ys @ rest')) (length ys)
      sizeof_ThermalTelemetryCalibrated (Some thermal_timestamp_comparator) = (k', arr') \<longrightarrow>
      map thermal_telemetry_timestamp ys = [1, 3, 3, 5, 5] \<and> k' = 3 \<and>
      (\<exists>zs. arr' = Some zs \<and>
         take (3 * sizeof_ThermalTelemetryCalibrated) zs =
           ThermalTelemetryCalibrated_array [ys ! 0, ys ! 1, ys ! 3]) \<and>
      map thermal_telemetry_timestamp [ys ! 0, ys ! 1, ys ! 3] = [1, 3, 5])"
proof (rule conjI; rule impI)
  let ?s = sizeof_ThermalTelemetryCalibrated
  let ?ts = thermal_telemetry_timestamp
  assume "sorted (map ?ts xs) \<and>
    array_duplicate_removal (Some (ThermalTelemetryCalibrated_array xs @ rest)) (length xs)
      ?s (Some thermal_timestamp_comparator) = (k, arr)"
  then have srt: "sorted (map ?ts xs)"
    and run: "array_duplicate_removal (Some (ThermalTelemetryCalibrated_array xs @ rest)) (length xs)
      ?s (Some thermal_timestamp_comparator) = (k, arr)"
    by simp_all
  show "k = card (?ts ` set xs) \<and>
      (\<exists>zs. arr = Some zs \<and> length zs = length xs * ?s + length rest \<and>
         take (k * ?s) zs = ThermalTelemetryCalibrated_array (run_heads ?ts xs) \<and>
         drop (length xs * ?s) zs = rest \<and>
         sorted (map ?ts (run_heads ?ts xs)) \<and> distinct (map ?ts (run_heads ?ts xs)))"
  proof (cases "xs = []")
    case True
    with run show ?thesis
      by (auto simp: array_duplicate_removal_def ThermalTelemetryCalibrated_array_def)
  next
    case False
    have pos: "0 < ?s" by (simp add: sizeof_ThermalTelemetryCalibrated_def)
    from array_duplicate_removal_elements[of ThermalTelemetryCalibrated_bytes ?s
        thermal_timestamp_comparator ?ts xs rest,
        OF length_ThermalTelemetryCalibrated_bytes thermal_timestamp_comparator_0 pos False]
    obtain zs where "array_duplicate_removal (Some (ThermalTelemetryCalibrated_array xs @ rest))
          (length xs) ?s (Some thermal_timestamp_comparator) = (length (run_heads ?ts xs), Some zs)"
      and "length zs = length xs * ?s + length rest"
      and "take (length (run_heads ?ts xs) * ?s) zs =
          ThermalTelemetryCalibrated_array (run_heads ?ts xs)"
      and "drop (length xs * ?s) zs = rest"
      unfolding ThermalTelemetryCalibrated_array_def by blast
    with run run_heads_sorted[OF srt] show ?thesis
      by auto
  qed
next
  let ?s = sizeof_ThermalTelemetryCalibrated
  let ?ts = thermal_telemetry_timestamp
  assume "map ?ts xs0 = [5, 3, 3, 1, 5] \<and> mset ys = mset xs0 \<and> sorted (map ?ts ys) \<and>
    array_duplicate_removal (Some (ThermalTelemetryCalibrated_array ys @ rest')) (length ys)
      ?s (Some thermal_timestamp_comparator) = (k', arr')"
  then have ts0: "map ?ts xs0 = [5, 3, 3, 1, 5]" and perm: "mset ys = mset xs0"
    and srt: "sorted (map ?ts ys)"
    and run: "array_duplicate_removal (Some (ThermalTelemetryCalibrated_array ys @ rest'))
      (length ys) ?s (Some thermal_timestamp_comparator) = (k', arr')"
    by simp_all
  have "mset (map ?ts ys) = mset (map ?ts xs0)"
    using perm by simp
  with srt have "sort (map ?ts xs0) = map ?ts ys"
    by (intro properties_for_sort) simp_all
  moreover have "sort [5, 3, 3, 1, 5 :: uint32_t] = [1, 3, 3, 5, 5]"
    by code_simp
  ultimately have ts: "map ?ts ys = [1, 3, 3, 5, 5]"
    by (simp only: ts0)
  then have "length ys = 5"
    by (metis length_map length_Cons list.size(3) eval_nat_numeral(3) numeral_One Suc_numeral
        semiring_norm(2) semiring_norm(8) One_nat_def)
  then obtain y0 y1 y2 y3 y4 where ys: "ys = [y0, y1, y2, y3, y4]"
    by (cases ys; cases "tl ys"; cases "tl (tl ys)"; cases "tl (tl (tl ys))";
        cases "tl (tl (tl (tl ys)))") auto
  have rh: "run_heads ?ts ys = [ys ! 0, ys ! 1, ys ! 3]"
    using ts by (simp add: ys)
  have ne: "ys \<noteq> []" by (simp add: ys)
  have pos: "0 < ?s" by (simp add: sizeof_ThermalTelemetryCalibrated_def)
  from array_duplicate_removal_elements[of ThermalTelemetryCalibrated_bytes ?s
      thermal_timestamp_comparator ?ts ys rest',
      OF length_ThermalTelemetryCalibrated_bytes thermal_timestamp_comparator_0 pos ne]
  obtain zs where "array_duplicate_removal (Some (ThermalTelemetryCalibrated_array ys @ rest'))
        (length ys) ?s (Some thermal_timestamp_comparator) = (length (run_heads ?ts ys), Some zs)"
    and "take (length (run_heads ?ts ys) * ?s) zs =
        ThermalTelemetryCalibrated_array (run_heads ?ts ys)"
    unfolding ThermalTelemetryCalibrated_array_def by blast
  with run have "k' = length (run_heads ?ts ys)" "arr' = Some zs"
    "take (length (run_heads ?ts ys) * ?s) zs = ThermalTelemetryCalibrated_array (run_heads ?ts ys)"
    by simp_all
  moreover have "length (run_heads ?ts ys) = 3"
    unfolding rh by simp
  ultimately have "k' = 3" "arr' = Some zs"
    "take (3 * ?s) zs = ThermalTelemetryCalibrated_array [ys ! 0, ys ! 1, ys ! 3]"
    by (simp_all only: rh)
  moreover have "map ?ts [ys ! 0, ys ! 1, ys ! 3] = [1, 3, 5]"
    using ts by (simp add: ys)
  ultimately show "map ?ts ys = [1, 3, 3, 5, 5] \<and> k' = 3 \<and>
      (\<exists>zs. arr' = Some zs \<and>
         take (3 * ?s) zs = ThermalTelemetryCalibrated_array [ys ! 0, ys ! 1, ys ! 3]) \<and>
      map ?ts [ys ! 0, ys ! 1, ys ! 3] = [1, 3, 5]"
    using ts by simp
qed

text \<open>C10. The returned length is 0 when the array or the comparator is null, or the
  element size or the number of elements is 0. For an array of at least \<open>n\<close> elements of
  \<open>size\<close> bytes, a comparator, a positive element size and \<open>n > 0\<close>, it is at least 1 and
  at most \<open>n\<close>.\<close>

theorem array_duplicate_removal_length:
  "(array = None \<or> comparator = None \<or> size' = 0 \<or> n = 0 \<longrightarrow>
      fst (array_duplicate_removal array n size' comparator) = 0) \<and>
   (0 < size' \<and> 0 < n \<and> n * size' \<le> length p \<longrightarrow>
      1 \<le> fst (array_duplicate_removal (Some p) n size' (Some cmp)) \<and>
      fst (array_duplicate_removal (Some p) n size' (Some cmp)) \<le> n)"
proof (rule conjI; rule impI)
  assume "array = None \<or> comparator = None \<or> size' = 0 \<or> n = 0"
  then show "fst (array_duplicate_removal array n size' comparator) = 0"
    by (auto simp: array_duplicate_removal_def split: option.splits)
next
  assume a: "0 < size' \<and> 0 < n \<and> n * size' \<le> length p"
  obtain k p' where run: "array_duplicate_removal_loop cmp n size' 1 1 p = (k, p')"
    by (cases "array_duplicate_removal_loop cmp n size' 1 1 p")
  from array_duplicate_removal_loop_bounds[OF run] a have "1 \<le> k \<and> k \<le> n"
    by simp
  with a run show "1 \<le> fst (array_duplicate_removal (Some p) n size' (Some cmp)) \<and>
      fst (array_duplicate_removal (Some p) n size' (Some cmp)) \<le> n"
    by (simp add: array_duplicate_removal_def)
qed

text \<open>Some values of \<open>float_bits\<close>: \<^verbatim>\<open>10.0f\<close>, \<^verbatim>\<open>-5.0f\<close>, the calibrated temperatures of
  the raw values 2500 and -1, the sun component of the raw value 1, and the smallest and the
  largest positive \<^verbatim>\<open>float\<close>.\<close>

lemma float_bits_examples:
  "float_bits 10 = 0x41200000 \<and> float_bits (- 5) = 0xC0A00000 \<and>
   float_bits (TEMP_C_PHYSICAL_VALUE 2500) = 0x41C80000 \<and>
   float_bits (TEMP_C_PHYSICAL_VALUE (- 1)) = 0xBC23D70A \<and>
   float_bits (SUN_SENSORS_PHYSICAL_VALUE 1) = 0x38800000 \<and>
   float_bits (2 powi (- 149)) = 1 \<and>
   float_bits ((2 - 2 powi (- 23)) * 2 powi 127) = 0x7F7FFFFF"
  by code_simp

text \<open>The sample series in memory, and the call on it.\<close>

lemma sample_series_run:
  "array_duplicate_removal (Some (ThermalTelemetryCalibrated_array sample_series))
     (length sample_series) sizeof_ThermalTelemetryCalibrated (Some thermal_timestamp_comparator) =
   (3, Some (ThermalTelemetryCalibrated_array
       [\<lparr>thermal_telemetry_timestamp = 1, CPU_C = 10, mirror_cell_C = 0\<rparr>,
        \<lparr>thermal_telemetry_timestamp = 3, CPU_C = 20, mirror_cell_C = 0\<rparr>,
        \<lparr>thermal_telemetry_timestamp = 5, CPU_C = 40, mirror_cell_C = 0\<rparr>,
        \<lparr>thermal_telemetry_timestamp = 5, CPU_C = 40, mirror_cell_C = 0\<rparr>,
        \<lparr>thermal_telemetry_timestamp = 5, CPU_C = 50, mirror_cell_C = 0\<rparr>]))"
  by code_simp

text \<open>The size is the stride of every access: with the size 4 instead of 12 the same memory
  is read as the five words 1, the bits of \<^verbatim>\<open>10.0f\<close>, 0, 3, the bits of \<^verbatim>\<open>20.0f\<close>, each
  different from the one before, and nothing is removed.\<close>

lemma sample_series_stride:
  "array_duplicate_removal (Some (ThermalTelemetryCalibrated_array sample_series)) 5 4
     (Some thermal_timestamp_comparator) =
   (5, Some (ThermalTelemetryCalibrated_array sample_series))"
  by code_simp

lemma sample_series_sorted: "sorted (map thermal_telemetry_timestamp sample_series)"
  by code_simp

lemma sample_series_perm: "mset sample_series = mset sample_series_unsorted"
  by (simp add: sample_series_def sample_series_unsorted_def)

lemma sample_series_unsorted_timestamps:
  "map thermal_telemetry_timestamp sample_series_unsorted = [5, 3, 3, 1, 5]"
  by (simp add: sample_series_unsorted_def)

lemma sample_series_length: "length (ThermalTelemetryCalibrated_array sample_series) = 60"
  by (simp add: length_ThermalTelemetryCalibrated_array sizeof_ThermalTelemetryCalibrated_def
      sample_series_def)

theorem array_duplicate_removal_sorted_series_witness:
  "array_duplicate_removal (Some (ThermalTelemetryCalibrated_array sample_series))
     (length sample_series) sizeof_ThermalTelemetryCalibrated (Some thermal_timestamp_comparator) =
   (3, Some (ThermalTelemetryCalibrated_array
       [\<lparr>thermal_telemetry_timestamp = 1, CPU_C = 10, mirror_cell_C = 0\<rparr>,
        \<lparr>thermal_telemetry_timestamp = 3, CPU_C = 20, mirror_cell_C = 0\<rparr>,
        \<lparr>thermal_telemetry_timestamp = 5, CPU_C = 40, mirror_cell_C = 0\<rparr>,
        \<lparr>thermal_telemetry_timestamp = 5, CPU_C = 40, mirror_cell_C = 0\<rparr>,
        \<lparr>thermal_telemetry_timestamp = 5, CPU_C = 50, mirror_cell_C = 0\<rparr>])) \<and>
   sorted (map thermal_telemetry_timestamp sample_series) \<and>
   map thermal_telemetry_timestamp sample_series_unsorted = [5, 3, 3, 1, 5] \<and>
   mset sample_series = mset sample_series_unsorted \<and>
   (3 :: nat) = card (thermal_telemetry_timestamp ` set sample_series) \<and>
   map thermal_telemetry_timestamp sample_series = [1, 3, 3, 5, 5] \<and>
   take (3 * sizeof_ThermalTelemetryCalibrated) (ThermalTelemetryCalibrated_array
       [\<lparr>thermal_telemetry_timestamp = 1, CPU_C = 10, mirror_cell_C = 0\<rparr>,
        \<lparr>thermal_telemetry_timestamp = 3, CPU_C = 20, mirror_cell_C = 0\<rparr>,
        \<lparr>thermal_telemetry_timestamp = 5, CPU_C = 40, mirror_cell_C = 0\<rparr>,
        \<lparr>thermal_telemetry_timestamp = 5, CPU_C = 40, mirror_cell_C = 0\<rparr>,
        \<lparr>thermal_telemetry_timestamp = 5, CPU_C = 50, mirror_cell_C = 0\<rparr>]) =
     ThermalTelemetryCalibrated_array (run_heads thermal_telemetry_timestamp sample_series) \<and>
   take (3 * sizeof_ThermalTelemetryCalibrated) (ThermalTelemetryCalibrated_array
       [\<lparr>thermal_telemetry_timestamp = 1, CPU_C = 10, mirror_cell_C = 0\<rparr>,
        \<lparr>thermal_telemetry_timestamp = 3, CPU_C = 20, mirror_cell_C = 0\<rparr>,
        \<lparr>thermal_telemetry_timestamp = 5, CPU_C = 40, mirror_cell_C = 0\<rparr>,
        \<lparr>thermal_telemetry_timestamp = 5, CPU_C = 40, mirror_cell_C = 0\<rparr>,
        \<lparr>thermal_telemetry_timestamp = 5, CPU_C = 50, mirror_cell_C = 0\<rparr>]) =
     ThermalTelemetryCalibrated_array [sample_series ! 0, sample_series ! 1, sample_series ! 3] \<and>
   map thermal_telemetry_timestamp [sample_series ! 0, sample_series ! 1, sample_series ! 3] =
     [1, 3, 5]"
proof -
  let ?zs = "ThermalTelemetryCalibrated_array
       [\<lparr>thermal_telemetry_timestamp = 1, CPU_C = 10, mirror_cell_C = 0\<rparr>,
        \<lparr>thermal_telemetry_timestamp = 3, CPU_C = 20, mirror_cell_C = 0\<rparr>,
        \<lparr>thermal_telemetry_timestamp = 5, CPU_C = 40, mirror_cell_C = 0\<rparr>,
        \<lparr>thermal_telemetry_timestamp = 5, CPU_C = 40, mirror_cell_C = 0\<rparr>,
        \<lparr>thermal_telemetry_timestamp = 5, CPU_C = 50, mirror_cell_C = 0\<rparr>]"
  have run: "array_duplicate_removal (Some (ThermalTelemetryCalibrated_array sample_series @ []))
      (length sample_series) sizeof_ThermalTelemetryCalibrated (Some thermal_timestamp_comparator) =
      (3, Some ?zs)"
    using sample_series_run by simp
  note t = array_duplicate_removal_sorted_series[where xs = sample_series and rest = "[]"
      and k = 3 and arr = "Some ?zs"
      and xs0 = sample_series_unsorted and ys = sample_series and rest' = "[]" and k' = 3
      and arr' = "Some ?zs"]
  have h1: "sorted (map thermal_telemetry_timestamp sample_series) \<and>
      array_duplicate_removal (Some (ThermalTelemetryCalibrated_array sample_series @ []))
        (length sample_series) sizeof_ThermalTelemetryCalibrated
        (Some thermal_timestamp_comparator) = (3, Some ?zs)"
    using sample_series_sorted run by (rule conjI)
  have h2: "map thermal_telemetry_timestamp sample_series_unsorted = [5, 3, 3, 1, 5] \<and>
      mset sample_series = mset sample_series_unsorted \<and>
      sorted (map thermal_telemetry_timestamp sample_series) \<and>
      array_duplicate_removal (Some (ThermalTelemetryCalibrated_array sample_series @ []))
        (length sample_series) sizeof_ThermalTelemetryCalibrated
        (Some thermal_timestamp_comparator) = (3, Some ?zs)"
    using sample_series_unsorted_timestamps sample_series_perm sample_series_sorted run
    by (intro conjI)
  note r1 = t[THEN conjunct1, THEN mp, OF h1]
  note r2 = t[THEN conjunct2, THEN mp, OF h2]
  from r1 have "(3 :: nat) = card (thermal_telemetry_timestamp ` set sample_series)"
    and "take (3 * sizeof_ThermalTelemetryCalibrated) ?zs =
           ThermalTelemetryCalibrated_array (run_heads thermal_telemetry_timestamp sample_series)"
    by blast+
  moreover from r2 have "map thermal_telemetry_timestamp sample_series = [1, 3, 3, 5, 5]"
    and "take (3 * sizeof_ThermalTelemetryCalibrated) ?zs =
           ThermalTelemetryCalibrated_array [sample_series ! 0, sample_series ! 1, sample_series ! 3]"
    and "map thermal_telemetry_timestamp [sample_series ! 0, sample_series ! 1, sample_series ! 3] =
        [1, 3, 5]"
    by blast+
  ultimately show ?thesis
    using sample_series_run sample_series_sorted sample_series_perm
      sample_series_unsorted_timestamps
    by (simp only: simp_thms)
qed

theorem array_duplicate_removal_length_witness:
  "fst (array_duplicate_removal None 5 12 (Some thermal_timestamp_comparator)) = 0 \<and>
   fst (array_duplicate_removal (Some (ThermalTelemetryCalibrated_array sample_series)) 5 12 None) = 0 \<and>
   fst (array_duplicate_removal (Some (ThermalTelemetryCalibrated_array sample_series)) 5 0
          (Some thermal_timestamp_comparator)) = 0 \<and>
   fst (array_duplicate_removal (Some (ThermalTelemetryCalibrated_array sample_series)) 0 12
          (Some thermal_timestamp_comparator)) = 0 \<and>
   1 \<le> fst (array_duplicate_removal (Some (ThermalTelemetryCalibrated_array sample_series)) 5 12
          (Some thermal_timestamp_comparator)) \<and>
   fst (array_duplicate_removal (Some (ThermalTelemetryCalibrated_array sample_series)) 5 12
          (Some thermal_timestamp_comparator)) \<le> 5"
proof -
  let ?p = "ThermalTelemetryCalibrated_array sample_series"
  have l: "(5 :: nat) * 12 \<le> length ?p"
    by (simp add: sample_series_length)
  from array_duplicate_removal_length[of None "Some thermal_timestamp_comparator" 12 5 ?p
      thermal_timestamp_comparator]
    array_duplicate_removal_length[of "Some ?p" None 12 5 ?p thermal_timestamp_comparator]
    array_duplicate_removal_length[of "Some ?p" "Some thermal_timestamp_comparator" 0 5 ?p
      thermal_timestamp_comparator]
    array_duplicate_removal_length[of "Some ?p" "Some thermal_timestamp_comparator" 12 0 ?p
      thermal_timestamp_comparator]
    l
  show ?thesis
    by simp
qed

section \<open>The record collector\<close>

lemma collector_append_step:
  assumes "collector_append realloc_ok c x = Some c'"
  shows "telemetry_capacity c' =
      (if telemetry_length c = telemetry_capacity c then telemetry_capacity c + 128
       else telemetry_capacity c)"
    and "telemetry_length c' = telemetry_length c + 1"
    and "realloc_calls c' =
      (if telemetry_length c = telemetry_capacity c then realloc_calls c + 1 else realloc_calls c)"
  using assms
  by (auto simp: collector_append_def Let_def split: if_splits)

lemma collector_append_array:
  assumes "collector_append realloc_ok c x = Some c'"
    and "length (telemetry_array c) = telemetry_capacity c"
    and "telemetry_length c \<le> telemetry_capacity c"
  shows "length (telemetry_array c') = telemetry_capacity c'"
    and "take (telemetry_length c') (telemetry_array c') =
      take (telemetry_length c) (telemetry_array c) @ [Some x]"
  using assms
  by (auto simp: collector_append_def Let_def take_Suc_conv_app_nth nth_append
      split: if_splits)

lemma collector_append_all_spec:
  assumes ok: "\<forall>n. realloc_ok n"
  shows "telemetry_length c \<le> telemetry_capacity c \<Longrightarrow>
     telemetry_capacity c = 128 * realloc_calls c \<Longrightarrow>
     realloc_calls c = (telemetry_length c + 127) div 128 \<Longrightarrow>
     length (telemetry_array c) = telemetry_capacity c \<Longrightarrow>
     \<exists>c'. collector_append_all realloc_ok c xs = Some c' \<and>
       telemetry_length c' = telemetry_length c + length xs \<and>
       telemetry_length c' \<le> telemetry_capacity c' \<and>
       telemetry_capacity c' = 128 * realloc_calls c' \<and>
       realloc_calls c' = (telemetry_length c' + 127) div 128 \<and>
       length (telemetry_array c') = telemetry_capacity c' \<and>
       take (telemetry_length c') (telemetry_array c') =
         take (telemetry_length c) (telemetry_array c) @ map Some xs"
proof (induction xs arbitrary: c)
  case Nil
  then show ?case by simp
next
  case (Cons x xs)
  have "collector_append realloc_ok c x \<noteq> None"
    using ok by (simp add: collector_append_def Let_def)
  then obtain c1 where c1: "collector_append realloc_ok c x = Some c1"
    by blast
  note st = collector_append_step[OF c1]
  note ar = collector_append_array[OF c1 Cons.prems(4) Cons.prems(1)]
  define l r k where "l = telemetry_length c" and "r = realloc_calls c" and "k = telemetry_capacity c"
  define l1 r1 k1 where "l1 = telemetry_length c1" and "r1 = realloc_calls c1"
    and "k1 = telemetry_capacity c1"
  have pre: "l \<le> k" "k = 128 * r" "r = (l + 127) div 128"
    using Cons.prems(1-3) by (simp_all add: l_def r_def k_def)
  have post: "k1 = (if l = k then k + 128 else k)" "l1 = l + 1"
    "r1 = (if l = k then r + 1 else r)"
    using st by (simp_all add: l_def r_def k_def l1_def r1_def k1_def)
  have lo: "128 * r \<le> l + 127"
    using div_times_less_eq_dividend[of "l + 127" 128] by (simp add: pre(3) mult.commute)
  have "l1 \<le> k1 \<and> k1 = 128 * r1 \<and> r1 = (l1 + 127) div 128"
  proof (cases "l = k")
    case True
    have k1: "k1 = k + 128" and r1: "r1 = r + 1"
      using post(1,3) True by simp_all
    have "(l1 + 127) div 128 = r + 1"
      using True pre(2) post(2) by (intro div_nat_eqI) simp_all
    with k1 r1 True pre(2) post(2) show ?thesis
      by linarith
  next
    case False
    have k1: "k1 = k" and r1: "r1 = r"
      using post(1,3) False by simp_all
    have "l < k" using False pre(1) by simp
    have "(l1 + 127) div 128 = r"
      using \<open>l < k\<close> pre(2) post(2) lo by (intro div_nat_eqI) simp_all
    with k1 r1 \<open>l < k\<close> pre(2) post(2) show ?thesis
      by linarith
  qed
  then have 1: "telemetry_length c1 \<le> telemetry_capacity c1"
    and 2: "telemetry_capacity c1 = 128 * realloc_calls c1"
    and 3: "realloc_calls c1 = (telemetry_length c1 + 127) div 128"
    by (simp_all add: l1_def r1_def k1_def)
  from Cons.IH[OF 1 2 3 ar(1)] obtain c' where c':
    "collector_append_all realloc_ok c1 xs = Some c'"
    "telemetry_length c' = telemetry_length c1 + length xs"
    "telemetry_length c' \<le> telemetry_capacity c'"
    "telemetry_capacity c' = 128 * realloc_calls c'"
    "realloc_calls c' = (telemetry_length c' + 127) div 128"
    "length (telemetry_array c') = telemetry_capacity c'"
    "take (telemetry_length c') (telemetry_array c') =
         take (telemetry_length c1) (telemetry_array c1) @ map Some xs"
    by blast
  have run: "collector_append_all realloc_ok c (x # xs) = Some c'"
    using c1 c'(1) by simp
  have len: "telemetry_length c' = telemetry_length c + length (x # xs)"
    using c'(2) st(2) by simp
  have arr: "take (telemetry_length c') (telemetry_array c') =
         take (telemetry_length c) (telemetry_array c) @ map Some (x # xs)"
    using c'(7) ar(2) by simp
  from run len c'(3) c'(4) c'(5) c'(6) arr show ?case
    by blast
qed

text \<open>C8. The collector starts with capacity 0. An append that finds the length equal to
  the capacity adds exactly 128 to the capacity, and any other append leaves the capacity
  as it is; the length grows by one and stays within the capacity. When no allocation
  fails, appending the records \<open>xs\<close> to the empty collector stores them in order, with the
  capacity the least multiple of 128 that holds them, reached by that many calls of
  \<^verbatim>\<open>realloc\<close>: two calls and capacity 256 for 129 records.\<close>

theorem collector_grows_by_128:
  "telemetry_capacity (collector_init :: 'a collector) = 0 \<and>
   telemetry_length (collector_init :: 'a collector) = 0 \<and>
   (collector_append realloc_ok c x = Some c' \<longrightarrow>
      telemetry_capacity c' =
        (if telemetry_length c = telemetry_capacity c then telemetry_capacity c + 128
         else telemetry_capacity c) \<and>
      telemetry_length c' = telemetry_length c + 1 \<and>
      (telemetry_length c \<le> telemetry_capacity c \<longrightarrow> telemetry_length c' \<le> telemetry_capacity c')) \<and>
   ((\<forall>n. realloc_ok n) \<longrightarrow>
      (\<exists>c'. collector_append_all realloc_ok collector_init (xs :: 'a list) = Some c' \<and>
         telemetry_length c' = length xs \<and>
         telemetry_length c' \<le> telemetry_capacity c' \<and>
         telemetry_capacity c' = 128 * ((length xs + 127) div 128) \<and>
         realloc_calls c' = (length xs + 127) div 128 \<and>
         take (length xs) (telemetry_array c') = map Some xs \<and>
         (length xs = 129 \<longrightarrow> realloc_calls c' = 2 \<and> telemetry_capacity c' = 256)))"
proof -
  have init: "telemetry_capacity (collector_init :: 'a collector) = 0"
    "telemetry_length (collector_init :: 'a collector) = 0"
    by (simp_all add: collector_init_def)
  have step: "collector_append realloc_ok c x = Some c' \<longrightarrow>
      telemetry_capacity c' =
        (if telemetry_length c = telemetry_capacity c then telemetry_capacity c + 128
         else telemetry_capacity c) \<and>
      telemetry_length c' = telemetry_length c + 1 \<and>
      (telemetry_length c \<le> telemetry_capacity c \<longrightarrow> telemetry_length c' \<le> telemetry_capacity c')"
    using collector_append_step[of realloc_ok c x c'] by auto
  have run: "(\<forall>n. realloc_ok n) \<longrightarrow>
      (\<exists>c'. collector_append_all realloc_ok collector_init xs = Some c' \<and>
         telemetry_length c' = length xs \<and>
         telemetry_length c' \<le> telemetry_capacity c' \<and>
         telemetry_capacity c' = 128 * ((length xs + 127) div 128) \<and>
         realloc_calls c' = (length xs + 127) div 128 \<and>
         take (length xs) (telemetry_array c') = map Some xs \<and>
         (length xs = 129 \<longrightarrow> realloc_calls c' = 2 \<and> telemetry_capacity c' = 256))"
  proof
    assume ok: "\<forall>n. realloc_ok n"
    from collector_append_all_spec[OF ok, of "collector_init :: 'a collector" xs]
    obtain c' where c': "collector_append_all realloc_ok collector_init xs = Some c'"
      "telemetry_length c' = length xs"
      "telemetry_length c' \<le> telemetry_capacity c'"
      "telemetry_capacity c' = 128 * realloc_calls c'"
      "realloc_calls c' = (telemetry_length c' + 127) div 128"
      "take (telemetry_length c') (telemetry_array c') = map Some xs"
      by (auto simp: collector_init_def)
    have "length xs = 129 \<longrightarrow> realloc_calls c' = 2 \<and> telemetry_capacity c' = 256"
    proof
      assume "length xs = 129"
      with c'(2) c'(5) have "realloc_calls c' = 2" by simp
      with c'(4) show "realloc_calls c' = 2 \<and> telemetry_capacity c' = 256" by simp
    qed
    with c' show "\<exists>c'. collector_append_all realloc_ok collector_init xs = Some c' \<and>
         telemetry_length c' = length xs \<and>
         telemetry_length c' \<le> telemetry_capacity c' \<and>
         telemetry_capacity c' = 128 * ((length xs + 127) div 128) \<and>
         realloc_calls c' = (length xs + 127) div 128 \<and>
         take (length xs) (telemetry_array c') = map Some xs \<and>
         (length xs = 129 \<longrightarrow> realloc_calls c' = 2 \<and> telemetry_capacity c' = 256)"
      by auto
  qed
  from init step run show ?thesis by blast
qed

theorem collector_grows_by_128_witness:
  "collector_append (\<lambda>n. True) (collector_init :: nat collector) 7 =
     Some \<lparr>telemetry_array = Some 7 # replicate 127 None, telemetry_length = 1,
            telemetry_capacity = 128, realloc_calls = 1\<rparr> \<and>
   (\<exists>c'. collector_append_all (\<lambda>n. True) collector_init (replicate 129 (7 :: nat)) = Some c' \<and>
      telemetry_length c' = 129 \<and> telemetry_capacity c' = 256 \<and> realloc_calls c' = 2)"
proof -
  have 1: "collector_append (\<lambda>n. True) (collector_init :: nat collector) 7 =
     Some \<lparr>telemetry_array = Some 7 # replicate 127 None, telemetry_length = 1,
            telemetry_capacity = 128, realloc_calls = 1\<rparr>"
  proof -
    have "replicate 128 (None :: nat option) = None # replicate 127 None"
      by (metis replicate_Suc Suc_numeral semiring_norm(2) semiring_norm(8) numeral_plus_one
          add.commute plus_1_eq_Suc)
    then show ?thesis
      by (simp add: collector_append_def collector_init_def Let_def)
  qed
  from collector_grows_by_128[of "\<lambda>n. True" "collector_init :: nat collector" 7
      "\<lparr>telemetry_array = Some 7 # replicate 127 None, telemetry_length = 1,
            telemetry_capacity = 128, realloc_calls = 1\<rparr>" "replicate 129 (7 :: nat)"] 1
  show ?thesis
    by auto
qed

section \<open>Rounding to \<^verbatim>\<open>float\<close>\<close>

lemma bitlen_powi_bounds:
  assumes "0 < p"
  shows "2 powi (bitlen p - 1) \<le> (of_int p :: rat)" "(of_int p :: rat) < 2 powi (bitlen p)"
proof -
  from bitlen_bounds[OF assms] have lo: "2 ^ nat (bitlen p - 1) \<le> p" and hi: "p < 2 ^ nat (bitlen p)"
    by simp_all
  have b1: "1 \<le> bitlen p"
    using assms bitlen_eq_zero_iff[of p] bitlen_nonneg[of p] by linarith
  have "(2 :: rat) powi (bitlen p - 1) = 2 ^ nat (bitlen p - 1)"
    using b1 by (simp add: power_int_def)
  also have "\<dots> = of_int (2 ^ nat (bitlen p - 1))" by simp
  also have "\<dots> \<le> of_int p" using lo by (simp only: of_int_le_iff)
  finally show "2 powi (bitlen p - 1) \<le> (of_int p :: rat)" .
  have "(of_int p :: rat) < of_int (2 ^ nat (bitlen p))" using hi by (simp only: of_int_less_iff)
  also have "\<dots> = 2 ^ nat (bitlen p)" by simp
  also have "\<dots> = 2 powi (bitlen p)"
    using b1 by (simp add: power_int_def)
  finally show "(of_int p :: rat) < 2 powi (bitlen p)" .
qed

lemma f32_exponent_bounds:
  assumes "x \<noteq> 0"
  shows "2 powi (f32_exponent x) \<le> \<bar>x\<bar>" "\<bar>x\<bar> < 2 powi (f32_exponent x + 1)"
proof -
  obtain p q where pq: "quotient_of \<bar>x\<bar> = (p, q)" by (cases "quotient_of \<bar>x\<bar>")
  have q: "0 < q" using pq by (rule quotient_of_denom_pos)
  have x: "\<bar>x\<bar> = of_int p / of_int q" using pq by (rule quotient_of_div)
  have "0 < \<bar>x\<bar>" using assms by simp
  with x q have p: "0 < p"
    by (simp add: zero_less_divide_iff)
  define d where "d = bitlen p - bitlen q"
  have qr: "(0 :: rat) < of_int q" using q by simp
  have up: "\<bar>x\<bar> < 2 powi (d + 1)"
  proof -
    have "of_int p < (2 :: rat) powi (bitlen p)" by (rule bitlen_powi_bounds(2)[OF p])
    also have "\<dots> = 2 powi (d + 1) * 2 powi (bitlen q - 1)"
      by (simp add: d_def power_int_add[symmetric])
    also have "\<dots> \<le> 2 powi (d + 1) * of_int q"
      using bitlen_powi_bounds(1)[OF q] by (intro mult_left_mono) simp_all
    finally show ?thesis
      using qr by (simp add: x pos_divide_less_eq)
  qed
  have low: "2 powi (d - 1) \<le> \<bar>x\<bar>"
  proof -
    have "2 powi (d - 1) * of_int q \<le> (2 :: rat) powi (d - 1) * 2 powi (bitlen q)"
      using bitlen_powi_bounds(2)[OF q] by (intro mult_left_mono) simp_all
    also have "\<dots> = 2 powi (bitlen p - 1)"
      by (simp add: d_def power_int_add[symmetric])
    also have "\<dots> \<le> of_int p" by (rule bitlen_powi_bounds(1)[OF p])
    finally show ?thesis
      using qr by (simp add: x pos_le_divide_eq)
  qed
  have e: "f32_exponent x = (if 2 powi d \<le> \<bar>x\<bar> then d else d - 1)"
    by (simp add: f32_exponent_def pq d_def Let_def)
  show "2 powi (f32_exponent x) \<le> \<bar>x\<bar>"
    using low by (simp add: e)
  show "\<bar>x\<bar> < 2 powi (f32_exponent x + 1)"
    using up by (auto simp: e)
qed

lemma round_even_of_int [simp]: "round_even (of_int n) = n"
  by (simp add: round_even_def Let_def)

text \<open>A number with a significand of at most 24 bits is a \<^verbatim>\<open>float\<close>: rounding leaves it
  as it is.\<close>

lemma f32_round_exact:
  assumes "\<bar>m\<bar> < 2 ^ 24"
  shows "f32_round (of_int m * 2 powi k) = of_int m * 2 powi k"
proof (cases "m = 0")
  case True
  then show ?thesis by (simp add: f32_round_def)
next
  case False
  let ?x = "of_int m * (2 :: rat) powi k"
  have x0: "?x \<noteq> 0" using False by simp
  define e where "e = f32_exponent ?x"
  have "2 powi e \<le> \<bar>?x\<bar>"
    unfolding e_def by (rule f32_exponent_bounds(1)[OF x0])
  also have "\<bar>?x\<bar> = of_int \<bar>m\<bar> * 2 powi k"
    by (simp add: abs_mult)
  also have "\<dots> < of_int (2 ^ 24) * 2 powi k"
    using assms by (intro mult_strict_right_mono) (simp_all only: of_int_less_iff zero_less_power_int zero_less_numeral)
  also have "\<dots> = 2 powi (k + 24)"
    by (simp add: power_int_add)
  finally have "(2 :: rat) powi e < 2 powi (k + 24)" .
  then have "e < k + 24"
    using power_int_increasing[of "k + 24" e "2 :: rat"] by (cases "e < k + 24") auto
  then have "0 \<le> k - (e - 23)" by simp
  then obtain j where "k - (e - 23) = int j"
    using nonneg_int_cases by blast
  then have j: "k = (e - 23) + int j" by simp
  have "?x / 2 powi (e - 23) = of_int m * (2 powi k / 2 powi (e - 23))"
    by simp
  also have "2 powi k / (2 :: rat) powi (e - 23) = 2 ^ j"
    by (simp add: j power_int_add)
  also have "of_int m * (2 :: rat) ^ j = of_int (m * 2 ^ j)"
    by simp
  finally have q: "?x / 2 powi (e - 23) = of_int (m * 2 ^ j)" .
  have "f32_round ?x = of_int (round_even (?x / 2 powi (e - 23))) * 2 powi (e - 23)"
    using x0 by (simp add: f32_round_def e_def Let_def)
  also have "\<dots> = of_int (m * 2 ^ j) * 2 powi (e - 23)"
    by (simp only: q round_even_of_int)
  also have "\<dots> = of_int m * (2 ^ j * 2 powi (e - 23))"
    by simp
  also have "(2 :: rat) ^ j * 2 powi (e - 23) = 2 powi k"
    by (simp add: j power_int_add)
  finally show ?thesis .
qed

lemma sint_int16_bound: "\<bar>sint (v :: 16 word)\<bar> < 2 ^ 24"
proof -
  have "- (2 ^ 15) \<le> sint v" "sint v < 2 ^ 15"
    using sint_ge[of v] sint_lt[of v] by simp_all
  then show ?thesis by simp
qed

lemma float_of_int16_exact: "f32_round (float_of_int16 v) = float_of_int16 v"
  using f32_round_exact[OF sint_int16_bound, of v 0] by (simp add: float_of_int16_def)

lemma f32_hundredth: "f32_round (1 / 100) = 10737418 / 2 ^ 30"
  by code_simp

lemma f32_16384: "f32_round 16384 = 16384"
  by code_simp

lemma SUN_SENSORS_PHYSICAL_VALUE_exact:
  "SUN_SENSORS_PHYSICAL_VALUE v = of_int (sint v) / 16384"
proof -
  have "f32_round (of_int (sint v) * 2 powi (- 14)) = of_int (sint v) * 2 powi (- 14)"
    by (rule f32_round_exact[OF sint_int16_bound])
  moreover have "(2 :: rat) powi (- 14) = 1 / 16384"
    by (simp add: power_int_minus_divide)
  ultimately show ?thesis
    by (simp add: SUN_SENSORS_PHYSICAL_VALUE_def f32_16384 float_of_int16_def)
qed

lemma round_even_error: "\<bar>of_int (round_even z) - z\<bar> \<le> 1 / 2"
proof -
  define r where "r = z - of_int \<lfloor>z\<rfloor>"
  have r: "0 \<le> r" "r < 1"
    unfolding r_def by linarith+
  have z: "z = of_int \<lfloor>z\<rfloor> + r"
    by (simp add: r_def)
  consider "r < 1 / 2" | "1 / 2 < r" | "r = 1 / 2" by linarith
  then show ?thesis
  proof cases
    case 1
    then have "round_even z = \<lfloor>z\<rfloor>"
      by (simp add: round_even_def Let_def r_def)
    with 1 r show ?thesis by (simp add: r_def)
  next
    case 2
    then have "round_even z = \<lfloor>z\<rfloor> + 1"
      by (simp add: round_even_def Let_def r_def)
    with 2 r show ?thesis by (simp add: r_def)
  next
    case 3
    then have "round_even z = \<lfloor>z\<rfloor> \<or> round_even z = \<lfloor>z\<rfloor> + 1"
      by (simp add: round_even_def Let_def r_def)
    with 3 show ?thesis by (auto simp: r_def)
  qed
qed

lemma f32_round_error:
  assumes "x \<noteq> 0"
  shows "\<bar>f32_round x - x\<bar> \<le> 2 powi (f32_exponent x - 24)"
proof -
  define q :: rat where "q = 2 powi (f32_exponent x - 23)"
  have q: "0 < q" by (simp add: q_def)
  have "f32_round x - x = q * (of_int (round_even (x / q)) - x / q)"
    using assms q by (simp add: f32_round_def q_def Let_def algebra_simps)
  then have "\<bar>f32_round x - x\<bar> = q * \<bar>of_int (round_even (x / q)) - x / q\<bar>"
    using q by (simp add: abs_mult)
  also have "\<dots> \<le> q * (1 / 2)"
    using q round_even_error[of "x / q"] by (intro mult_left_mono) simp_all
  also have "\<dots> = 2 powi (f32_exponent x - 24)"
    by (simp add: q_def power_int_diff)
  finally show ?thesis .
qed

text \<open>The product with \<^verbatim>\<open>0.01f\<close> is within \<open>2 ^ -15\<close> of the hundredth of the value.\<close>

lemma TEMP_C_PHYSICAL_VALUE_error:
  "\<bar>TEMP_C_PHYSICAL_VALUE v - of_int (sint v) / 100\<bar> \<le> 1 / 32768"
proof -
  define n where "n = sint v"
  define y :: rat where "y = of_int n * (10737418 / 2 ^ 30)"
  have n: "- (2 ^ 15) \<le> n" "n < 2 ^ 15"
    using sint_ge[of v] sint_lt[of v] by (simp_all add: n_def)
  then have an: "\<bar>of_int n :: rat\<bar> \<le> 32768"
    by (simp add: abs_le_iff)
  have T: "TEMP_C_PHYSICAL_VALUE v = f32_round y"
    by (simp add: TEMP_C_PHYSICAL_VALUE_def f32_hundredth float_of_int16_def y_def n_def)
  have d: "\<bar>y - of_int n / 100\<bar> \<le> 1 / 131072"
  proof -
    have "y - of_int n / 100 = of_int n * (- 24 / (100 * 2 ^ 30))"
      by (simp add: y_def field_simps)
    then have "\<bar>y - of_int n / 100\<bar> = \<bar>of_int n\<bar> * (24 / (100 * 2 ^ 30))"
      by (simp add: abs_mult)
    also have "\<dots> \<le> 32768 * (24 / (100 * 2 ^ 30))"
      using an by (intro mult_right_mono) simp_all
    also have "\<dots> \<le> 1 / 131072" by simp
    finally show ?thesis .
  qed
  show ?thesis
  proof (cases "y = 0")
    case True
    with d T show ?thesis
      by (simp add: f32_round_def n_def)
  next
    case False
    have "\<bar>y\<bar> = \<bar>of_int n\<bar> * (10737418 / 2 ^ 30)"
      by (simp add: y_def abs_mult)
    also have "\<dots> \<le> 32768 * (10737418 / 2 ^ 30)"
      using an by (intro mult_right_mono) simp_all
    also have "\<dots> < 2 powi 9" by simp
    finally have "\<bar>y\<bar> < 2 powi 9" .
    with f32_exponent_bounds(1)[OF False] have "(2 :: rat) powi (f32_exponent y) < 2 powi 9"
      by simp
    then have "f32_exponent y < 9"
      using power_int_increasing[of 9 "f32_exponent y" "2 :: rat"]
      by (cases "f32_exponent y < 9") auto
    then have "(2 :: rat) powi (f32_exponent y - 24) \<le> 2 powi (- 16)"
      by (intro power_int_increasing) simp_all
    with f32_round_error[OF False] have "\<bar>f32_round y - y\<bar> \<le> 1 / 65536"
      by (simp add: power_int_minus_divide)
    with d have "\<bar>f32_round y - of_int n / 100\<bar> \<le> 1 / 65536 + 1 / 131072"
      by linarith
    then show ?thesis
      by (simp add: T n_def)
  qed
qed

section \<open>Calibration\<close>

lemma wire_2500: "bytes_of_u16 w = [0x09, 0xC4] \<Longrightarrow> sint (byte16_swap w) = 2500"
proof -
  assume "bytes_of_u16 w = [0x09, 0xC4]"
  then have "w = u16_of_bytes [0x09, 0xC4]"
    by (metis u16_of_bytes_of)
  then have "byte16_swap w = u16_of_bytes [0xC4, 0x09]"
    by (simp only: byte16_swap_u16_of_bytes)
  also have "\<dots> = 2500"
    by (simp add: u16_of_bytes_def)
  finally show ?thesis by simp
qed

lemma wire_16384: "bytes_of_u16 w = [0x40, 0x00] \<Longrightarrow> sint (byte16_swap w) = 16384"
proof -
  assume "bytes_of_u16 w = [0x40, 0x00]"
  then have "w = u16_of_bytes [0x40, 0x00]"
    by (metis u16_of_bytes_of)
  then have "byte16_swap w = u16_of_bytes [0x00, 0x40]"
    by (simp only: byte16_swap_u16_of_bytes)
  also have "\<dots> = 16384"
    by (simp add: u16_of_bytes_def)
  finally show ?thesis by simp
qed

lemma f32_2500_hundredths: "f32_round (2500 * f32_round (1 / 100)) = 25"
  by code_simp

text \<open>C3. \<^verbatim>\<open>thermal_to_calibrated\<close> gives the timestamp with its bytes swapped and, for
  each temperature, the \<^verbatim>\<open>float\<close> product of the byte-swapped raw value, read as a
  signed number, with \<^verbatim>\<open>0.01f\<close>; this product is within \<open>2 ^ -15\<close> of the hundredth of
  that number. \<^verbatim>\<open>sun_sensors_to_calibrated\<close> gives the same timestamp and, for each
  component, the byte-swapped raw value divided by 16384, which is exact. So both records
  made from one frame, as \<^verbatim>\<open>main\<close> makes them from \<^verbatim>\<open>rtc_s\<close>, carry the same
  timestamp. A raw \<^verbatim>\<open>CPU_C\<close> with the wire bytes 09 C4 (2500 big-endian) gives 25, and a
  raw sun vector component with the wire bytes 40 00 (16384) gives 1.\<close>

theorem calibration_formulas:
  "thermal_telemetry_timestamp (thermal_to_calibrated th ts) = byte32_swap ts \<and>
   ThermalTelemetryCalibrated.CPU_C (thermal_to_calibrated th ts) =
     f32_round (of_int (sint (byte16_swap (ThermalTelemetrySchema.CPU_C th))) * f32_round (1 / 100)) \<and>
   ThermalTelemetryCalibrated.mirror_cell_C (thermal_to_calibrated th ts) =
     f32_round (of_int (sint (byte16_swap (ThermalTelemetrySchema.mirror_cell_C th))) * f32_round (1 / 100)) \<and>
   \<bar>ThermalTelemetryCalibrated.CPU_C (thermal_to_calibrated th ts) -
      of_int (sint (byte16_swap (ThermalTelemetrySchema.CPU_C th))) / 100\<bar> \<le> 1 / 32768 \<and>
   \<bar>ThermalTelemetryCalibrated.mirror_cell_C (thermal_to_calibrated th ts) -
      of_int (sint (byte16_swap (ThermalTelemetrySchema.mirror_cell_C th))) / 100\<bar> \<le> 1 / 32768 \<and>
   sun_sensors_telemetry_timestamp (sun_sensors_to_calibrated a ts) = byte32_swap ts \<and>
   sun_vector_x (sun_sensors_to_calibrated a ts) = of_int (sint (byte16_swap (sunvectorX a))) / 16384 \<and>
   sun_vector_y (sun_sensors_to_calibrated a ts) = of_int (sint (byte16_swap (sunvectorY a))) / 16384 \<and>
   sun_vector_z (sun_sensors_to_calibrated a ts) = of_int (sint (byte16_swap (sunvectorZ a))) / 16384 \<and>
   thermal_telemetry_timestamp (thermal_to_calibrated (thermal fr) (rtc_s (platform fr))) =
     sun_sensors_telemetry_timestamp (sun_sensors_to_calibrated (aocs fr) (rtc_s (platform fr))) \<and>
   (bytes_of_u16 (ThermalTelemetrySchema.CPU_C th) = [0x09, 0xC4] \<longrightarrow>
      ThermalTelemetryCalibrated.CPU_C (thermal_to_calibrated th ts) = 25) \<and>
   (bytes_of_u16 (sunvectorX a) = [0x40, 0x00] \<longrightarrow>
      sun_vector_x (sun_sensors_to_calibrated a ts) = 1)"
proof -
  have th: "thermal_to_calibrated th ts =
      \<lparr>thermal_telemetry_timestamp = byte32_swap ts,
       CPU_C = TEMP_C_PHYSICAL_VALUE (byte16_swap (ThermalTelemetrySchema.CPU_C th)),
       mirror_cell_C = TEMP_C_PHYSICAL_VALUE (byte16_swap (ThermalTelemetrySchema.mirror_cell_C th))\<rparr>"
    for th ts
    by (simp add: thermal_to_calibrated_def IS_BIG_ENDIAN_def Let_def)
  have sun: "sun_sensors_to_calibrated a ts =
      \<lparr>sun_sensors_telemetry_timestamp = byte32_swap ts,
       sun_vector_x = SUN_SENSORS_PHYSICAL_VALUE (byte16_swap (sunvectorX a)),
       sun_vector_y = SUN_SENSORS_PHYSICAL_VALUE (byte16_swap (sunvectorY a)),
       sun_vector_z = SUN_SENSORS_PHYSICAL_VALUE (byte16_swap (sunvectorZ a))\<rparr>"
    for a ts
    by (simp add: sun_sensors_to_calibrated_def IS_BIG_ENDIAN_def Let_def)
  have T: "TEMP_C_PHYSICAL_VALUE v = f32_round (of_int (sint v) * f32_round (1 / 100))" for v
    by (simp add: TEMP_C_PHYSICAL_VALUE_def float_of_int16_def)
  have ex1: "bytes_of_u16 (ThermalTelemetrySchema.CPU_C th) = [0x09, 0xC4] \<longrightarrow>
      ThermalTelemetryCalibrated.CPU_C (thermal_to_calibrated th ts) = 25"
    by (simp add: th T wire_2500 f32_2500_hundredths)
  have ex2: "bytes_of_u16 (sunvectorX a) = [0x40, 0x00] \<longrightarrow>
      sun_vector_x (sun_sensors_to_calibrated a ts) = 1"
    by (simp add: sun SUN_SENSORS_PHYSICAL_VALUE_exact wire_16384)
  have err: "\<bar>TEMP_C_PHYSICAL_VALUE v - of_int (sint v) / 100\<bar> \<le> 1 / 32768" for v
    by (rule TEMP_C_PHYSICAL_VALUE_error)
  show ?thesis
    using ex1 ex2 err[of "byte16_swap (ThermalTelemetrySchema.CPU_C th)"]
      err[of "byte16_swap (ThermalTelemetrySchema.mirror_cell_C th)"]
    by (simp add: th sun SUN_SENSORS_PHYSICAL_VALUE_exact) (simp add: T)
qed

theorem calibration_formulas_witness:
  "bytes_of_u16 (ThermalTelemetrySchema.CPU_C (thermal (BeaconFrame_of_bytes sample_frame_bytes))) =
     [0x09, 0xC4] \<and>
   bytes_of_u16 (sunvectorX (aocs (BeaconFrame_of_bytes sample_frame_bytes))) = [0x40, 0x00] \<and>
   ThermalTelemetryCalibrated.CPU_C
     (thermal_to_calibrated (thermal (BeaconFrame_of_bytes sample_frame_bytes))
        (rtc_s (platform (BeaconFrame_of_bytes sample_frame_bytes)))) = 25 \<and>
   sun_vector_x
     (sun_sensors_to_calibrated (aocs (BeaconFrame_of_bytes sample_frame_bytes))
        (rtc_s (platform (BeaconFrame_of_bytes sample_frame_bytes)))) = 1 \<and>
   thermal_telemetry_timestamp
     (thermal_to_calibrated (thermal (BeaconFrame_of_bytes sample_frame_bytes))
        (rtc_s (platform (BeaconFrame_of_bytes sample_frame_bytes)))) = 100"
proof -
  have 1: "bytes_of_u16 (ThermalTelemetrySchema.CPU_C (thermal (BeaconFrame_of_bytes sample_frame_bytes))) =
     [0x09, 0xC4]"
    by (simp add: BeaconFrame_of_bytes_def ThermalTelemetrySchema_of_bytes_def sample_frame_bytes_def
        bytes_of_u16_of2)
  have 2: "bytes_of_u16 (sunvectorX (aocs (BeaconFrame_of_bytes sample_frame_bytes))) = [0x40, 0x00]"
    by (simp add: BeaconFrame_of_bytes_def AOCSTelemetrySchema_of_bytes_def sample_frame_bytes_def
        bytes_of_u16_of2)
  have "rtc_s (platform (BeaconFrame_of_bytes sample_frame_bytes)) = u32_of_bytes [0x00, 0x00, 0x00, 0x64]"
    by (simp add: BeaconFrame_of_bytes_def PlatformTelemetrySchema_of_bytes_def sample_frame_bytes_def)
  also have "\<dots> = 0x64000000"
    by (simp add: u32_of_bytes_def)
  finally have "byte32_swap (rtc_s (platform (BeaconFrame_of_bytes sample_frame_bytes))) = 100"
    by (simp add: byte32_swap_def)
  with 1 2 calibration_formulas[of "thermal (BeaconFrame_of_bytes sample_frame_bytes)"
      "rtc_s (platform (BeaconFrame_of_bytes sample_frame_bytes))"
      "aocs (BeaconFrame_of_bytes sample_frame_bytes)" "BeaconFrame_of_bytes sample_frame_bytes"]
  show ?thesis
    by simp
qed

end
